(* ===== verification/Prelude.thy ===== *)
theory Prelude
  imports Main "HOL-Library.State_Monad" "HOL-Library.Multiset" "HOL-Library.Char_ord"
    "HOL-Library.List_Lexorder"
begin

text \<open>
  Shared vocabulary of the development.

  \<^item> Effects: every reconciler of the controller talks to the Kubernetes API and to a clock. Both
    are parameters of the model (functions on an abstract store \<open>'s\<close>), and each call is recorded
    in the world with the response it got. A handler is a value of \<open>('s, 'e, 'a) io\<close>; the
    predicates \<open>spec\<close> and \<open>emits\<close> state what a handler returns and which calls it makes for
    \<^emph>\<open>every\<close> behaviour of the API, other writers and failures included.
  \<^item> Go's \<^verbatim>\<open>time\<close> and \<^verbatim>\<open>strings\<close> packages as far as the controller uses them.
  \<^item> Generic list lemmas used by several components.
\<close>

named_theorems emits_rules \<open>rules that follow the shape of a handler\<close>

section \<open>Handlers with recorded calls\<close>

text \<open>
  \<open>store\<close> is whatever the API server, the caches and the clock are; \<open>calls\<close> is the list of the
  calls made so far, oldest first, each with its response.
\<close>

record ('s, 'e) world =
  store :: 's
  calls :: "'e list"

type_synonym ('s, 'e, 'a) io = "(('s, 'e) world, 'a) state"

abbreviation ret :: "'a \<Rightarrow> ('s, 'e, 'a) io" where
  "ret x \<equiv> State_Monad.return x"

definition call :: "('a \<Rightarrow> 'e) \<Rightarrow> ('s \<Rightarrow> 'a \<times> 's) \<Rightarrow> ('s, 'e, 'a) io" where
  "call ev f = State (\<lambda>w. case f (store w) of
     (x, s) \<Rightarrow> (x, w\<lparr>store := s, calls := calls w @ [ev x]\<rparr>))"

lemma run_state_call [simp]:
  "run_state (call ev f) w =
     (case f (store w) of (x, s) \<Rightarrow> (x, w\<lparr>store := s, calls := calls w @ [ev x]\<rparr>))"
  by (simp add: call_def)

text \<open>\<open>spec m \<Phi>\<close>: from every world, \<open>m\<close> returns some \<open>x\<close> having made exactly the calls \<open>es\<close>, and
  \<open>\<Phi> x es\<close> holds.\<close>

definition spec :: "('s, 'e, 'a) io \<Rightarrow> ('a \<Rightarrow> 'e list \<Rightarrow> bool) \<Rightarrow> bool" where
  "spec m \<Phi> \<longleftrightarrow> (\<forall>w x w'. run_state m w = (x, w') \<longrightarrow>
     (\<exists>es. calls w' = calls w @ es \<and> \<Phi> x es))"

lemma specD:
  assumes "spec m \<Phi>" and "run_state m w = (x, w')"
  shows "\<exists>es. calls w' = calls w @ es \<and> \<Phi> x es"
  using assms unfolding spec_def by blast

lemma spec_ret: "\<Phi> x [] \<Longrightarrow> spec (ret x) \<Phi>"
  by (simp add: spec_def)

text \<open>The responses a call can get, in any state of the store.\<close>

definition answers :: "('s \<Rightarrow> 'a \<times> 's) \<Rightarrow> 'a \<Rightarrow> bool" where
  "answers f x \<longleftrightarrow> (\<exists>s. fst (f s) = x)"

lemma spec_call: "(\<And>x. answers f x \<Longrightarrow> \<Phi> x [ev x]) \<Longrightarrow> spec (call ev f) \<Phi>"
  by (auto simp: spec_def answers_def split: prod.splits) (metis fst_conv)

lemma spec_mono: "spec m \<Phi> \<Longrightarrow> (\<And>x es. \<Phi> x es \<Longrightarrow> \<Psi> x es) \<Longrightarrow> spec m \<Psi>"
  unfolding spec_def by metis

lemma spec_bind:
  assumes m: "spec m \<Phi>" and f: "\<And>x es. \<Phi> x es \<Longrightarrow> spec (f x) (\<lambda>y es'. \<Psi> y (es @ es'))"
  shows "spec (State_Monad.bind m f) \<Psi>"
  unfolding spec_def
proof (intro allI impI)
  fix w y w2
  assume run: "run_state (State_Monad.bind m f) w = (y, w2)"
  obtain x w1 where 1: "run_state m w = (x, w1)" by fastforce
  with run have 2: "run_state (f x) w1 = (y, w2)" by simp
  from specD [OF m 1] obtain es where es: "calls w1 = calls w @ es" "\<Phi> x es" by blast
  from specD [OF f [OF es(2)] 2] obtain es' where "calls w2 = calls w1 @ es'" "\<Psi> y (es @ es')"
    by blast
  with es show "\<exists>es. calls w2 = calls w @ es \<and> \<Psi> y es" by auto
qed

lemma spec_bind_call:
  "(\<And>x. answers g x \<Longrightarrow> spec (f x) (\<lambda>y es'. \<Psi> y (ev x # es')))
    \<Longrightarrow> spec (State_Monad.bind (call ev g) f) \<Psi>"
  by (rule spec_bind [where \<Phi> = "\<lambda>x es. es = [ev x] \<and> answers g x"]) (auto intro: spec_call)

lemma spec_conj: "spec m \<Phi> \<Longrightarrow> spec m \<Psi> \<Longrightarrow> spec m (\<lambda>x es. \<Phi> x es \<and> \<Psi> x es)"
  unfolding spec_def by (metis same_append_eq)

text \<open>\<open>emits E m R\<close>: every call \<open>m\<close> makes satisfies \<open>E\<close> and its result satisfies \<open>R\<close>.\<close>

definition emits :: "('e \<Rightarrow> bool) \<Rightarrow> ('s, 'e, 'a) io \<Rightarrow> ('a \<Rightarrow> bool) \<Rightarrow> bool" where
  "emits E m R \<longleftrightarrow> spec m (\<lambda>x es. list_all E es \<and> R x)"

lemma emitsD:
  assumes "emits E m R" and "run_state m w = (x, w')"
  shows "\<exists>es. calls w' = calls w @ es \<and> list_all E es \<and> R x"
  using assms unfolding emits_def by (rule specD)

text \<open>The form the properties use: a run from a store, with no calls recorded.\<close>

definition resultOf :: "('s, 'e, 'a) io \<Rightarrow> 's \<Rightarrow> 'a" where
  "resultOf m s = fst (run_state m \<lparr>store = s, calls = []\<rparr>)"

definition storeOf :: "('s, 'e, 'a) io \<Rightarrow> 's \<Rightarrow> 's" where
  "storeOf m s = store (snd (run_state m \<lparr>store = s, calls = []\<rparr>))"

definition callsOf :: "('s, 'e, 'a) io \<Rightarrow> 's \<Rightarrow> 'e list" where
  "callsOf m s = calls (snd (run_state m \<lparr>store = s, calls = []\<rparr>))"

lemma spec_run: "spec m \<Phi> \<Longrightarrow> \<Phi> (resultOf m s) (callsOf m s)"
  using specD [of m \<Phi> "\<lparr>store = s, calls = []\<rparr>"]
  unfolding resultOf_def callsOf_def by (metis append_Nil prod.collapse select_convs(2))

lemma spec_bind_first:
  assumes "spec (f (fst (g s))) \<Phi>"
  shows "\<exists>es. callsOf (State_Monad.bind (call ev g) f) s = ev (fst (g s)) # es
    \<and> \<Phi> (resultOf (State_Monad.bind (call ev g) f) s) es"
proof -
  obtain x s1 where g: "g s = (x, s1)" by fastforce
  obtain y w where run: "run_state (f x) \<lparr>store = s1, calls = [ev x]\<rparr> = (y, w)" by fastforce
  from specD [OF assms, unfolded g, simplified, OF run] obtain es where "calls w = ev x # es" "\<Phi> y es" by auto
  with g run show ?thesis by (auto simp: callsOf_def resultOf_def call_def)
qed

lemma emits_run: "emits E m R \<Longrightarrow> list_all E (callsOf m s) \<and> R (resultOf m s)"
  unfolding emits_def by (rule spec_run)

lemma emits_ret [emits_rules]: "R x \<Longrightarrow> emits E (ret x) R"
  by (simp add: emits_def spec_ret)

lemma emits_mono: "emits E m R \<Longrightarrow> (\<And>e. E e \<Longrightarrow> E' e) \<Longrightarrow> (\<And>x. R x \<Longrightarrow> R' x) \<Longrightarrow> emits E' m R'"
  unfolding emits_def by (erule spec_mono) (auto simp: list_all_iff)

lemma emits_weaken: "emits E m R \<Longrightarrow> (\<And>x. R x \<Longrightarrow> R' x) \<Longrightarrow> emits E m R'"
  by (erule emits_mono) auto

lemma emits_bind:
  assumes "emits E m R" and "\<And>x. R x \<Longrightarrow> emits E (f x) R'"
  shows "emits E (State_Monad.bind m f) R'"
  using assms unfolding emits_def
  by (intro spec_bind [where \<Phi> = "\<lambda>x es. list_all E es \<and> R x"]) (auto intro: spec_mono)

lemma emits_call: "(\<And>x. answers f x \<Longrightarrow> E (ev x) \<and> R x) \<Longrightarrow> emits E (call ev f) R"
  by (auto simp: emits_def intro: spec_call)

lemma emits_bind_call [emits_rules]:
  "(\<And>x. answers g x \<Longrightarrow> E (ev x)) \<Longrightarrow> (\<And>x. answers g x \<Longrightarrow> emits E (f x) R)
    \<Longrightarrow> emits E (State_Monad.bind (call ev g) f) R"
  by (rule emits_bind [where R = "answers g"]) (auto intro: emits_call)

lemma emits_if [emits_rules]:
  "(b \<Longrightarrow> emits E m R) \<Longrightarrow> (\<not> b \<Longrightarrow> emits E n R) \<Longrightarrow> emits E (if b then m else n) R"
  by simp

lemma emits_case_sum [emits_rules]:
  "(\<And>a. x = Inl a \<Longrightarrow> emits E (f a) R) \<Longrightarrow> (\<And>b. x = Inr b \<Longrightarrow> emits E (g b) R)
    \<Longrightarrow> emits E (case x of Inl a \<Rightarrow> f a | Inr b \<Rightarrow> g b) R"
  by (cases x) auto

lemma emits_case_option [emits_rules]:
  "(x = None \<Longrightarrow> emits E f R) \<Longrightarrow> (\<And>b. x = Some b \<Longrightarrow> emits E (g b) R)
    \<Longrightarrow> emits E (case x of None \<Rightarrow> f | Some b \<Rightarrow> g b) R"
  by (cases x) auto

lemma emits_case_prod [emits_rules]:
  "(\<And>a b. x = (a, b) \<Longrightarrow> emits E (f a b) R) \<Longrightarrow> emits E (case x of (a, b) \<Rightarrow> f a b) R"
  by (cases x) auto

lemma emits_let [emits_rules]: "emits E (f x) R \<Longrightarrow> emits E (let y = x in f y) R"
  by simp

lemma emits_conj: "emits E m R \<Longrightarrow> emits E m R' \<Longrightarrow> emits E m (\<lambda>x. R x \<and> R' x)"
  unfolding emits_def by (drule (1) spec_conj) (erule spec_mono, simp)

text \<open>
  \<open>follows E h m R\<close>: run after the calls \<open>h\<close>, every call of \<open>m\<close> is allowed by \<open>E\<close> given the calls
  before it, and the result satisfies \<open>R\<close> given all calls so far. So \<open>E\<close> is a protocol: what has to
  have been called, and answered how, before a call may be made.
\<close>

fun allowed :: "('e list \<Rightarrow> 'e \<Rightarrow> bool) \<Rightarrow> 'e list \<Rightarrow> 'e list \<Rightarrow> bool" where
  "allowed E h [] = True"
| "allowed E h (e # es) = (E h e \<and> allowed E (h @ [e]) es)"

lemma allowed_append: "allowed E h (es @ es') \<longleftrightarrow> allowed E h es \<and> allowed E (h @ es) es'"
  by (induction es arbitrary: h) auto

lemma allowed_split: "allowed E h (a @ e # b) \<Longrightarrow> E (h @ a) e"
  by (simp add: allowed_append)

lemma allowed_mono:
  "allowed E h es \<Longrightarrow> (\<And>h e. E h e \<Longrightarrow> E' h e) \<Longrightarrow> allowed E' h es"
  by (induction es arbitrary: h) auto

lemma allowed_all: "list_all (\<lambda>e. \<forall>h. E h e) es \<Longrightarrow> allowed E h es"
  by (induction es arbitrary: h) auto

definition follows ::
  "('e list \<Rightarrow> 'e \<Rightarrow> bool) \<Rightarrow> 'e list \<Rightarrow> ('s, 'e, 'a) io \<Rightarrow> ('a \<Rightarrow> 'e list \<Rightarrow> bool) \<Rightarrow> bool"
where
  "follows E h m R \<longleftrightarrow> spec m (\<lambda>x es. allowed E h es \<and> R x (h @ es))"

lemma follows_run:
  "follows E [] m R \<Longrightarrow> allowed E [] (callsOf m s) \<and> R (resultOf m s) (callsOf m s)"
  unfolding follows_def by (drule spec_run) simp

lemma follows_run_first:
  assumes "follows E [ev (fst (g s))] (f (fst (g s))) R"
  shows "R (resultOf (State_Monad.bind (call ev g) f) s) (callsOf (State_Monad.bind (call ev g) f) s)"
  using spec_bind_first [where ev = ev and g = g and s = s and f = f, OF assms [unfolded follows_def]] by auto

lemma follows_ret [emits_rules]: "R x h \<Longrightarrow> follows E h (ret x) R"
  by (simp add: follows_def spec_ret)

lemma follows_mono:
  "follows E h m R \<Longrightarrow> (\<And>h e. E h e \<Longrightarrow> E' h e) \<Longrightarrow>
    (\<And>x es. R x (h @ es) \<Longrightarrow> R' x (h @ es)) \<Longrightarrow> follows E' h m R'"
  unfolding follows_def by (erule spec_mono) (auto intro: allowed_mono)

text \<open>Only calls after \<open>h\<close> matter, so what is known of \<open>h\<close> may be used.\<close>

lemma allowed_mono_from:
  "allowed E h es \<Longrightarrow> (\<And>es e. E (h @ es) e \<Longrightarrow> E' (h @ es) e) \<Longrightarrow> allowed E' h es"
proof (induction es arbitrary: h)
  case (Cons e es)
  have "E' h e" using Cons.prems(1) Cons.prems(2) [of "[]" e] by simp
  moreover have "allowed E' (h @ [e]) es"
    using Cons.prems by (intro Cons.IH) auto
  ultimately show ?case by simp
qed simp

lemma follows_mono_from:
  "follows E h m R \<Longrightarrow> (\<And>es e. E (h @ es) e \<Longrightarrow> E' (h @ es) e) \<Longrightarrow> follows E' h m R"
  unfolding follows_def by (erule spec_mono) (auto intro: allowed_mono_from)

lemma follows_bind:
  assumes "follows E h m R" and "\<And>x es. R x (h @ es) \<Longrightarrow> follows E (h @ es) (f x) R'"
  shows "follows E h (State_Monad.bind m f) R'"
  using assms unfolding follows_def
  by (intro spec_bind [where \<Phi> = "\<lambda>x es. allowed E h es \<and> R x (h @ es)"])
    (auto simp: allowed_append intro: spec_mono)

lemma follows_bind_call [emits_rules]:
  "(\<And>x. answers g x \<Longrightarrow> E h (ev x)) \<Longrightarrow> (\<And>x. answers g x \<Longrightarrow> follows E (h @ [ev x]) (f x) R)
    \<Longrightarrow> follows E h (State_Monad.bind (call ev g) f) R"
  unfolding follows_def by (rule spec_bind_call) (auto intro: spec_mono)

text \<open>A part that makes no call \<open>E\<close> is about.\<close>

lemma emits_follows:
  "emits Q m R \<Longrightarrow> (\<And>h e. Q e \<Longrightarrow> E h e) \<Longrightarrow> follows E h m (\<lambda>x _. R x)"
  unfolding follows_def emits_def
  by (erule spec_mono) (auto intro: allowed_all simp: list_all_iff)

text \<open>The same, keeping what is known of the calls before.\<close>

lemma emits_follows_keep:
  "emits Q m R \<Longrightarrow> (\<And>h e. Q e \<Longrightarrow> E h e) \<Longrightarrow>
    follows E h m (\<lambda>x h'. R x \<and> (\<exists>es. h' = h @ es \<and> list_all Q es))"
  unfolding follows_def emits_def
  by (erule spec_mono) (auto intro: allowed_all simp: list_all_iff)

lemma follows_if [emits_rules]:
  "(b \<Longrightarrow> follows E h m R) \<Longrightarrow> (\<not> b \<Longrightarrow> follows E h n R) \<Longrightarrow> follows E h (if b then m else n) R"
  by simp

lemma follows_case_sum [emits_rules]:
  "(\<And>a. x = Inl a \<Longrightarrow> follows E h (f a) R) \<Longrightarrow> (\<And>b. x = Inr b \<Longrightarrow> follows E h (g b) R)
    \<Longrightarrow> follows E h (case x of Inl a \<Rightarrow> f a | Inr b \<Rightarrow> g b) R"
  by (cases x) auto

lemma follows_case_option [emits_rules]:
  "(x = None \<Longrightarrow> follows E h f R) \<Longrightarrow> (\<And>b. x = Some b \<Longrightarrow> follows E h (g b) R)
    \<Longrightarrow> follows E h (case x of None \<Rightarrow> f | Some b \<Rightarrow> g b) R"
  by (cases x) auto

lemma follows_case_prod [emits_rules]:
  "(\<And>a b. x = (a, b) \<Longrightarrow> follows E h (f a b) R) \<Longrightarrow> follows E h (case x of (a, b) \<Rightarrow> f a b) R"
  by (cases x) auto

lemma follows_let [emits_rules]: "follows E h (f x) R \<Longrightarrow> follows E h (let y = x in f y) R"
  by simp

section \<open>Go values\<close>

subsection \<open>time\<close>

text \<open>
  \<^verbatim>\<open>time.Time\<close> is an instant, in nanoseconds since the Unix epoch; the zero \<^verbatim>\<open>Time\<close> is
  January 1, year 1, 00:00 UTC. A \<^verbatim>\<open>time.Duration\<close> is a signed 64-bit number of nanoseconds:
  \<open>Sub\<close> saturates as \<^verbatim>\<open>Time.Sub\<close> does, and \<open>wrap64\<close> is the wrap-around of additions of
  durations.
\<close>

type_synonym time = int
type_synonym duration = int

definition zeroTime :: time where
  "zeroTime = - 62135596800 * 1000000000"

definition second :: duration where "second = 1000000000"
definition minute :: duration where "minute = 60 * second"

definition maxDuration :: duration where "maxDuration = 2 ^ 63 - 1"
definition minDuration :: duration where "minDuration = - (2 ^ 63)"

definition wrap64 :: "int \<Rightarrow> int" where
  "wrap64 x = (x + 2 ^ 63) mod 2 ^ 64 - 2 ^ 63"

definition timeSub :: "time \<Rightarrow> time \<Rightarrow> duration" where
  "timeSub t u = max minDuration (min maxDuration (t - u))"

definition isZeroPtr :: "time option \<Rightarrow> bool" where
  "isZeroPtr t = (case t of None \<Rightarrow> True | Some u \<Rightarrow> u = zeroTime)"

definition int64 :: "int \<Rightarrow> bool" where
  "int64 x \<longleftrightarrow> minDuration \<le> x \<and> x \<le> maxDuration"

lemma wrap64_id: "int64 x \<Longrightarrow> wrap64 x = x"
  by (simp add: int64_def wrap64_def minDuration_def maxDuration_def)

lemma int64_wrap64: "int64 (wrap64 x)"
proof -
  have "0 \<le> (x + 2 ^ 63) mod 2 ^ 64" "(x + 2 ^ 63) mod 2 ^ 64 < 2 ^ 64" by simp_all
  then show ?thesis by (simp add: int64_def wrap64_def minDuration_def maxDuration_def)
qed

lemma int64_timeSub: "int64 (timeSub t u)"
  by (simp add: int64_def timeSub_def minDuration_def maxDuration_def)

lemma timeSub_pos_iff: "0 < timeSub t u \<longleftrightarrow> u < t"
  by (auto simp: timeSub_def minDuration_def maxDuration_def)

lemma timeSub_nonneg_iff: "0 \<le> timeSub t u \<longleftrightarrow> u \<le> t"
  by (auto simp: timeSub_def minDuration_def maxDuration_def)

lemma timeSub_less_iff: "int64 d \<Longrightarrow> timeSub t u < d \<longleftrightarrow> t - u < d \<and> minDuration < d"
  by (auto simp: timeSub_def int64_def minDuration_def maxDuration_def)

lemma timeSub_ge_iff: "int64 d \<Longrightarrow> d \<le> timeSub t u \<longleftrightarrow> d \<le> t - u \<or> d = minDuration"
  by (auto simp: timeSub_def int64_def minDuration_def maxDuration_def)

lemma timeSub_gt_iff: "int64 d \<Longrightarrow> d < timeSub t u \<longleftrightarrow> d < t - u \<and> d < maxDuration"
  by (auto simp: timeSub_def int64_def minDuration_def maxDuration_def)

subsection \<open>strings\<close>

text \<open>\<^verbatim>\<open>strings.Compare\<close>: bytewise lexicographic.\<close>

definition strCompare :: "string \<Rightarrow> string \<Rightarrow> int" where
  "strCompare a b = (if a = b then 0 else if a < b then -1 else 1)"

lemma strCompare_le_0: "strCompare a b \<le> 0 \<longleftrightarrow> a \<le> b"
  by (auto simp: strCompare_def)

text \<open>\<^verbatim>\<open>strings.Split\<close> on a one-byte separator: always at least one part.\<close>

fun splitOn :: "char \<Rightarrow> string \<Rightarrow> string list" where
  "splitOn c [] = [[]]"
| "splitOn c (x # xs) =
     (if x = c then [] # splitOn c xs
      else case splitOn c xs of [] \<Rightarrow> [[x]] | p # ps \<Rightarrow> (x # p) # ps)"

text \<open>\<^verbatim>\<open>strings.Join\<close>.\<close>

fun joinWith :: "string \<Rightarrow> string list \<Rightarrow> string" where
  "joinWith sep [] = []"
| "joinWith sep [x] = x"
| "joinWith sep (x # y # ys) = x @ sep @ joinWith sep (y # ys)"

definition hasPrefix :: "string \<Rightarrow> string \<Rightarrow> bool" where
  "hasPrefix s p \<longleftrightarrow> take (length p) s = p"

lemma splitOn_not_Nil [simp]: "splitOn c xs \<noteq> []"
  by (induction xs) (auto split: list.splits)

lemma splitOn_no_sep: "c \<notin> set xs \<Longrightarrow> splitOn c xs = [xs]"
  by (induction xs) auto

lemma splitOn_append: "c \<notin> set xs \<Longrightarrow> splitOn c (xs @ c # ys) = xs # splitOn c ys"
  by (induction xs) auto

lemma joinWith_splitOn: "joinWith [c] (splitOn c xs) = xs"
proof (induction xs)
  case (Cons x xs)
  obtain p ps where "splitOn c xs = p # ps" by (cases "splitOn c xs") auto
  with Cons show ?case by (cases ps) auto
qed simp

section \<open>Lists\<close>

text \<open>
  A comparison function as \<^verbatim>\<open>slices.SortFunc\<close> takes it: negative, zero or positive. The sort is
  not stable and, when the comparison is a weak order, returns some ordered permutation of its
  argument; so a sorting function is a parameter of the model and \<open>sort_func\<close> is its contract.
\<close>

definition weak_order :: "('a \<Rightarrow> 'a \<Rightarrow> int) \<Rightarrow> bool" where
  "weak_order cmp \<longleftrightarrow> (\<forall>a b. cmp a b < 0 \<longleftrightarrow> cmp b a > 0)
     \<and> (\<forall>a b c. cmp a b \<le> 0 \<longrightarrow> cmp b c \<le> 0 \<longrightarrow> cmp a c \<le> 0)"

locale sort_func =
  fixes S :: "('a \<Rightarrow> 'a \<Rightarrow> int) \<Rightarrow> 'a list \<Rightarrow> 'a list"
  assumes mset_sort: "mset (S cmp xs) = mset xs"
    and sorted_sort: "weak_order cmp \<Longrightarrow> sorted_wrt (\<lambda>a b. cmp a b \<le> 0) (S cmp xs)"
begin

lemma set_sort [simp]: "set (S cmp xs) = set xs"
  using mset_sort by (metis mset_eq_setD)

lemma length_sort [simp]: "length (S cmp xs) = length xs"
  using mset_sort by (metis mset_eq_length)

lemma sort_Nil_iff [simp]: "S cmp xs = [] \<longleftrightarrow> xs = []"
  using length_sort [of cmp xs] by (metis length_0_conv)

lemma distinct_sort: "distinct xs \<Longrightarrow> distinct (S cmp xs)"
  using mset_sort by (metis mset_eq_imp_distinct_iff)

lemma sort_first:
  assumes "weak_order cmp" "S cmp xs = y # ys" "x \<in> set xs"
  shows "y \<in> set xs \<and> cmp y x \<le> 0"
proof -
  have y: "y \<in> set xs" using set_sort [of cmp xs] assms(2) by (metis list.set_intros(1))
  have "x = y \<or> x \<in> set ys" using assms(2,3) set_sort [of cmp xs] by auto
  moreover have "cmp y y \<le> 0" using assms(1) unfolding weak_order_def by (metis not_less order.asym)
  ultimately show ?thesis using sorted_sort [OF assms(1), of xs] assms(2) y by auto
qed

text \<open>The first \<open>n\<close> elements come before all others.\<close>

lemma sort_take_drop:
  assumes "weak_order cmp" "x \<in> set (take n (S cmp xs))" "y \<in> set (drop n (S cmp xs))"
  shows "cmp x y \<le> 0"
proof -
  have "sorted_wrt (\<lambda>a b. cmp a b \<le> 0) (take n (S cmp xs) @ drop n (S cmp xs))"
    using sorted_sort [OF assms(1)] by simp
  then show ?thesis using assms(2,3) unfolding sorted_wrt_append by blast
qed

end

text \<open>Insertion sort keeps the contract.\<close>

fun insertBy :: "('a \<Rightarrow> 'a \<Rightarrow> int) \<Rightarrow> 'a \<Rightarrow> 'a list \<Rightarrow> 'a list" where
  "insertBy cmp x [] = [x]"
| "insertBy cmp x (y # ys) = (if cmp x y \<le> 0 then x # y # ys else y # insertBy cmp x ys)"

fun sortBy :: "('a \<Rightarrow> 'a \<Rightarrow> int) \<Rightarrow> 'a list \<Rightarrow> 'a list" where
  "sortBy cmp [] = []"
| "sortBy cmp (x # xs) = insertBy cmp x (sortBy cmp xs)"

lemma mset_insertBy: "mset (insertBy cmp x xs) = add_mset x (mset xs)"
  by (induction xs) auto

lemma set_insertBy: "set (insertBy cmp x xs) = insert x (set xs)"
  by (induction xs) auto

lemma sorted_insertBy:
  assumes "weak_order cmp"
  shows "sorted_wrt (\<lambda>a b. cmp a b \<le> 0) xs \<Longrightarrow> sorted_wrt (\<lambda>a b. cmp a b \<le> 0) (insertBy cmp x xs)"
proof (induction xs)
  case (Cons y ys)
  have tr: "\<And>a b c. cmp a b \<le> 0 \<Longrightarrow> cmp b c \<le> 0 \<Longrightarrow> cmp a c \<le> 0"
    and total: "\<And>a b. \<not> cmp a b \<le> 0 \<Longrightarrow> cmp b a \<le> 0"
    using assms unfolding weak_order_def by (blast, meson less_imp_le not_le)
  show ?case using Cons by (auto simp: set_insertBy dest: total intro: tr)
qed simp

interpretation sortBy: sort_func sortBy
proof
  show "mset (sortBy cmp xs) = mset xs" for cmp and xs :: "'a list"
    by (induction xs) (simp_all add: mset_insertBy)
  show "sorted_wrt (\<lambda>a b. cmp a b \<le> 0) (sortBy cmp xs)"
    if "weak_order cmp" for cmp and xs :: "'a list"
    by (induction xs) (auto intro: sorted_insertBy [OF that])
qed

lemma weak_order_key:
  fixes key :: "'a \<Rightarrow> 'b::linorder"
  assumes "\<And>a b. cmp a b < 0 \<longleftrightarrow> key a < key b" and "\<And>a b. cmp a b = 0 \<longleftrightarrow> key a = key b"
  shows "weak_order cmp"
proof -
  have "cmp a b > 0 \<longleftrightarrow> key b < key a" for a b
    using assms [of a b] by (metis linorder_neqE linorder_less_linear not_less_iff_gr_or_eq)
  moreover have "cmp a b \<le> 0 \<longleftrightarrow> key a \<le> key b" for a b
    using assms [of a b] by (metis le_less)
  ultimately show ?thesis using assms unfolding weak_order_def by auto
qed

lemma find_Some_iff_first:
  "find P xs = Some x \<longleftrightarrow> (\<exists>ys zs. xs = ys @ x # zs \<and> P x \<and> (\<forall>y \<in> set ys. \<not> P y))"
proof (induction xs)
  case (Cons a xs)
  show ?case
  proof (cases "P a")
    case True
    then show ?thesis by (auto simp: Cons_eq_append_conv)
  next
    case False
    then show ?thesis using Cons by (auto simp: Cons_eq_append_conv) (metis set_ConsD)
  qed
qed simp

end
