(* ===== verification/Kube.thy ===== *)
theory Kube
  imports Prelude
begin

text \<open>
  The Kubernetes and OpenShift objects the controller reads and writes, with the fields it reads or
  writes, and the errors and results of its handlers.
\<close>

section \<open>Objects\<close>

text \<open>An embedded \<^verbatim>\<open>metav1.ObjectMeta\<close> is record extension, so \<open>Name job\<close> reads as \<^verbatim>\<open>job.Name\<close>;
  the two fields of \<^verbatim>\<open>metav1.TypeMeta\<close> come first.\<close>

record OwnerReference =
  or_APIVersion :: string
  or_Kind :: string
  or_Name :: string
  or_UID :: string
  or_Controller :: "bool option"

record ObjectMeta =
  Kind :: string
  APIVersion :: string
  Name :: string
  Namespace :: string
  UID :: string
  ResourceVersion :: string
  Labels :: "string \<rightharpoonup> string"
  Annotations :: "string \<rightharpoonup> string"
  CreationTimestamp :: time
  DeletionTimestamp :: "time option"
  DeletionGracePeriodSeconds :: "int option"
  Finalizers :: "string list"
  OwnerReferences :: "OwnerReference list"

text \<open>A read of a missing annotation gives the empty string.\<close>

definition annotation :: "'z ObjectMeta_scheme \<Rightarrow> string \<Rightarrow> string" where
  "annotation m k = (case Annotations m k of None \<Rightarrow> '''' | Some v \<Rightarrow> v)"

record NamespacedName =
  nn_Namespace :: string
  nn_Name :: string

datatype ConditionStatus = ConditionTrue | ConditionFalse | ConditionUnknown

record Condition =
  Type :: string
  Status :: ConditionStatus
  LastTransitionTime :: time
  Reason :: string
  Message :: string

text \<open>\<^verbatim>\<open>metav1.LabelSelector\<close>, and a parsed \<^verbatim>\<open>labels.Selector\<close> as the record of its methods.\<close>

datatype LabelSelectorOperator = OpIn | OpNotIn | OpExists | OpDoesNotExist

record LabelSelectorRequirement =
  lr_Key :: string
  lr_Operator :: LabelSelectorOperator
  lr_Values :: "string list"

record LabelSelector =
  ls_MatchLabels :: "(string \<times> string) list"
  ls_MatchExpressions :: "LabelSelectorRequirement list"

record Selector =
  Matches :: "(string \<rightharpoonup> string) \<Rightarrow> bool"
  Empty :: bool

text \<open>\<^verbatim>\<open>config.openshift.io/v1\<close>.\<close>

record Update =
  upd_Architecture :: string
  upd_Version :: string
  upd_Image :: string
  upd_Force :: bool

record Release =
  rel_Version :: string
  rel_Image :: string
  rel_URL :: string
  rel_Channels :: "string list"

datatype UpdateState = CompletedUpdate | PartialUpdate

record UpdateHistory =
  uh_State :: UpdateState
  uh_Version :: string
  uh_Image :: string

record ClusterVersionCapabilitiesSpec =
  BaselineCapabilitySet :: string
  AdditionalEnabledCapabilities :: "string list option"

record ComponentOverride =
  co_Kind :: string
  co_Group :: string
  co_Namespace :: string
  co_Name :: string
  co_Unmanaged :: bool

text \<open>A slice is an option of a list where the code compares with \<^verbatim>\<open>reflect.DeepEqual\<close>, which
  tells a nil slice from an empty one.\<close>

record ClusterVersionSpec =
  ClusterID :: string
  DesiredUpdate :: "Update option"
  Upstream :: string
  Channel :: string
  Capabilities :: "ClusterVersionCapabilitiesSpec option"
  SignatureStores :: "string list option"
  Overrides :: "ComponentOverride list option"

record ClusterOperatorStatusCondition =
  cc_Type :: string
  cc_Status :: ConditionStatus

record ClusterVersion = ObjectMeta +
  cv_Spec :: ClusterVersionSpec
  cv_History :: "UpdateHistory list"
  cv_AvailableUpdates :: "Release list"
  cv_Conditions :: "ClusterOperatorStatusCondition list"

text \<open>\<^verbatim>\<open>machineconfiguration.openshift.io/v1\<close>.\<close>

record MachineConfigPool = ObjectMeta +
  Paused :: bool
  MachineCount :: int
  UpdatedMachineCount :: int

text \<open>\<^verbatim>\<open>batch/v1\<close>: of a pod template only the environment of the containers is written.\<close>

record EnvVar =
  env_Name :: string
  env_Value :: string

record Container =
  ct_Name :: string
  Env :: "EnvVar list"

record JobSpec =
  InitContainers :: "Container list"
  Containers :: "Container list"

datatype JobConditionType = JobComplete | JobFailed | JobSuspended | JobOther string

record JobCondition =
  jc_Type :: JobConditionType
  jc_Status :: ConditionStatus
  jc_Reason :: string
  jc_Message :: string

record JobTemplateSpec = ObjectMeta +
  jt_Spec :: JobSpec

record Job = ObjectMeta +
  job_Spec :: JobSpec
  job_Conditions :: "JobCondition list"

text \<open>\<^verbatim>\<open>core/v1\<close>: of nodes and namespaces only the metadata is read. A pod also has the parts only a JQ query
  looks at.\<close>

type_synonym Node = ObjectMeta

section \<open>JSON and Go maps\<close>

text \<open>A Go map with string keys is the list of its entries in the order a \<^verbatim>\<open>range\<close> visits them, which
  Go leaves open: a statement about every such list is a statement about every order. JSON values
  are those \<^verbatim>\<open>json.Unmarshal\<close> produces; a number keeps its text.\<close>

datatype json =
    JNull
  | JBool bool
  | JNum string
  | JStr string
  | JArr "json list"
  | JObj "(string \<times> json) list"

fun mapUpdate :: "'k \<Rightarrow> 'v \<Rightarrow> ('k \<times> 'v) list \<Rightarrow> ('k \<times> 'v) list" where
  "mapUpdate k v [] = [(k, v)]"
| "mapUpdate k v ((k', v') # m) = (if k = k' then (k, v) # m else (k', v') # mapUpdate k v m)"

lemma map_of_mapUpdate: "map_of (mapUpdate k v m) = (map_of m)(k \<mapsto> v)"
  by (induction m) auto

lemma keys_mapUpdate [simp]: "fst ` set (mapUpdate k v m) = insert k (fst ` set m)"
  by (induction k v m rule: mapUpdate.induct) (simp_all add: insert_commute)

lemma distinct_mapUpdate: "distinct (map fst m) \<Longrightarrow> distinct (map fst (mapUpdate k v m))"
  by (induction k v m rule: mapUpdate.induct) simp_all

record Pod = ObjectMeta +
  pod_Rest :: json

section \<open>Errors and results\<close>

text \<open>An API error carries its reason; \<open>Errorf msg e\<close> is \<^verbatim>\<open>fmt.Errorf("msg: %w", e)\<close>, \<open>ErrorString\<close>
  an error the code makes itself. \<open>MultiError\<close> is an error a library returns for several.\<close>

datatype api_reason = NotFound | AlreadyExists | Conflict | Invalid | OtherReason

datatype error =
    ApiError api_reason string
  | Errorf string error
  | ErrorString string
  | MultiError "error list"

text \<open>\<^verbatim>\<open>%q\<close> of a Kubernetes name.\<close>

definition quoted :: "string \<Rightarrow> string" where
  "quoted s = [CHR 34] @ s @ [CHR 34]"

text \<open>\<^verbatim>\<open>ctrl.Result\<close>.\<close>

record Result =
  Requeue :: bool
  RequeueAfter :: duration

definition noRequeue :: Result where
  "noRequeue = \<lparr>Requeue = False, RequeueAfter = 0\<rparr>"

text \<open>What an update returns: the object as the server stored it, or an error.\<close>

definition errOf :: "error + 'a \<Rightarrow> error option" where
  "errOf r = (case r of Inl e \<Rightarrow> Some e | Inr _ \<Rightarrow> None)"

definition okOr :: "'a \<Rightarrow> error + 'a \<Rightarrow> 'a" where
  "okOr x r = (case r of Inl _ \<Rightarrow> x | Inr y \<Rightarrow> y)"

lemma errOf_simps [simp]: "errOf (Inl e) = Some e" "errOf (Inr x) = None"
  by (simp_all add: errOf_def)

lemma okOr_simps [simp]: "okOr x (Inl e) = x" "okOr x (Inr y) = y"
  by (simp_all add: okOr_def)

lemma errOf_None_iff: "errOf r = None \<longleftrightarrow> (\<exists>x. r = Inr x)"
  by (cases r) auto

end
