(* ===== verification/Api_Types.thy ===== *)
theory Api_Types
  imports Kube
begin

text \<open>
  The API of the controller, \<^verbatim>\<open>api/v1beta1\<close>: the custom resources as records, with their accessor
  methods, and the claim protocol of upgrade job hooks (\<^verbatim>\<open>UpgradeJobHook.Claim\<close>). The lemmas show
  that a hook that runs for the next job only is claimed by at most one job.
\<close>

section \<open>upgradejob\_types.go\<close>

abbreviation UpgradeJobConditionFailed :: string where
  "UpgradeJobConditionFailed \<equiv> ''Failed''"
abbreviation UpgradeJobConditionSucceeded :: string where
  "UpgradeJobConditionSucceeded \<equiv> ''Succeeded''"
abbreviation UpgradeJobConditionStarted :: string where
  "UpgradeJobConditionStarted \<equiv> ''Started''"
abbreviation UpgradeJobConditionPreHealthCheckDone :: string where
  "UpgradeJobConditionPreHealthCheckDone \<equiv> ''PreHealthCheckDone''"
abbreviation UpgradeJobConditionUpgradeCompleted :: string where
  "UpgradeJobConditionUpgradeCompleted \<equiv> ''UpgradeCompleted''"
abbreviation UpgradeJobConditionPostHealthCheckDone :: string where
  "UpgradeJobConditionPostHealthCheckDone \<equiv> ''PostHealthCheckDone''"
abbreviation UpgradeJobConditionPaused :: string where
  "UpgradeJobConditionPaused \<equiv> ''Paused''"
abbreviation UpgradeJobConditionMachineConfigPoolsPaused :: string where
  "UpgradeJobConditionMachineConfigPoolsPaused \<equiv> ''MachineConfigPoolsPaused''"

abbreviation UpgradeJobReasonFailed :: string where
  "UpgradeJobReasonFailed \<equiv> ''Failed''"
abbreviation UpgradeJobReasonExpired :: string where
  "UpgradeJobReasonExpired \<equiv> ''Expired''"
abbreviation UpgradeJobReasonUnpausingPoolsExpired :: string where
  "UpgradeJobReasonUnpausingPoolsExpired \<equiv> ''UnpausingPoolsExpired''"
abbreviation UpgradeJobReasonTimedOut :: string where
  "UpgradeJobReasonTimedOut \<equiv> ''TimedOut''"
abbreviation UpgradeJobReasonPreHealthCheckFailed :: string where
  "UpgradeJobReasonPreHealthCheckFailed \<equiv> ''PreHealthCheckFailed''"
abbreviation UpgradeJobReasonPostHealthCheckFailed :: string where
  "UpgradeJobReasonPostHealthCheckFailed \<equiv> ''PostHealthCheckFailed''"
abbreviation UpgradeJobReasonUpgradeWithdrawn :: string where
  "UpgradeJobReasonUpgradeWithdrawn \<equiv> ''UpgradeWithdrawn''"
abbreviation UpgradeJobReasonHookFailed :: string where
  "UpgradeJobReasonHookFailed \<equiv> ''HookFailed''"
abbreviation UpgradeJobReasonHookRequestedSkip :: string where
  "UpgradeJobReasonHookRequestedSkip \<equiv> ''HookRequestedSkip''"
abbreviation UpgradeJobReasonStarted :: string where
  "UpgradeJobReasonStarted \<equiv> ''Started''"
abbreviation UpgradeJobReasonSucceeded :: string where
  "UpgradeJobReasonSucceeded \<equiv> ''Succeeded''"
abbreviation UpgradeJobReasonSkipped :: string where
  "UpgradeJobReasonSkipped \<equiv> ''Skipped''"
abbreviation UpgradeJobReasonCompleted :: string where
  "UpgradeJobReasonCompleted \<equiv> ''Completed''"
abbreviation UpgradeJobReasonInProgress :: string where
  "UpgradeJobReasonInProgress \<equiv> ''InProgress''"
abbreviation UpgradeJobReasonNoManagedPools :: string where
  "UpgradeJobReasonNoManagedPools \<equiv> ''NoManagedPools''"
abbreviation UpgradeJobReasonDelaySet :: string where
  "UpgradeJobReasonDelaySet \<equiv> ''DelaySet''"
abbreviation UpgradeJobReasonDelayReached :: string where
  "UpgradeJobReasonDelayReached \<equiv> ''DelayReached''"
abbreviation UpgradeJobReasonPausedOnFailure :: string where
  "UpgradeJobReasonPausedOnFailure \<equiv> ''PausedOnFailure''"

record UpgradeJobMachineConfigPoolDelayUpgradeSpec =
  DelayMin :: duration
  DelayMax :: duration

record UpgradeJobMachineConfigPoolSpec =
  MatchLabels :: "LabelSelector option"
  DelayUpgrade :: UpgradeJobMachineConfigPoolDelayUpgradeSpec

record UpgradeJobHealthCheck =
  hc_Timeout :: duration
  SkipDegradedOperatorsCheck :: bool

record PauseMachineConfigPoolsOnFailureSpec =
  pf_Enabled :: bool
  pf_Selector :: LabelSelector

record UpgradeJobConfig =
  UpgradeTimeout :: duration
  PreUpgradeHealthChecks :: UpgradeJobHealthCheck
  PostUpgradeHealthChecks :: UpgradeJobHealthCheck
  MachineConfigPools :: "UpgradeJobMachineConfigPoolSpec list"
  PauseMachineConfigPoolsOnFailure :: PauseMachineConfigPoolsOnFailureSpec

record UpgradeJobSpec =
  StartAfter :: time
  StartBefore :: time
  DesiredVersion :: "Update option"
  DesiredVersionCheckAvailability :: "bool option"
  Config :: UpgradeJobConfig

definition GetDesiredVersionCheckAvailability :: "UpgradeJobSpec \<Rightarrow> bool" where
  "GetDesiredVersionCheckAvailability s = (case DesiredVersionCheckAvailability s of
     None \<Rightarrow> True
   | Some b \<Rightarrow> b)"

datatype HookJobTrackerStatus =
    HookJobTrackerStatusComplete
  | HookJobTrackerStatusFailed
  | HookJobTrackerStatusActive

abbreviation HookJobTrackerReasonPodFailurePolicy :: string where
  "HookJobTrackerReasonPodFailurePolicy \<equiv> ''PodFailurePolicy''"

record HookJobTracker =
  HookEvent :: string
  TrackingKey :: string
  UpgradeJobHookName :: string
  ht_Status :: HookJobTrackerStatus
  ht_Message :: string
  ht_Reason :: string

record UpgradeJob = ObjectMeta +
  uj_Spec :: UpgradeJobSpec
  uj_Conditions :: "Condition list"
  uj_HookJobTracker :: "HookJobTracker list"

section \<open>upgradejobhook\_types.go\<close>

datatype UpgradeEvent =
    EventCreate
  | EventStart
  | EventUpgradeComplete
  | EventMachineConfigPoolUnpause
  | EventFinish
  | EventSuccess
  | EventFailure

fun eventString :: "UpgradeEvent \<Rightarrow> string" where
  "eventString EventCreate = ''Create''"
| "eventString EventStart = ''Start''"
| "eventString EventUpgradeComplete = ''UpgradeComplete''"
| "eventString EventMachineConfigPoolUnpause = ''MachineConfigPoolUnpause''"
| "eventString EventFinish = ''Finish''"
| "eventString EventSuccess = ''Success''"
| "eventString EventFailure = ''Failure''"

definition eventsInfluencingOutcome :: "UpgradeEvent list" where
  "eventsInfluencingOutcome =
     [EventCreate, EventStart, EventUpgradeComplete, EventMachineConfigPoolUnpause]"

definition eventsAllowingSkip :: "UpgradeEvent list" where
  "eventsAllowingSkip = [EventCreate, EventStart]"

definition InfluencesOutcome :: "UpgradeEvent \<Rightarrow> bool" where
  "InfluencesOutcome e \<longleftrightarrow> e \<in> set eventsInfluencingOutcome"

definition CanSkipUpdate :: "UpgradeEvent \<Rightarrow> bool" where
  "CanSkipUpdate e \<longleftrightarrow> e \<in> set eventsAllowingSkip"

abbreviation FailurePolicyAbort :: string where "FailurePolicyAbort \<equiv> ''Abort''"
abbreviation FailurePolicyIgnore :: string where "FailurePolicyIgnore \<equiv> ''Ignore''"
abbreviation RunNext :: string where "RunNext \<equiv> ''Next''"
abbreviation RunAll :: string where "RunAll \<equiv> ''All''"

record UpgradeJobHookSpec =
  Events :: "UpgradeEvent list"
  Run :: string
  FailurePolicy :: string
  Disruptive :: bool
  PodFailurePolicySkipsUpgrade :: bool
  hk_Selector :: LabelSelector
  Template :: JobTemplateSpec

definition GetRun :: "UpgradeJobHookSpec \<Rightarrow> string" where
  "GetRun s = (if Run s = '''' then RunAll else Run s)"

definition GetFailurePolicy :: "UpgradeJobHookSpec \<Rightarrow> string" where
  "GetFailurePolicy s = (if FailurePolicy s = '''' then FailurePolicyIgnore else FailurePolicy s)"

record ClaimReference =
  cr_APIVersion :: string
  cr_Kind :: string
  cr_Name :: string
  cr_UID :: string

definition emptyClaim :: ClaimReference where
  "emptyClaim = \<lparr>cr_APIVersion = '''', cr_Kind = '''', cr_Name = '''', cr_UID = ''''\<rparr>"

record UpgradeJobHook = ObjectMeta +
  hk_Spec :: UpgradeJobHookSpec
  ClaimedBy :: ClaimReference

text \<open>The claimer is any object: only its metadata is read.\<close>

definition buildClaimReference :: "'z ObjectMeta_scheme \<Rightarrow> ClaimReference" where
  "buildClaimReference claimer =
     \<lparr>cr_APIVersion = APIVersion claimer, cr_Kind = Kind claimer,
      cr_Name = Name claimer, cr_UID = UID claimer\<rparr>"

text \<open>\<open>Claim\<close> returns the hook with its new status, \<open>ok\<close> and \<open>updated\<close>.\<close>

definition Claim :: "UpgradeJobHook \<Rightarrow> 'z ObjectMeta_scheme \<Rightarrow> UpgradeJobHook \<times> bool \<times> bool" where
  "Claim u claimer =
     (if GetRun (hk_Spec u) \<noteq> RunNext then (u, True, False)
      else let ref = buildClaimReference claimer in
        if ClaimedBy u = ref then (u, True, False)
        else if ClaimedBy u = emptyClaim then (u\<lparr>ClaimedBy := ref\<rparr>, True, True)
        else (u, False, False))"

definition WouldExecute :: "UpgradeJobHook \<Rightarrow> 'z ObjectMeta_scheme \<Rightarrow> bool" where
  "WouldExecute u claimer \<longleftrightarrow>
     GetRun (hk_Spec u) \<noteq> RunNext \<or> ClaimedBy u = emptyClaim
       \<or> ClaimedBy u = buildClaimReference claimer"

section \<open>upgradeconfig\_types.go\<close>

record UpgradeConfigSchedule =
  Cron :: string
  IsoWeek :: string
  Location :: string
  Suspend :: bool

record UpgradeConfigJobTemplate =
  jtm_Labels :: "string \<rightharpoonup> string"
  jtm_Annotations :: "string \<rightharpoonup> string"
  jtm_Config :: UpgradeJobConfig

record UpgradeConfigSpec =
  ScheduleSpec :: UpgradeConfigSchedule
  PinVersionWindow :: duration
  MaxSchedulingDelay :: duration
  MaxUpgradeStartDelay :: duration
  SuccessfulJobsHistoryLimit :: "int option"
  JobTemplate :: UpgradeConfigJobTemplate

definition GetSuccessfulJobsHistoryLimit :: "UpgradeConfigSpec \<Rightarrow> int" where
  "GetSuccessfulJobsHistoryLimit s = (case SuccessfulJobsHistoryLimit s of None \<Rightarrow> 4 | Some n \<Rightarrow> n)"

record UpgradeConfig = ObjectMeta +
  uc_Spec :: UpgradeConfigSpec
  LastScheduledUpgrade :: "time option"
  NextPossibleSchedules :: "time list"

section \<open>upgradesuspensionwindow\_types.go\<close>

record UpgradeSuspensionWindowSpec =
  Start :: time
  End :: time
  usw_Reason :: string
  ConfigSelector :: "LabelSelector option"
  JobSelector :: "LabelSelector option"

record UpgradeSuspensionWindow = ObjectMeta +
  usw_Spec :: UpgradeSuspensionWindowSpec
  MatchingConfigs :: "string list"
  MatchingJobs :: "string list"

section \<open>clusterversion\_types.go\<close>

text \<open>The managed \<^verbatim>\<open>ClusterVersion\<close> of this API group; \<open>ClusterVersionSpec\<close> is the upstream spec, of
  which \<^verbatim>\<open>ConfigV1ClusterVersionSpec\<close> is a copy with the same fields.\<close>

record ClusterVersionOverlayConfig =
  ov_From :: time
  ov_Spec :: ClusterVersionSpec

record ClusterVersionStatusOverlays =
  so_From :: time
  so_Preview :: ClusterVersionSpec

record ClusterVersionStatus =
  cvs_Current :: ClusterVersionSpec
  cvs_Overlays :: "ClusterVersionStatusOverlays list option"
  cvs_OverlayApplied :: time

record ManagedClusterVersion = ObjectMeta +
  mcv_Template :: ClusterVersionSpec
  mcv_Overlays :: "ClusterVersionOverlayConfig list"
  mcv_Status :: ClusterVersionStatus

section \<open>node\_force\_drain\_types.go\<close>

record ObservedNodeDrain =
  NodeName :: string
  LastAppliedDrain :: string
  ObservedTime :: time

record NodeForceDrainSpec =
  NodeSelector :: LabelSelector
  NamespaceSelector :: LabelSelector
  PodJQSelector :: string
  NodeDrainGracePeriod :: duration
  PodForceDeleteGracePeriod :: duration

record NodeForceDrain = ObjectMeta +
  nfd_Spec :: NodeForceDrainSpec
  LastObservedNodeDrain :: "ObservedNodeDrain list"

section \<open>The claim protocol\<close>

lemma Claim_ok_iff_WouldExecute: "fst (snd (Claim u c)) \<longleftrightarrow> WouldExecute u c"
  by (auto simp: Claim_def WouldExecute_def Let_def)

lemma Claim_updated:
  "Claim u c = (u', ok, True) \<Longrightarrow>
     ok \<and> ClaimedBy u = emptyClaim \<and> u' = u\<lparr>ClaimedBy := buildClaimReference c\<rparr>"
  by (auto simp: Claim_def Let_def split: if_splits)

lemma Claim_not_updated: "Claim u c = (u', ok, False) \<Longrightarrow> u' = u"
  by (auto simp: Claim_def Let_def split: if_splits)

lemma Claim_spec: "Claim u c = (u', ok, upd) \<Longrightarrow> hk_Spec u' = hk_Spec u"
  by (auto simp: Claim_def Let_def split: if_splits)

text \<open>The contract of a claim, as the callers of \<open>Claim\<close> use it: an object is free or held by one
  reference; a successful claim of an exclusive object leaves it held by the claimer; a claim that
  fails changes nothing.\<close>

locale exclusive_claim =
  fixes claim :: "'u \<Rightarrow> 'ref \<Rightarrow> 'u \<times> bool"
    and holder :: "'u \<Rightarrow> 'ref option"
    and exclusive :: "'u \<Rightarrow> bool"
    and valid :: "'ref \<Rightarrow> bool"
  assumes claim_holds: "exclusive u \<Longrightarrow> valid r \<Longrightarrow> claim u r = (u', True) \<Longrightarrow> holder u' = Some r"
    and claim_free: "exclusive u \<Longrightarrow> claim u r = (u', True) \<Longrightarrow> holder u = None \<or> holder u = Some r"
    and claim_fails: "claim u r = (u', False) \<Longrightarrow> u' = u"
    and claim_exclusive: "claim u r = (u', ok) \<Longrightarrow> exclusive u' = exclusive u"
begin

lemma second_claim_same:
  assumes "exclusive u" "valid r" "claim u r = (u', True)" "claim u' q = (u'', True)"
  shows "q = r"
proof -
  from assms have "holder u' = Some r" by (blast intro: claim_holds)
  moreover from assms have "exclusive u'" by (simp add: claim_exclusive)
  ultimately show ?thesis using claim_free assms(4) by fastforce
qed

text \<open>However many claims follow, the first claimer keeps the object.\<close>

lemma claims_keep_holder:
  assumes "exclusive u" "valid r" "holder u = Some r" "\<forall>q \<in> set qs. valid q"
  shows "holder (foldl (\<lambda>v q. fst (claim v q)) u qs) = Some r"
  using assms
proof (induction qs arbitrary: u)
  case (Cons q qs)
  obtain v ok where c: "claim u q = (v, ok)" by fastforce
  have "holder v = Some r"
  proof (cases ok)
    case True
    with c have "claim u q = (v, True)" by simp
    with claim_free [OF Cons.prems(1) this] claim_holds [OF Cons.prems(1) _ this] Cons.prems
    show ?thesis by auto
  next
    case False
    with c Cons.prems show ?thesis by (metis claim_fails)
  qed
  moreover from c Cons.prems have "exclusive v" by (simp add: claim_exclusive)
  ultimately show ?case using c Cons by simp
qed simp

end

text \<open>The hook as a holder: the empty reference is nobody.\<close>

definition hookHolder :: "UpgradeJobHook \<Rightarrow> ClaimReference option" where
  "hookHolder u = (if ClaimedBy u = emptyClaim then None else Some (ClaimedBy u))"

definition claimerOf :: "ClaimReference \<Rightarrow> ObjectMeta" where
  "claimerOf r = \<lparr>Kind = cr_Kind r, APIVersion = cr_APIVersion r, Name = cr_Name r,
     Namespace = '''', UID = cr_UID r, ResourceVersion = '''', Labels = Map.empty,
     Annotations = Map.empty, CreationTimestamp = zeroTime, DeletionTimestamp = None,
     DeletionGracePeriodSeconds = None, Finalizers = [], OwnerReferences = []\<rparr>"

lemma buildClaimReference_claimerOf [simp]: "buildClaimReference (claimerOf r) = r"
  by (simp add: buildClaimReference_def claimerOf_def)

lemma Claim_reference:
  "buildClaimReference c = buildClaimReference d \<Longrightarrow> Claim u c = Claim u d"
  by (simp add: Claim_def)

lemma Claim_exclusive:
  "GetRun (hk_Spec u) = RunNext \<Longrightarrow> Claim u (claimerOf r) =
     (if ClaimedBy u = r then (u, True, False)
      else if ClaimedBy u = emptyClaim then (u\<lparr>ClaimedBy := r\<rparr>, True, True) else (u, False, False))"
  by (simp add: Claim_def)

interpretation hook_claim: exclusive_claim
  "\<lambda>u r. (fst (Claim u (claimerOf r)), fst (snd (Claim u (claimerOf r))))"
  hookHolder "\<lambda>u. GetRun (hk_Spec u) = RunNext" "\<lambda>r. r \<noteq> emptyClaim"
proof (unfold_locales, goal_cases)
  case (1 u r u')
  then show ?case by (auto simp: Claim_exclusive hookHolder_def split: if_splits)
next
  case (2 u r u')
  then show ?case by (auto simp: Claim_exclusive hookHolder_def split: if_splits)
next
  case (3 u r u')
  then show ?case by (auto simp: Claim_def Let_def split: if_splits)
next
  case (4 u r u' ok)
  then show ?case by (metis Claim_spec prod.inject prod.collapse)
qed

end
