(* ===== verification/Libraries.thy ===== *)
theory Libraries
  imports Api_Types
begin

text \<open>
  The functions of third-party Go packages the controller calls. Those packages are not part of the
  repository: they are the fields of the record \<open>lib\<close>, an argument of every definition that uses
  one, and the locales of this theory state what their documentation promises. \<open>refLib\<close> is an
  executable library that keeps these promises; it is the instance at which hypotheses about a
  library are shown to be satisfiable.
\<close>

section \<open>Third-party functions\<close>

text \<open>
  \<^item> \<^verbatim>\<open>apimeta.FindStatusCondition\<close>, \<^verbatim>\<open>IsStatusConditionTrue\<close>, \<^verbatim>\<open>SetStatusCondition\<close>
  \<^item> \<^verbatim>\<open>metav1.LabelSelectorAsSelector\<close>
  \<^item> \<^verbatim>\<open>multierr.Combine\<close>, with \<open>None\<close> for nil
  \<^item> \<^verbatim>\<open>apierrors.IsNotFound\<close>
  \<^item> \<^verbatim>\<open>controllerutil.RemoveFinalizer\<close> on the list of finalizers
  \<^item> \<^verbatim>\<open>metav1.GetControllerOf\<close> on the owner references
  \<^item> \<^verbatim>\<open>semver.Compare\<close>
  \<^item> \<^verbatim>\<open>sort.Slice\<close> and \<^verbatim>\<open>slices.SortFunc\<close>, one field per element type, which take the code's
    comparison function
  \<^item> \<^verbatim>\<open>sets.Set.UnsortedList\<close>: the elements of a set, given as a list without repetitions, in
    the iteration order of a Go map
  \<^item> \<^verbatim>\<open>ctrl.SetControllerReference\<close>: the owner references of the object with the owner added
  \<^item> the JSON of an \<^verbatim>\<open>UpgradeJob\<close> read back as a map, and the text of a JSON value (the encoders of
    the Kubernetes types decide it)
  \<^item> the hexadecimal SHA-256 digest of a string, and the texts of times and durations in messages
\<close>

record lib =
  FindStatusCondition :: "Condition list \<Rightarrow> string \<Rightarrow> Condition option"
  IsStatusConditionTrue :: "Condition list \<Rightarrow> string \<Rightarrow> bool"
  SetStatusCondition :: "Condition list \<Rightarrow> Condition \<Rightarrow> Condition list \<times> bool"
  LabelSelectorAsSelector :: "LabelSelector option \<Rightarrow> error + Selector"
  Combine :: "error option list \<Rightarrow> error option"
  IsNotFound :: "error \<Rightarrow> bool"
  RemoveFinalizer :: "string list \<Rightarrow> string \<Rightarrow> string list \<times> bool"
  GetControllerOf :: "OwnerReference list \<Rightarrow> OwnerReference option"
  SemverCompare :: "string \<Rightarrow> string \<Rightarrow> int"
  SortReleases :: "(Release \<Rightarrow> Release \<Rightarrow> int) \<Rightarrow> Release list \<Rightarrow> Release list"
  SortTimes :: "(time \<Rightarrow> time \<Rightarrow> int) \<Rightarrow> time list \<Rightarrow> time list"
  SortNames :: "(string \<Rightarrow> string \<Rightarrow> int) \<Rightarrow> string list \<Rightarrow> string list"
  SortEnv :: "(EnvVar \<Rightarrow> EnvVar \<Rightarrow> int) \<Rightarrow> EnvVar list \<Rightarrow> EnvVar list"
  SortTrackers :: "(HookJobTracker \<Rightarrow> HookJobTracker \<Rightarrow> int) \<Rightarrow> HookJobTracker list \<Rightarrow> HookJobTracker list"
  SortUpgradeJobs :: "(UpgradeJob \<Rightarrow> UpgradeJob \<Rightarrow> int) \<Rightarrow> UpgradeJob list \<Rightarrow> UpgradeJob list"
  SortOverlays :: "(ClusterVersionOverlayConfig \<Rightarrow> ClusterVersionOverlayConfig \<Rightarrow> int)
     \<Rightarrow> ClusterVersionOverlayConfig list \<Rightarrow> ClusterVersionOverlayConfig list"
  UnsortedTrackers :: "HookJobTracker list \<Rightarrow> HookJobTracker list"
  SetControllerReference :: "ObjectMeta \<Rightarrow> OwnerReference list \<Rightarrow> error + OwnerReference list"
  NormalizeUpgradeJob :: "UpgradeJob \<Rightarrow> error + (string \<times> json) list"
  MarshalJSON :: "json \<Rightarrow> error + string"
  Sha256Hex :: "string \<Rightarrow> string"
  FormatRFC3339 :: "time \<Rightarrow> string"
  DurationString :: "duration \<Rightarrow> string"

text \<open>\<^verbatim>\<open>client.IgnoreNotFound\<close>: nil for a not-found error.\<close>

definition IgnoreNotFound :: "('z) lib_scheme \<Rightarrow> error \<Rightarrow> error option" where
  "IgnoreNotFound L e = (if IsNotFound L e then None else Some e)"

text \<open>The documented behaviour of the status condition helpers of \<^verbatim>\<open>apimachinery\<close>: a lookup finds the
  first condition of the type; a set writes status, reason and message of its type, moves
  the transition time exactly when the status changes (a condition that did not exist is appended
  as it is) and leaves every other type alone; it reports a change exactly when something other
  than the transition time differs.\<close>

definition mergeCondition :: "Condition option \<Rightarrow> Condition \<Rightarrow> Condition" where
  "mergeCondition old c = (case old of
     None \<Rightarrow> c
   | Some o' \<Rightarrow> if Status o' = Status c then c\<lparr>LastTransitionTime := LastTransitionTime o'\<rparr> else c)"

definition conditionChanged :: "Condition option \<Rightarrow> Condition \<Rightarrow> bool" where
  "conditionChanged old c = (case old of
     None \<Rightarrow> True
   | Some o' \<Rightarrow> Status o' \<noteq> Status c \<or> Reason o' \<noteq> Reason c \<or> Message o' \<noteq> Message c)"

lemma mergeCondition_simps [simp]:
  "Type (mergeCondition old c) = Type c" "Status (mergeCondition old c) = Status c"
  "Reason (mergeCondition old c) = Reason c" "Message (mergeCondition old c) = Message c"
  by (auto simp: mergeCondition_def split: option.splits)

locale condition_laws =
  fixes L :: "'z lib_scheme"
  assumes find_first: "FindStatusCondition L cs t = find (\<lambda>c. Type c = t) cs"
    and is_true: "IsStatusConditionTrue L cs t \<longleftrightarrow>
      (\<exists>c. FindStatusCondition L cs t = Some c \<and> Status c = ConditionTrue)"
    and set_same: "LastTransitionTime c \<noteq> zeroTime \<Longrightarrow>
      FindStatusCondition L (fst (SetStatusCondition L cs c)) (Type c)
        = Some (mergeCondition (FindStatusCondition L cs (Type c)) c)"
    and set_status: "\<exists>c'. FindStatusCondition L (fst (SetStatusCondition L cs c)) (Type c) = Some c'
      \<and> Status c' = Status c \<and> Reason c' = Reason c \<and> Message c' = Message c"
    and set_other: "t \<noteq> Type c \<Longrightarrow>
      FindStatusCondition L (fst (SetStatusCondition L cs c)) t = FindStatusCondition L cs t"
    and set_changed: "snd (SetStatusCondition L cs c)
      = conditionChanged (FindStatusCondition L cs (Type c)) c"
begin

lemma find_type: "FindStatusCondition L cs t = Some c \<Longrightarrow> c \<in> set cs \<and> Type c = t"
  by (auto simp: find_first find_Some_iff_first)

lemma find_none: "FindStatusCondition L cs t = None \<longleftrightarrow> t \<notin> Type ` set cs"
  by (auto simp: find_first find_None_iff)

lemma true_set_same:
  "IsStatusConditionTrue L (fst (SetStatusCondition L cs c)) (Type c) \<longleftrightarrow> Status c = ConditionTrue"
  using set_status [of cs c] by (auto simp: is_true)

lemma true_set_other:
  "t \<noteq> Type c \<Longrightarrow> IsStatusConditionTrue L (fst (SetStatusCondition L cs c)) t
     = IsStatusConditionTrue L cs t"
  by (simp add: is_true set_other)

lemma true_set:
  "IsStatusConditionTrue L (fst (SetStatusCondition L cs c)) t \<longleftrightarrow>
     (if t = Type c then Status c = ConditionTrue else IsStatusConditionTrue L cs t)"
  by (simp add: true_set_same true_set_other)

lemma find_set_none:
  "FindStatusCondition L (fst (SetStatusCondition L cs c)) t = None
     \<longleftrightarrow> t \<noteq> Type c \<and> FindStatusCondition L cs t = None"
  using set_status [of cs c] by (cases "t = Type c") (auto simp: set_other)

text \<open>Two lists of conditions that differ in transition times only answer alike.\<close>

lemma find_upto_time:
  "map (\<lambda>c. (Type c, Status c, Reason c, Message c)) cs = map (\<lambda>c. (Type c, Status c, Reason c, Message c)) cs'
    \<Longrightarrow> map_option (\<lambda>c. (Status c, Reason c)) (FindStatusCondition L cs t)
      = map_option (\<lambda>c. (Status c, Reason c)) (FindStatusCondition L cs' t)"
  unfolding find_first
proof (induction cs arbitrary: cs')
  case (Cons c cs)
  then show ?case by (cases cs') auto
qed simp

lemma true_upto_time:
  assumes "map (\<lambda>c. (Type c, Status c, Reason c, Message c)) cs
    = map (\<lambda>c. (Type c, Status c, Reason c, Message c)) cs'"
  shows "IsStatusConditionTrue L cs t = IsStatusConditionTrue L cs' t"
  using find_upto_time [OF assms, of t] unfolding is_true
  by (cases "FindStatusCondition L cs t"; cases "FindStatusCondition L cs' t") auto

end

locale semver_laws =
  fixes L :: "'z lib_scheme"
  assumes semver_swap: "SemverCompare L b a = - SemverCompare L a b"
    and semver_trans: "SemverCompare L a b \<le> 0 \<Longrightarrow> SemverCompare L b c \<le> 0 \<Longrightarrow> SemverCompare L a c \<le> 0"

text \<open>\<^verbatim>\<open>multierr.Combine\<close> returns nil exactly when all its arguments are nil.\<close>

locale combine_laws =
  fixes L :: "'z lib_scheme"
  assumes combine_none: "Combine L es = None \<longleftrightarrow> set es \<subseteq> {None}"

text \<open>The set of trackers is turned into a list of its elements and sorted.\<close>

locale tracker_laws =
  fixes L :: "'z lib_scheme"
  assumes sort_trackers: "sort_func (SortTrackers L)"
    and unsorted: "mset (UnsortedTrackers L xs) = mset xs"
begin

lemma set_sorted_trackers: "set (SortTrackers L cmp (UnsortedTrackers L xs)) = set xs"
  using sort_func.set_sort [OF sort_trackers] mset_eq_setD [OF unsorted] by metis

end

section \<open>A library that keeps the promises\<close>

fun refSetCondition :: "Condition list \<Rightarrow> Condition \<Rightarrow> Condition list" where
  "refSetCondition [] c = [c]"
| "refSetCondition (x # xs) c =
     (if Type x = Type c then mergeCondition (Some x) c # xs else x # refSetCondition xs c)"

definition refFind :: "Condition list \<Rightarrow> string \<Rightarrow> Condition option" where
  "refFind cs t = find (\<lambda>c. Type c = t) cs"

definition refRequirement :: "LabelSelectorRequirement \<Rightarrow> (string \<rightharpoonup> string) \<Rightarrow> bool" where
  "refRequirement q ls = (case lr_Operator q of
     OpIn \<Rightarrow> (case ls (lr_Key q) of None \<Rightarrow> False | Some v \<Rightarrow> v \<in> set (lr_Values q))
   | OpNotIn \<Rightarrow> (case ls (lr_Key q) of None \<Rightarrow> True | Some v \<Rightarrow> v \<notin> set (lr_Values q))
   | OpExists \<Rightarrow> ls (lr_Key q) \<noteq> None
   | OpDoesNotExist \<Rightarrow> ls (lr_Key q) = None)"

definition refSelector :: "LabelSelector option \<Rightarrow> error + Selector" where
  "refSelector s = (case s of
     None \<Rightarrow> Inr \<lparr>Matches = (\<lambda>_. False), Empty = False\<rparr>
   | Some ps \<Rightarrow>
       if list_ex (\<lambda>q. lr_Operator q \<in> {OpIn, OpNotIn} \<and> lr_Values q = []) (ls_MatchExpressions ps)
       then Inl (ErrorString ''values must be non-empty for in, notin operators'')
       else Inr \<lparr>Matches = (\<lambda>ls. list_all (\<lambda>(k, v). ls k = Some v) (ls_MatchLabels ps)
                      \<and> list_all (\<lambda>q. refRequirement q ls) (ls_MatchExpressions ps)),
              Empty = (ls_MatchLabels ps = [] \<and> ls_MatchExpressions ps = [])\<rparr>)"

fun refCombine :: "error option list \<Rightarrow> error option" where
  "refCombine [] = None"
| "refCombine (None # es) = refCombine es"
| "refCombine (Some e # es) = (case refCombine es of
     None \<Rightarrow> Some e
   | Some e' \<Rightarrow> Some (MultiError [e, e']))"

fun refIsNotFound :: "error \<Rightarrow> bool" where
  "refIsNotFound (ApiError r _) = (r = NotFound)"
| "refIsNotFound (Errorf _ e) = refIsNotFound e"
| "refIsNotFound _ = False"

text \<open>Dotted version numbers, compared number by number.\<close>

fun refNumber :: "string \<Rightarrow> nat" where
  "refNumber s = foldl (\<lambda>n c. 10 * n + (of_char c - 48)) 0 s"

definition refVersion :: "string \<Rightarrow> nat list" where
  "refVersion a = map refNumber (splitOn (CHR ''.'') (tl a))"

definition refSemver :: "string \<Rightarrow> string \<Rightarrow> int" where
  "refSemver a b = (if refVersion a = refVersion b then 0
     else if refVersion a < refVersion b then -1 else 1)"

definition refMarshal :: "json \<Rightarrow> error + string" where
  "refMarshal v = (case v of
     JNull \<Rightarrow> Inr ''null''
   | JBool b \<Rightarrow> Inr (if b then ''true'' else ''false'')
   | JNum n \<Rightarrow> Inr n
   | JStr s \<Rightarrow> Inr ([CHR 34] @ s @ [CHR 34])
   | JArr _ \<Rightarrow> Inr ''[]''
   | JObj _ \<Rightarrow> Inr ''{}'')"

definition refLib :: lib where
  "refLib = \<lparr>
     FindStatusCondition = refFind,
     IsStatusConditionTrue = (\<lambda>cs t. case refFind cs t of
        None \<Rightarrow> False | Some c \<Rightarrow> Status c = ConditionTrue),
     SetStatusCondition = (\<lambda>cs c.
        (refSetCondition cs c, conditionChanged (refFind cs (Type c)) c)),
     LabelSelectorAsSelector = refSelector,
     Combine = refCombine,
     IsNotFound = refIsNotFound,
     RemoveFinalizer = (\<lambda>fs f. (filter (\<lambda>x. x \<noteq> f) fs, f \<in> set fs)),
     GetControllerOf = find (\<lambda>o'. or_Controller o' = Some True),
     SemverCompare = refSemver,
     SortReleases = sortBy, SortTimes = sortBy, SortNames = sortBy, SortEnv = sortBy,
     SortTrackers = sortBy, SortUpgradeJobs = sortBy, SortOverlays = sortBy,
     UnsortedTrackers = rev,
     SetControllerReference = (\<lambda>owner refs.
       if list_ex (\<lambda>o'. or_Controller o' = Some True \<and> or_UID o' \<noteq> UID owner) refs
       then Inl (ErrorString ''already owned'')
       else Inr (filter (\<lambda>o'. or_UID o' \<noteq> UID owner) refs @
         [\<lparr>or_APIVersion = APIVersion owner, or_Kind = Kind owner, or_Name = Name owner,
           or_UID = UID owner, or_Controller = Some True\<rparr>])),
     NormalizeUpgradeJob = (\<lambda>uj. Inr [(''metadata'', JObj [(''name'', JStr (Name uj)),
       (''namespace'', JStr (Namespace uj))])]),
     MarshalJSON = refMarshal,
     Sha256Hex = (\<lambda>s. replicate 64 (CHR ''0'')),
     FormatRFC3339 = (\<lambda>_. ''1970-01-01T00:00:00Z''),
     DurationString = (\<lambda>_. ''0s'')\<rparr>"

lemma refFind_set_same:
  "refFind (refSetCondition cs c) (Type c) = Some (mergeCondition (refFind cs (Type c)) c)"
  by (induction cs) (auto simp: refFind_def mergeCondition_def)

lemma refFind_set_other: "t \<noteq> Type c \<Longrightarrow> refFind (refSetCondition cs c) t = refFind cs t"
  by (induction cs) (auto simp: refFind_def)

interpretation refLib: condition_laws refLib
  by unfold_locales
    (auto simp: refLib_def refFind_set_same refFind_set_other refFind_def [symmetric]
      split: option.splits)

interpretation refLib_semver: semver_laws refLib
  by unfold_locales (auto simp: refLib_def refSemver_def split: if_splits)

lemma refCombine_None: "refCombine es = None \<longleftrightarrow> set es \<subseteq> {None}"
  by (induction es rule: refCombine.induct) (auto split: option.splits)

interpretation refLib_sortTrackers: sort_func "SortTrackers refLib"
  using sortBy.sort_func_axioms by (simp add: refLib_def)

interpretation refLib_trackers: tracker_laws refLib
  by unfold_locales (auto simp: refLib_sortTrackers.mset_sort intro: refLib_sortTrackers.sorted_sort,
    simp add: refLib_def)

interpretation refLib_combine: combine_laws refLib
  by unfold_locales (simp add: refLib_def refCombine_None)

end
