(* ===== verification/ClusterVersion_Pkg.thy ===== *)
theory ClusterVersion_Pkg
  imports Libraries
begin

text \<open>
  \<^verbatim>\<open>pkg/clusterversion\<close>: questions about the upstream \<^verbatim>\<open>ClusterVersion\<close>. The lemmas characterise each
  of them completely; the latest available update is a maximal one in the version order.
\<close>

definition SpecEqualIgnoringDesiredUpdate :: "ClusterVersionSpec \<Rightarrow> ClusterVersionSpec \<Rightarrow> bool" where
  "SpecEqualIgnoringDesiredUpdate a b \<longleftrightarrow> a\<lparr>DesiredUpdate := None\<rparr> = b\<lparr>DesiredUpdate := None\<rparr>"

fun historyCompletes :: "Update \<Rightarrow> UpdateHistory list \<Rightarrow> bool" where
  "historyCompletes u [] = False"
| "historyCompletes u (version # hs) =
     (if uh_State version = CompletedUpdate \<and> uh_Image version = upd_Image u
         \<and> uh_Version version = upd_Version u
      then True else historyCompletes u hs)"

definition IsVersionUpgradeCompleted :: "ClusterVersion \<Rightarrow> bool" where
  "IsVersionUpgradeCompleted cv = (case DesiredUpdate (cv_Spec cv) of
     None \<Rightarrow> True
   | Some u \<Rightarrow> historyCompletes u (cv_History cv))"

fun findUpdate :: "Release list \<Rightarrow> string \<Rightarrow> string \<Rightarrow> Release option" where
  "findUpdate [] img version = None"
| "findUpdate (update # us) img version =
     (if rel_Version update = version \<and> rel_Image update = img then Some update
      else findUpdate us img version)"

definition FindAvailableUpdate :: "ClusterVersion \<Rightarrow> string \<Rightarrow> string \<Rightarrow> Release option" where
  "FindAvailableUpdate cv img version = findUpdate (cv_AvailableUpdates cv) img version"

text \<open>The \<^verbatim>\<open>less\<close> closure of \<^verbatim>\<open>sort.Slice\<close>, as a comparison.\<close>

definition laterVersion :: "'z lib_scheme \<Rightarrow> Release \<Rightarrow> Release \<Rightarrow> bool" where
  "laterVersion L a b \<longleftrightarrow> SemverCompare L (''v'' @ rel_Version a) (''v'' @ rel_Version b) > 0"

definition cmpOfLess :: "('a \<Rightarrow> 'a \<Rightarrow> bool) \<Rightarrow> 'a \<Rightarrow> 'a \<Rightarrow> int" where
  "cmpOfLess lt a b = (if lt a b then -1 else if lt b a then 1 else 0)"

definition LatestAvailableUpdate :: "'z lib_scheme \<Rightarrow> ClusterVersion \<Rightarrow> Release option" where
  "LatestAvailableUpdate L cv =
     (let updates = cv_AvailableUpdates cv in
      if updates = [] then None
      else case SortReleases L (cmpOfLess (laterVersion L)) updates of
        [] \<Rightarrow> None
      | u # _ \<Rightarrow> Some u)"

section \<open>What they decide\<close>

lemma historyCompletes_iff:
  "historyCompletes u hs \<longleftrightarrow> (\<exists>h \<in> set hs. uh_State h = CompletedUpdate \<and>
     uh_Image h = upd_Image u \<and> uh_Version h = upd_Version u)"
  by (induction hs) auto

lemma findUpdate_Some:
  "findUpdate us img version = Some r \<Longrightarrow> r \<in> set us \<and> rel_Image r = img \<and> rel_Version r = version"
  by (induction us) (auto split: if_splits)

lemma findUpdate_None:
  "findUpdate us img version = None \<longleftrightarrow>
     (\<forall>r \<in> set us. \<not> (rel_Image r = img \<and> rel_Version r = version))"
  by (induction us) auto

lemma FindAvailableUpdate_None:
  "FindAvailableUpdate cv img version = None \<longleftrightarrow>
     (\<forall>r \<in> set (cv_AvailableUpdates cv). \<not> (rel_Image r = img \<and> rel_Version r = version))"
  by (simp add: FindAvailableUpdate_def findUpdate_None)

lemma SpecEqual_keep_DesiredUpdate:
  "SpecEqualIgnoringDesiredUpdate (a\<lparr>DesiredUpdate := u\<rparr>) b = SpecEqualIgnoringDesiredUpdate a b"
  by (simp add: SpecEqualIgnoringDesiredUpdate_def)

lemma SpecEqual_refl [simp]: "SpecEqualIgnoringDesiredUpdate a a"
  by (simp add: SpecEqualIgnoringDesiredUpdate_def)

text \<open>The version order of \<^verbatim>\<open>semver\<close> makes the closure a weak order.\<close>

context semver_laws
begin

lemma later_weak_order: "weak_order (cmpOfLess (laterVersion L))"
proof -
  have key: "cmpOfLess (laterVersion L) a b \<le> 0
      \<longleftrightarrow> SemverCompare L (''v'' @ rel_Version b) (''v'' @ rel_Version a) \<le> 0" for a b
    using semver_swap [of "''v'' @ rel_Version a" "''v'' @ rel_Version b"]
    by (auto simp: cmpOfLess_def laterVersion_def)
  have "cmpOfLess (laterVersion L) a b < 0 \<longleftrightarrow> cmpOfLess (laterVersion L) b a > 0" for a b
    using semver_swap [of "''v'' @ rel_Version a" "''v'' @ rel_Version b"]
    by (auto simp: cmpOfLess_def laterVersion_def)
  then show ?thesis unfolding weak_order_def key by (blast intro: semver_trans)
qed

lemma later_asym: "laterVersion L a b \<Longrightarrow> \<not> laterVersion L b a"
  using semver_swap [of "''v'' @ rel_Version a" "''v'' @ rel_Version b"]
  by (simp add: laterVersion_def)

end

text \<open>C26: the latest available update is one of the available updates and no available update is
  later than it; there is none exactly when nothing is available.\<close>

theorem LatestAvailableUpdate_maximal:
  assumes "semver_laws L" and "sort_func (SortReleases L)"
  shows "case LatestAvailableUpdate L cv of
      None \<Rightarrow> cv_AvailableUpdates cv = []
    | Some r \<Rightarrow> r \<in> set (cv_AvailableUpdates cv) \<and>
        (\<forall>u \<in> set (cv_AvailableUpdates cv). \<not> laterVersion L u r)"
proof (cases "SortReleases L (cmpOfLess (laterVersion L)) (cv_AvailableUpdates cv)")
  case Nil
  with sort_func.sort_Nil_iff [OF assms(2)] show ?thesis
    by (auto simp: LatestAvailableUpdate_def)
next
  case (Cons r rs)
  note first = sort_func.sort_first [OF assms(2) semver_laws.later_weak_order [OF assms(1)] Cons]
  have "cv_AvailableUpdates cv \<noteq> []"
    using Cons sort_func.sort_Nil_iff [OF assms(2)] by (metis list.distinct(1))
  moreover have "\<not> laterVersion L u r" if "u \<in> set (cv_AvailableUpdates cv)" for u
    using first [OF that] semver_laws.later_asym [OF assms(1)]
    by (auto simp: cmpOfLess_def split: if_splits)
  moreover have "r \<in> set (cv_AvailableUpdates cv)"
    using Cons sort_func.set_sort [OF assms(2)] by (metis list.set_intros(1))
  ultimately show ?thesis using Cons by (simp add: LatestAvailableUpdate_def Let_def)
qed

definition twoUpdates :: ClusterVersion where
  "twoUpdates = \<lparr>Kind = '''', APIVersion = '''', Name = ''version'', Namespace = '''', UID = '''', ResourceVersion = '''',
     Labels = Map.empty, Annotations = Map.empty, CreationTimestamp = zeroTime, DeletionTimestamp = None,
     DeletionGracePeriodSeconds = None, Finalizers = [], OwnerReferences = [],
     cv_Spec = \<lparr>ClusterID = '''', DesiredUpdate = None, Upstream = '''', Channel = '''', Capabilities = None,
       SignatureStores = None, Overrides = None\<rparr>,
     cv_History = [],
     cv_AvailableUpdates = [\<lparr>rel_Version = ''4.9.3'', rel_Image = ''a'', rel_URL = '''', rel_Channels = []\<rparr>,
       \<lparr>rel_Version = ''4.10.1'', rel_Image = ''b'', rel_URL = '''', rel_Channels = []\<rparr>],
     cv_Conditions = []\<rparr>"

lemma refLib_sortReleases: "sort_func (SortReleases refLib)"
  using sortBy.sort_func_axioms by (simp add: refLib_def)

theorem LatestAvailableUpdate_maximal_witness:
  "map_option rel_Version (LatestAvailableUpdate refLib twoUpdates) = Some ''4.10.1''
   \<and> (case LatestAvailableUpdate refLib twoUpdates of
        None \<Rightarrow> False
      | Some r \<Rightarrow> \<not> laterVersion refLib (hd (cv_AvailableUpdates twoUpdates)) r)"
proof -
  have "map_option rel_Version (LatestAvailableUpdate refLib twoUpdates) = Some ''4.10.1''" by code_simp
  with LatestAvailableUpdate_maximal [OF refLib_semver.semver_laws_axioms refLib_sortReleases, of twoUpdates]
  show ?thesis by (auto simp: twoUpdates_def split: option.splits)
qed

end
