(* ===== verification/Health_Check.thy ===== *)
theory Health_Check
  imports Libraries
begin

text \<open>
  \<^verbatim>\<open>pkg/healthcheck\<close>: degraded operators and updating machine config pools.
\<close>

abbreviation OperatorDegraded :: string where "OperatorDegraded \<equiv> ''Degraded''"

fun anyDegraded :: "ClusterOperatorStatusCondition list \<Rightarrow> bool" where
  "anyDegraded [] = False"
| "anyDegraded (c # cs) =
     (if cc_Type c = OperatorDegraded \<and> cc_Status c = ConditionTrue then True else anyDegraded cs)"

definition IsOperatorDegraded :: "ClusterVersion \<Rightarrow> bool" where
  "IsOperatorDegraded cv = anyDegraded (cv_Conditions cv)"

record UpdatingPool =
  up_Name :: string
  up_Paused :: bool
  up_Total :: int
  up_Updated :: int

fun MachineConfigPoolsUpdating :: "MachineConfigPool list \<Rightarrow> UpdatingPool list" where
  "MachineConfigPoolsUpdating [] = []"
| "MachineConfigPoolsUpdating (mcp # mcps) =
     (if MachineCount mcp = UpdatedMachineCount mcp then MachineConfigPoolsUpdating mcps
      else \<lparr>up_Name = Name mcp, up_Paused = Paused mcp, up_Total = MachineCount mcp,
            up_Updated = UpdatedMachineCount mcp\<rparr> # MachineConfigPoolsUpdating mcps)"

text \<open>\<^verbatim>\<open>UpdatingPool.String\<close>, with the decimal rendering of \<^verbatim>\<open>%d\<close>.\<close>

fun natString :: "nat \<Rightarrow> string" where
  "natString n = (if n < 10 then [char_of (48 + n)]
     else natString (n div 10) @ [char_of (48 + n mod 10)])"

declare natString.simps [simp del]

definition intString :: "int \<Rightarrow> string" where
  "intString i = (if i < 0 then ''-'' @ natString (nat (- i)) else natString (nat i))"

definition poolString :: "UpdatingPool \<Rightarrow> string" where
  "poolString p = up_Name p @ '' '' @ (if up_Paused p then ''[paused] '' else '''') @ ''('' @
     intString (up_Updated p) @ ''/'' @ intString (up_Total p) @ '')''"

lemma anyDegraded_iff:
  "anyDegraded cs \<longleftrightarrow> (\<exists>c \<in> set cs. cc_Type c = OperatorDegraded \<and> cc_Status c = ConditionTrue)"
  by (induction cs) auto

lemma MachineConfigPoolsUpdating_eq:
  "MachineConfigPoolsUpdating mcps =
     map (\<lambda>mcp. \<lparr>up_Name = Name mcp, up_Paused = Paused mcp, up_Total = MachineCount mcp,
                  up_Updated = UpdatedMachineCount mcp\<rparr>)
       (filter (\<lambda>mcp. MachineCount mcp \<noteq> UpdatedMachineCount mcp) mcps)"
  by (induction mcps) auto

end
