(* ===== verification/Schedule.thy ===== *)
theory Schedule
  imports Libraries
begin

text \<open>
  \<^verbatim>\<open>pkg/schedule\<close>: a cron schedule restricted to ISO weeks. The cron expression is a parameter (package
  \<^verbatim>\<open>robfig/cron\<close>), and so is the zone offset of a location; the ISO week is computed from them as
  \<^verbatim>\<open>time.Time.ISOWeek\<close> does. The lemmas say exactly which activation \<open>Next\<close> returns, that the loop
  over at most 1000 activations ends in an error or in an activation of a matching week, and that
  the activations \<open>NextN\<close> lists increase.
\<close>

section \<open>ISO weeks\<close>

text \<open>The zone offset, in seconds east of UTC, at an instant.\<close>

type_synonym location = "time \<Rightarrow> int"

text \<open>Days since January 1 of year 1 (proleptic Gregorian calendar, a Monday), in local time.\<close>

definition localDay :: "location \<Rightarrow> time \<Rightarrow> int" where
  "localDay loc t = (t div second + loc t) div 86400 + 719162"

definition daysBeforeYear :: "int \<Rightarrow> int" where
  "daysBeforeYear y = 365 * y + y div 4 - y div 100 + y div 400"

text \<open>The years completed before a day: an estimate from the mean length of a year, corrected.\<close>

definition yearsBefore :: "int \<Rightarrow> int" where
  "yearsBefore n = (let y = (400 * n) div 146097 in
     if n < daysBeforeYear y then y - 1
     else if daysBeforeYear (y + 1) \<le> n then y + 1 else y)"

definition yearDay :: "int \<Rightarrow> int" where
  "yearDay n = n - daysBeforeYear (yearsBefore n)"

text \<open>The week of a day is the week of the year its Thursday lies in.\<close>

definition isoWeek :: "location \<Rightarrow> time \<Rightarrow> int" where
  "isoWeek loc t = (let d = localDay loc t; thursday = d - d mod 7 + 3 in yearDay thursday div 7 + 1)"

lemma daysBeforeYear_bounds:
  "146097 * y - 699 \<le> 400 * daysBeforeYear y" "400 * daysBeforeYear y \<le> 146097 * y + 396"
proof -
  have "4 * (y div 4) \<le> y" "y \<le> 4 * (y div 4) + 3" "100 * (y div 100) \<le> y"
    "y \<le> 100 * (y div 100) + 99" "400 * (y div 400) \<le> y" "y \<le> 400 * (y div 400) + 399"
    by linarith+
  then show "146097 * y - 699 \<le> 400 * daysBeforeYear y"
    "400 * daysBeforeYear y \<le> 146097 * y + 396"
    unfolding daysBeforeYear_def by (simp_all add: algebra_simps)
qed

lemma yearsBefore_bounds:
  "daysBeforeYear (yearsBefore n) \<le> n" "n < daysBeforeYear (yearsBefore n + 1)"
proof -
  define y where "y = (400 * n) div 146097"
  have "146097 * y \<le> 400 * n" "400 * n < 146097 * y + 146097" unfolding y_def by linarith+
  then have "daysBeforeYear (y - 1) \<le> n" "n < daysBeforeYear (y + 2)"
    using daysBeforeYear_bounds(2) [of "y - 1"] daysBeforeYear_bounds(1) [of "y + 2"] by simp_all
  then show "daysBeforeYear (yearsBefore n) \<le> n" "n < daysBeforeYear (yearsBefore n + 1)"
    unfolding yearsBefore_def Let_def y_def [symmetric] by (auto simp: add.assoc)
qed

lemma year_length: "daysBeforeYear (y + 1) - daysBeforeYear y \<le> 366"
proof -
  have "x div 400 = x div 100 div 4" for x :: int
    using zdiv_zmult2_eq [of 4 x 100] by simp
  moreover have "(y + 1) div 100 - y div 100 \<in> {0, 1}"
  proof -
    have "(y + 1) div 100 - y div 100 = 0 \<or> (y + 1) div 100 - y div 100 = 1" by linarith
    then show ?thesis by simp
  qed
  moreover have "(y + 1) div 4 - y div 4 \<le> 1" by linarith
  moreover have "p div 4 - q div 4 \<le> p - q" if "p - q \<in> {0, 1}" for p q :: int
  proof -
    from that have "p = q \<or> p = q + 1" by auto
    then show ?thesis by (auto; linarith)
  qed
  ultimately have "(y + 1) div 400 - y div 400 \<le> (y + 1) div 100 - y div 100"
    "(y + 1) div 4 - y div 4 \<le> 1" by metis+
  then show ?thesis unfolding daysBeforeYear_def by (simp add: algebra_simps)
qed

lemma yearDay_bounds: "0 \<le> yearDay n" "yearDay n \<le> 365"
  using yearsBefore_bounds [of n] year_length [of "yearsBefore n"] by (auto simp: yearDay_def)

text \<open>An ISO week is always between 1 and 53.\<close>

lemma isoWeek_bounds: "1 \<le> isoWeek loc t" "isoWeek loc t \<le> 53"
proof -
  have "0 \<le> yearDay n div 7" "yearDay n div 7 \<le> 52" for n
    using yearDay_bounds [of n] by linarith+
  then show "1 \<le> isoWeek loc t" "isoWeek loc t \<le> 53" by (auto simp: isoWeek_def Let_def)
qed

section \<open>schedule.go\<close>

text \<open>\<^verbatim>\<open>strconv.ParseInt(s, 10, 64)\<close>: an optional sign and decimal digits, within 64 bits.\<close>

fun digitValue :: "char \<Rightarrow> int option" where
  "digitValue c = (let n = of_char c :: int in if 48 \<le> n \<and> n \<le> 57 then Some (n - 48) else None)"

fun parseDigits :: "int \<Rightarrow> string \<Rightarrow> int option" where
  "parseDigits acc [] = Some acc"
| "parseDigits acc (c # cs) = (case digitValue c of
     None \<Rightarrow> None
   | Some d \<Rightarrow> parseDigits (10 * acc + d) cs)"

definition parseUint :: "string \<Rightarrow> int option" where
  "parseUint s = (if s = [] then None else parseDigits 0 s)"

definition parseInt :: "string \<Rightarrow> int option" where
  "parseInt s = (case (case s of
       c # cs \<Rightarrow> if c = CHR ''-'' then map_option uminus (parseUint cs)
                 else if c = CHR ''+'' then parseUint cs else parseUint s
     | [] \<Rightarrow> None) of
     None \<Rightarrow> None
   | Some n \<Rightarrow> if int64 n then Some n else None)"

abbreviation ErrNoNextFound :: error where
  "ErrNoNextFound \<equiv> ErrorString ''no next time found''"

text \<open>\<^verbatim>\<open>cron.Schedule\<close> is an interface with one method; a time carries its location in Go.\<close>

record Schedule =
  CronNext :: "location \<Rightarrow> time \<Rightarrow> time"
  sc_IsoWeek :: string

definition checkIsoWeek :: "location \<Rightarrow> time \<Rightarrow> string \<Rightarrow> error + bool" where
  "checkIsoWeek loc t schedISOWeek = (let iw = isoWeek loc t in
     if schedISOWeek = '''' then Inr True
     else if schedISOWeek = ''@even'' then Inr (iw mod 2 = 0)
     else if schedISOWeek = ''@odd'' then Inr (iw mod 2 = 1)
     else case parseInt schedISOWeek of
       Some nw \<Rightarrow> Inr (nw = iw)
     | None \<Rightarrow> Inl (ErrorString (''unknown iso week: '' @ schedISOWeek)))"

text \<open>The loop of \<open>Next\<close>, with the iterations left.\<close>

fun nextLoop :: "Schedule \<Rightarrow> location \<Rightarrow> nat \<Rightarrow> time \<Rightarrow> error + time" where
  "nextLoop s loc 0 n = Inl (Errorf ''could not find next scheduled time'' ErrNoNextFound)"
| "nextLoop s loc (Suc i) n = (case checkIsoWeek loc n (sc_IsoWeek s) of
     Inl e \<Rightarrow> Inl e
   | Inr isoWeekOK \<Rightarrow> if isoWeekOK then Inr n else nextLoop s loc i (CronNext s loc n))"

definition Next :: "Schedule \<Rightarrow> location \<Rightarrow> time \<Rightarrow> error + time" where
  "Next s loc earliest = nextLoop s loc 1000 (CronNext s loc earliest)"

text \<open>\<open>NextN\<close> returns the times found and the error, if one ended the loop.\<close>

fun nextNLoop :: "Schedule \<Rightarrow> location \<Rightarrow> nat \<Rightarrow> time \<Rightarrow> time list \<Rightarrow> time list \<times> error option" where
  "nextNLoop s loc 0 earliest nextTimes = (nextTimes, None)"
| "nextNLoop s loc (Suc i) earliest nextTimes = (case Next s loc earliest of
     Inl e \<Rightarrow> (nextTimes, Some e)
   | Inr nextTime \<Rightarrow> nextNLoop s loc i nextTime (nextTimes @ [nextTime]))"

definition NextN :: "Schedule \<Rightarrow> location \<Rightarrow> time \<Rightarrow> nat \<Rightarrow> time list \<times> error option" where
  "NextN s loc earliest n = nextNLoop s loc n earliest []"

section \<open>Which activation\<close>

abbreviation weekOK :: "Schedule \<Rightarrow> location \<Rightarrow> time \<Rightarrow> bool" where
  "weekOK s loc t \<equiv> checkIsoWeek loc t (sc_IsoWeek s) = Inr True"

abbreviation weekSkipped :: "Schedule \<Rightarrow> location \<Rightarrow> time \<Rightarrow> bool" where
  "weekSkipped s loc t \<equiv> checkIsoWeek loc t (sc_IsoWeek s) = Inr False"

text \<open>The loop returns the first activation of a matching week among the next \<open>i\<close>.\<close>

lemma nextLoop_Inr:
  "nextLoop s loc i n = Inr t \<longleftrightarrow> (\<exists>k < i. t = (CronNext s loc ^^ k) n \<and> weekOK s loc t
     \<and> (\<forall>j < k. weekSkipped s loc ((CronNext s loc ^^ j) n)))"
proof (induction i arbitrary: n)
  case (Suc i)
  let ?f = "CronNext s loc"
  have shift: "(?f ^^ j) (?f n) = (?f ^^ Suc j) n" for j by (simp add: funpow_swap1)
  show ?case
  proof (cases "weekSkipped s loc n")
    case True
    with Suc.IH [of "?f n"] show ?thesis unfolding shift
      by (auto simp: Ex_less_Suc2 All_less_Suc2)
  next
    case False
    then show ?thesis
      by (auto simp: Ex_less_Suc2 All_less_Suc2 split: sum.splits if_splits)
  qed
qed simp

text \<open>Whether an ISO week setting is valid does not depend on the time.\<close>

definition validIsoWeek :: "string \<Rightarrow> bool" where
  "validIsoWeek w \<longleftrightarrow> w \<in> {'''', ''@even'', ''@odd''} \<or> parseInt w \<noteq> None"

lemma checkIsoWeek_valid: "validIsoWeek w \<Longrightarrow> \<exists>b. checkIsoWeek loc t w = Inr b"
  by (auto simp: validIsoWeek_def checkIsoWeek_def Let_def)

lemma checkIsoWeek_invalid:
  "\<not> validIsoWeek w \<Longrightarrow> checkIsoWeek loc t w = Inl (ErrorString (''unknown iso week: '' @ w))"
  by (auto simp: validIsoWeek_def checkIsoWeek_def Let_def)

lemma nextLoop_none:
  "validIsoWeek (sc_IsoWeek s) \<Longrightarrow> nextLoop s loc i n = Inl e \<longleftrightarrow>
     e = Errorf ''could not find next scheduled time'' ErrNoNextFound
       \<and> (\<forall>j < i. weekSkipped s loc ((CronNext s loc ^^ j) n))"
proof (induction i arbitrary: n)
  case (Suc i)
  let ?f = "CronNext s loc"
  have shift: "(?f ^^ j) (?f n) = (?f ^^ Suc j) n" for j by (simp add: funpow_swap1)
  obtain b where "checkIsoWeek loc n (sc_IsoWeek s) = Inr b"
    using checkIsoWeek_valid [OF Suc.prems] by blast
  then show ?case using Suc.IH [OF Suc.prems, of "?f n"] unfolding shift
    by (simp add: All_less_Suc2)
qed auto

lemma Next_Inr:
  "Next s loc t = Inr u \<longleftrightarrow> (\<exists>k < 1000. u = (CronNext s loc ^^ Suc k) t \<and> weekOK s loc u
      \<and> (\<forall>j < k. weekSkipped s loc ((CronNext s loc ^^ Suc j) t)))"
proof -
  have shift: "(CronNext s loc ^^ j) (CronNext s loc t) = (CronNext s loc ^^ Suc j) t" for j
    by (simp add: funpow_swap1)
  show ?thesis unfolding Next_def nextLoop_Inr shift by simp
qed

lemma Next_Inl:
  assumes "validIsoWeek (sc_IsoWeek s)"
  shows "(\<exists>e. Next s loc t = Inl e) \<longleftrightarrow>
    (\<forall>k < 1000. weekSkipped s loc ((CronNext s loc ^^ Suc k) t))"
proof -
  have shift: "(CronNext s loc ^^ j) (CronNext s loc t) = (CronNext s loc ^^ Suc j) t" for j
    by (simp add: funpow_swap1)
  show ?thesis unfolding Next_def nextLoop_none [OF assms] shift by simp
qed

text \<open>C24: \<open>Next\<close> returns the first activation after the given time that lies in a matching ISO
  week, provided it is among the next 1000 activations; with a valid week setting it fails exactly
  when none of these 1000 matches.\<close>

theorem Next_first_matching:
  "(Next s loc t = Inr u \<longleftrightarrow> (\<exists>k < 1000. u = (CronNext s loc ^^ Suc k) t \<and> weekOK s loc u
      \<and> (\<forall>j < k. weekSkipped s loc ((CronNext s loc ^^ Suc j) t))))
   \<and> (validIsoWeek (sc_IsoWeek s) \<longrightarrow>
        ((\<exists>e. Next s loc t = Inl e) \<longleftrightarrow>
          (\<forall>k < 1000. weekSkipped s loc ((CronNext s loc ^^ Suc k) t))))"
  using Next_Inr Next_Inl by blast

text \<open>A cron schedule that never activates makes \<^verbatim>\<open>cron\<close>'s \<open>Next\<close> return the zero time.
  Without an ISO week \<open>Next\<close> hands this zero time on as a valid activation, although its comment
  promises an error with \<open>ErrNoNextFound\<close> when no next time could be found.\<close>

theorem Next_never_activates:
  assumes "CronNext s loc t = zeroTime" and "sc_IsoWeek s = ''''"
  shows "Next s loc t = Inr zeroTime"
proof -
  have "nextLoop s loc (Suc i) zeroTime = Inr zeroTime" for i
    using assms(2) by (simp add: checkIsoWeek_def)
  from this [of 999] show ?thesis by (simp add: Next_def assms(1))
qed

section \<open>Activations move forward\<close>

text \<open>What the scheduler needs of \<open>Next\<close>: an activation is later than the time asked for.\<close>

locale activations =
  fixes next_run :: "time \<Rightarrow> error + time"
  assumes next_later: "next_run t = Inr u \<Longrightarrow> t < u"
begin

text \<open>The activations found one after the other.\<close>

fun runs_from :: "time \<Rightarrow> time list \<Rightarrow> bool" where
  "runs_from t [] = True"
| "runs_from t (u # us) = (next_run t = Inr u \<and> runs_from u us)"

lemma runs_from_sorted: "runs_from t us \<Longrightarrow> sorted_wrt (<) (t # us)"
proof (induction us arbitrary: t)
  case (Cons u us)
  then have "t < u" "sorted_wrt (<) (u # us)" by (auto intro: next_later)
  then show ?case by auto
qed simp

end

text \<open>\<^verbatim>\<open>cron.Schedule.Next\<close> returns a time later than the given one (a schedule that has one).\<close>

locale cron_progress =
  fixes s :: Schedule and loc :: location
  assumes cron_later: "t < CronNext s loc t"
begin

lemma iterate_later: "t < (CronNext s loc ^^ Suc k) t"
  by (induction k) (auto intro: cron_later less_trans)

end

sublocale cron_progress \<subseteq> next_run: activations "Next s loc"
  by unfold_locales (auto simp: Next_Inr simp del: funpow.simps intro: iterate_later)

text \<open>The schedule \<^verbatim>\<open>@daily\<close>, at midnight UTC.\<close>

definition day :: duration where "day = 86400 * second"

definition dailySchedule :: Schedule where
  "dailySchedule = \<lparr>CronNext = (\<lambda>_ t. (t div day + 1) * day), sc_IsoWeek = ''''\<rparr>"

interpretation daily: cron_progress dailySchedule "\<lambda>_. 0"
proof
  fix t :: int
  have "t mod day < day" by (simp add: day_def second_def)
  moreover have "t = day * (t div day) + t mod day" by simp
  ultimately have "t < day * (t div day) + day" by linarith
  then show "t < CronNext dailySchedule (\<lambda>_. 0) t" by (simp add: dailySchedule_def algebra_simps)
qed

lemma nextNLoop_acc: "nextNLoop s loc n t acc =
   (acc @ fst (nextNLoop s loc n t []), snd (nextNLoop s loc n t []))"
proof (induction n arbitrary: t acc)
  case (Suc n)
  show ?case
  proof (cases "Next s loc t")
    case (Inr u)
    then show ?thesis by (simp add: Suc [of u "acc @ [u]"] Suc [of u "[u]"])
  qed simp
qed simp

lemma NextN_Suc: "NextN s loc t (Suc n) = (case Next s loc t of
    Inl e \<Rightarrow> ([], Some e)
  | Inr u \<Rightarrow> (u # fst (NextN s loc u n), snd (NextN s loc u n)))"
  by (simp add: NextN_def nextNLoop_acc [where acc = "[u]" for u] split: sum.split)

lemma NextN_0 [simp]: "NextN s loc t 0 = ([], None)"
  by (simp add: NextN_def)

context cron_progress
begin

lemma NextN_runs: "next_run.runs_from t (fst (NextN s loc t n))"
  by (induction n arbitrary: t) (auto simp: NextN_Suc split: sum.splits)

lemmas NextN_sorted = next_run.runs_from_sorted [OF NextN_runs]

end

lemma NextN_length:
  "length (fst (NextN s loc t n)) \<le> n \<and> (snd (NextN s loc t n) = None \<longleftrightarrow> length (fst (NextN s loc t n)) = n)"
  by (induction n arbitrary: t) (auto simp: NextN_Suc split: sum.splits)

section \<open>Instances\<close>

lemma Next_daily: "Next dailySchedule loc t = Inr ((t div day + 1) * day)"
  using Next_Inr [of dailySchedule loc t "(t div day + 1) * day"]
  by (auto simp: dailySchedule_def checkIsoWeek_def Let_def intro!: exI [of _ 0])

theorem Next_first_matching_witness:
  "Next dailySchedule (\<lambda>_. 0) 0 = Inr day \<and> weekOK dailySchedule (\<lambda>_. 0) day
   \<and> \<not> (\<exists>e. Next dailySchedule (\<lambda>_. 0) 0 = Inl e)"
proof -
  have "Next dailySchedule (\<lambda>_. 0) 0 = Inr day" by (simp add: Next_daily)
  with Next_first_matching [of dailySchedule "\<lambda>_. 0" 0 day] show ?thesis by auto
qed

theorem Next_never_activates_witness:
  "Next \<lparr>CronNext = \<lambda>_ _. zeroTime, sc_IsoWeek = ''''\<rparr> (\<lambda>_. 0) 0 = Inr zeroTime"
  by (rule Next_never_activates) simp_all

end
