(* ===== verification/UpgradeJob_Client.thy ===== *)
theory UpgradeJob_Client
  imports Libraries
begin

text \<open>
  The \<^verbatim>\<open>UpgradeJobReconciler\<close> as a record: the API calls of its embedded \<^verbatim>\<open>client.Client\<close>, one field per
  kind of object and verb the code uses, its \<^verbatim>\<open>Clock\<close>, and the name of the upstream cluster version.
  Every call may change the abstract store, so the API server, other writers and the passing of
  time are all behind it. \<open>ujCall\<close> is what a run records of a call: its arguments and its response.
\<close>

datatype ujCall =
    GetUpgradeJob NamespacedName "error + UpgradeJob"
  | StatusUpdateUpgradeJob UpgradeJob "error + UpgradeJob"
  | GetClusterVersion string "error + ClusterVersion"
  | UpdateClusterVersion ClusterVersion "error + ClusterVersion"
  | ListHooks string "error + UpgradeJobHook list"
  | StatusUpdateHook UpgradeJobHook "error + UpgradeJobHook"
  | ListJobs string "string \<rightharpoonup> string" "error + Job list"
  | CreateJob Job "error + Job"
  | UpdateJob Job "error + Job"
  | ListPools "Selector option" "error + MachineConfigPool list"
  | UpdatePool MachineConfigPool "error + MachineConfigPool"
  | ListWindows string "error + UpgradeSuspensionWindow list"
  | Now time

record 's UpgradeJobReconciler =
  c_getUpgradeJob :: "NamespacedName \<Rightarrow> 's \<Rightarrow> (error + UpgradeJob) \<times> 's"
  c_statusUpdateUpgradeJob :: "UpgradeJob \<Rightarrow> 's \<Rightarrow> (error + UpgradeJob) \<times> 's"
  c_getClusterVersion :: "string \<Rightarrow> 's \<Rightarrow> (error + ClusterVersion) \<times> 's"
  c_updateClusterVersion :: "ClusterVersion \<Rightarrow> 's \<Rightarrow> (error + ClusterVersion) \<times> 's"
  c_listHooks :: "string \<Rightarrow> 's \<Rightarrow> (error + UpgradeJobHook list) \<times> 's"
  c_statusUpdateHook :: "UpgradeJobHook \<Rightarrow> 's \<Rightarrow> (error + UpgradeJobHook) \<times> 's"
  c_listJobs :: "string \<Rightarrow> (string \<rightharpoonup> string) \<Rightarrow> 's \<Rightarrow> (error + Job list) \<times> 's"
  c_createJob :: "Job \<Rightarrow> 's \<Rightarrow> (error + Job) \<times> 's"
  c_updateJob :: "Job \<Rightarrow> 's \<Rightarrow> (error + Job) \<times> 's"
  c_listPools :: "Selector option \<Rightarrow> 's \<Rightarrow> (error + MachineConfigPool list) \<times> 's"
  c_updatePool :: "MachineConfigPool \<Rightarrow> 's \<Rightarrow> (error + MachineConfigPool) \<times> 's"
  c_listWindows :: "string \<Rightarrow> 's \<Rightarrow> (error + UpgradeSuspensionWindow list) \<times> 's"
  c_now :: "'s \<Rightarrow> time \<times> 's"
  ManagedUpstreamClusterVersionName :: string

type_synonym ('s, 'a) uj_io = "('s, ujCall, 'a) io"

abbreviation getUpgradeJob :: "'s UpgradeJobReconciler \<Rightarrow> NamespacedName \<Rightarrow> ('s, error + UpgradeJob) uj_io" where
  "getUpgradeJob r nn \<equiv> call (GetUpgradeJob nn) (c_getUpgradeJob r nn)"
abbreviation statusUpdateUpgradeJob :: "'s UpgradeJobReconciler \<Rightarrow> UpgradeJob \<Rightarrow> ('s, error + UpgradeJob) uj_io" where
  "statusUpdateUpgradeJob r uj \<equiv> call (StatusUpdateUpgradeJob uj) (c_statusUpdateUpgradeJob r uj)"
abbreviation getClusterVersion :: "'s UpgradeJobReconciler \<Rightarrow> string \<Rightarrow> ('s, error + ClusterVersion) uj_io" where
  "getClusterVersion r n \<equiv> call (GetClusterVersion n) (c_getClusterVersion r n)"
abbreviation updateClusterVersion :: "'s UpgradeJobReconciler \<Rightarrow> ClusterVersion \<Rightarrow> ('s, error + ClusterVersion) uj_io" where
  "updateClusterVersion r cv \<equiv> call (UpdateClusterVersion cv) (c_updateClusterVersion r cv)"
abbreviation listHooks :: "'s UpgradeJobReconciler \<Rightarrow> string \<Rightarrow> ('s, error + UpgradeJobHook list) uj_io" where
  "listHooks r ns \<equiv> call (ListHooks ns) (c_listHooks r ns)"
abbreviation statusUpdateHook :: "'s UpgradeJobReconciler \<Rightarrow> UpgradeJobHook \<Rightarrow> ('s, error + UpgradeJobHook) uj_io" where
  "statusUpdateHook r h \<equiv> call (StatusUpdateHook h) (c_statusUpdateHook r h)"
abbreviation listJobs :: "'s UpgradeJobReconciler \<Rightarrow> string \<Rightarrow> (string \<rightharpoonup> string) \<Rightarrow> ('s, error + Job list) uj_io" where
  "listJobs r ns ls \<equiv> call (ListJobs ns ls) (c_listJobs r ns ls)"
abbreviation createJobObject :: "'s UpgradeJobReconciler \<Rightarrow> Job \<Rightarrow> ('s, error + Job) uj_io" where
  "createJobObject r j \<equiv> call (CreateJob j) (c_createJob r j)"
abbreviation updateJob :: "'s UpgradeJobReconciler \<Rightarrow> Job \<Rightarrow> ('s, error + Job) uj_io" where
  "updateJob r j \<equiv> call (UpdateJob j) (c_updateJob r j)"
abbreviation listPools :: "'s UpgradeJobReconciler \<Rightarrow> Selector option \<Rightarrow> ('s, error + MachineConfigPool list) uj_io" where
  "listPools r sel \<equiv> call (ListPools sel) (c_listPools r sel)"
abbreviation updatePool :: "'s UpgradeJobReconciler \<Rightarrow> MachineConfigPool \<Rightarrow> ('s, error + MachineConfigPool) uj_io" where
  "updatePool r p \<equiv> call (UpdatePool p) (c_updatePool r p)"
abbreviation listWindows :: "'s UpgradeJobReconciler \<Rightarrow> string \<Rightarrow> ('s, error + UpgradeSuspensionWindow list) uj_io" where
  "listWindows r ns \<equiv> call (ListWindows ns) (c_listWindows r ns)"
abbreviation clockNow :: "'s UpgradeJobReconciler \<Rightarrow> ('s, time) uj_io" where
  "clockNow r \<equiv> call Now (c_now r)"

definition JobLockAnnotation :: string where
  "JobLockAnnotation = ''managedupgrade.appuio.io/upgrade-job''"

text \<open>The value the code writes into lock annotations: \<^verbatim>\<open>uj.Namespace+"/"+uj.Name\<close>.\<close>

definition lockVal :: "UpgradeJob \<Rightarrow> string" where
  "lockVal uj = Namespace uj @ ''/'' @ Name uj"

definition newCondition :: "string \<Rightarrow> ConditionStatus \<Rightarrow> string \<Rightarrow> string \<Rightarrow> Condition" where
  "newCondition t st rsn msg =
     \<lparr>Type = t, Status = st, LastTransitionTime = zeroTime, Reason = rsn, Message = msg\<rparr>"

definition setStatusCondition ::
  "'z lib_scheme \<Rightarrow> 's UpgradeJobReconciler \<Rightarrow> Condition list \<Rightarrow> Condition \<Rightarrow> ('s, Condition list \<times> bool) uj_io"
where
  "setStatusCondition L r conditions c = do {
     now \<leftarrow> clockNow r;
     ret (SetStatusCondition L conditions (c\<lparr>LastTransitionTime := now\<rparr>))
   }"

text \<open>The code's recurring pair: set a condition of the job, then update its status. After a
  successful update the job variable holds the object the server returned.\<close>

definition setConditionAndUpdate ::
  "'z lib_scheme \<Rightarrow> 's UpgradeJobReconciler \<Rightarrow> UpgradeJob \<Rightarrow> Condition \<Rightarrow> ('s, UpgradeJob \<times> error option) uj_io"
where
  "setConditionAndUpdate L r uj c = do {
     (cs, _) \<leftarrow> setStatusCondition L r (uj_Conditions uj) c;
     let uj = uj\<lparr>uj_Conditions := cs\<rparr>;
     res \<leftarrow> statusUpdateUpgradeJob r uj;
     ret (okOr uj res, errOf res)
   }"

definition boolToStatus :: "bool \<Rightarrow> ConditionStatus" where
  "boolToStatus b = (if b then ConditionTrue else ConditionFalse)"

definition timeSinceStartAfter :: "'s UpgradeJobReconciler \<Rightarrow> UpgradeJob \<Rightarrow> ('s, duration) uj_io" where
  "timeSinceStartAfter r uj = do {
     now \<leftarrow> clockNow r;
     ret (timeSub now (StartAfter (uj_Spec uj)))
   }"

section \<open>What the API server promises\<close>

text \<open>A get returns the object of the name asked for. A status update returns the job that was sent:
  its identity, labels and specification are the stored ones, which the job still has because the
  update was not refused as outdated, and its status is the one sent, up to the precision of
  times.\<close>

definition conditionsKey :: "Condition list \<Rightarrow> (string \<times> ConditionStatus \<times> string \<times> string) list" where
  "conditionsKey cs = map (\<lambda>c. (Type c, Status c, Reason c, Message c)) cs"

definition sameObject :: "UpgradeJob \<Rightarrow> UpgradeJob \<Rightarrow> bool" where
  "sameObject uj uj' \<longleftrightarrow> Namespace uj' = Namespace uj \<and> Name uj' = Name uj \<and> Labels uj' = Labels uj
     \<and> uj_Spec uj' = uj_Spec uj"

definition sameJob :: "UpgradeJob \<Rightarrow> UpgradeJob \<Rightarrow> bool" where
  "sameJob uj uj' \<longleftrightarrow> sameObject uj uj' \<and> uj_HookJobTracker uj' = uj_HookJobTracker uj
     \<and> conditionsKey (uj_Conditions uj') = conditionsKey (uj_Conditions uj)"

lemma sameObject_refl [simp]: "sameObject uj uj"
  by (simp add: sameObject_def)

lemma sameJob_refl [simp]: "sameJob uj uj"
  by (simp add: sameJob_def)

lemma sameObject_trans: "sameObject a b \<Longrightarrow> sameObject b c \<Longrightarrow> sameObject a c"
  by (simp add: sameObject_def)

lemma sameObject_conditions [simp]: "sameObject uj (uj\<lparr>uj_Conditions := cs\<rparr>)"
  by (simp add: sameObject_def)

lemma sameJob_sameObject: "sameJob a b \<Longrightarrow> sameObject a b"
  by (simp add: sameJob_def)

lemma sameObject_lockVal: "sameObject uj uj' \<Longrightarrow> lockVal uj' = lockVal uj"
  by (simp add: sameObject_def lockVal_def)

text \<open>The job sent to set a condition, at whatever time.\<close>

definition statusWith :: "'z lib_scheme \<Rightarrow> UpgradeJob \<Rightarrow> Condition \<Rightarrow> UpgradeJob \<Rightarrow> bool" where
  "statusWith L uj c sent \<longleftrightarrow> (\<exists>now. sent = uj\<lparr>uj_Conditions :=
     fst (SetStatusCondition L (uj_Conditions uj) (c\<lparr>LastTransitionTime := now\<rparr>))\<rparr>)"

lemma newCondition_simps [simp]:
  "Type (newCondition t s rsn msg) = t" "Status (newCondition t s rsn msg) = s"
  "Reason (newCondition t s rsn msg) = rsn" "Message (newCondition t s rsn msg) = msg"
  by (simp_all add: newCondition_def)

lemma follows_setStatusCondition:
  assumes "\<And>t. E h (Now t)"
    and "\<And>now cs changed. SetStatusCondition L (uj_Conditions uj) (c\<lparr>LastTransitionTime := now\<rparr>) = (cs, changed)
      \<Longrightarrow> statusWith L uj c (uj\<lparr>uj_Conditions := cs\<rparr>) \<Longrightarrow> follows E (h @ [Now now]) (f (cs, changed)) R"
  shows "follows E h (State_Monad.bind (setStatusCondition L r (uj_Conditions uj) c) f) R"
  unfolding setStatusCondition_def State_Monad.bind_assoc State_Monad.bind_left_identity
proof (rule follows_bind_call, goal_cases)
  case (2 now)
  obtain cs changed where *: "SetStatusCondition L (uj_Conditions uj) (c\<lparr>LastTransitionTime := now\<rparr>) = (cs, changed)"
    by fastforce
  then have "statusWith L uj c (uj\<lparr>uj_Conditions := cs\<rparr>)"
    unfolding statusWith_def by (metis fst_conv)
  from assms(2) [OF * this] * show ?case by simp
qed (rule assms(1))

locale job_api =
  fixes r :: "'s UpgradeJobReconciler"
  assumes get_job: "answers (c_getUpgradeJob r nn) (Inr uj)
      \<Longrightarrow> Namespace uj = nn_Namespace nn \<and> Name uj = nn_Name nn"
    and update_job: "answers (c_statusUpdateUpgradeJob r uj) (Inr uj') \<Longrightarrow> sameJob uj uj'"
begin

lemma update_okOr:
  "answers (c_statusUpdateUpgradeJob r uj) res \<Longrightarrow> sameJob uj (okOr uj res)"
  by (cases res) (auto intro: update_job)

text \<open>Setting a condition calls the clock, then updates the status of the same job.\<close>

lemma follows_setConditionAndUpdate:
  assumes "\<And>t. E h (Now t)"
    and "\<And>now sent res. statusWith L uj c sent \<Longrightarrow> E (h @ [Now now]) (StatusUpdateUpgradeJob sent res)"
  shows "follows E h (setConditionAndUpdate L r uj c) (\<lambda>(uj', err) h'. \<exists>now sent res.
    statusWith L uj c sent \<and> h' = h @ [Now now, StatusUpdateUpgradeJob sent res]
    \<and> uj' = okOr sent res \<and> err = errOf res \<and> sameJob sent uj')"
  unfolding setConditionAndUpdate_def setStatusCondition_def
  using assms update_okOr
  by (auto simp: State_Monad.bind_assoc Let_def statusWith_def split: prod.splits intro!: emits_rules)
    (metis fst_conv)+

text \<open>The code's other recurring form: the status is updated and the function returns.\<close>

lemma follows_setConditionAndReturn:
  assumes "\<And>t. E h (Now t)"
    and "\<And>now sent res. statusWith L uj c sent \<Longrightarrow> E (h @ [Now now]) (StatusUpdateUpgradeJob sent res)"
    and "\<And>uj' res h'. sameObject uj uj' \<Longrightarrow> R (f uj' res) h'"
  shows "follows E h (do { (uj', err) \<leftarrow> setConditionAndUpdate L r uj c; ret (f uj' err) }) R"
  by (rule follows_bind [OF follows_setConditionAndUpdate [OF assms(1,2)]])
    (auto intro!: follows_ret assms(3) simp: sameJob_def sameObject_def statusWith_def)

end

section \<open>What the conditions of a job say\<close>

text \<open>A job is judged by the status and the reason of the first condition of each type.\<close>

type_synonym view = "string \<Rightarrow> (ConditionStatus \<times> string) option"

definition viewOf :: "'z lib_scheme \<Rightarrow> UpgradeJob \<Rightarrow> view" where
  "viewOf L uj t = map_option (\<lambda>c. (Status c, Reason c)) (FindStatusCondition L (uj_Conditions uj) t)"

definition reached :: "view \<Rightarrow> string \<Rightarrow> bool" where
  "reached v t \<longleftrightarrow> (\<exists>rsn. v t = Some (ConditionTrue, rsn))"

text \<open>Two versions of a job that agree on all conditions but some.\<close>

definition sameConditions :: "'z lib_scheme \<Rightarrow> string set \<Rightarrow> UpgradeJob \<Rightarrow> UpgradeJob \<Rightarrow> bool" where
  "sameConditions L ts uj uj' \<longleftrightarrow> (\<forall>t. t \<notin> ts \<longrightarrow> viewOf L uj' t = viewOf L uj t)"

lemma sameConditions_refl [simp]: "sameConditions L ts uj uj"
  by (simp add: sameConditions_def)

text \<open>Two versions of a job with the same verdict: the handlers go on with such a version of the job they read
  until they decide over the job.\<close>

definition verdictTypes :: "string set" where
  "verdictTypes = {UpgradeJobConditionStarted, UpgradeJobConditionSucceeded, UpgradeJobConditionFailed}"

definition sameVerdict :: "'z lib_scheme \<Rightarrow> UpgradeJob \<Rightarrow> UpgradeJob \<Rightarrow> bool" where
  "sameVerdict L uj uj' \<longleftrightarrow> sameObject uj uj' \<and> (\<forall>t \<in> verdictTypes. viewOf L uj' t = viewOf L uj t)"

lemma sameVerdict_refl [simp]: "sameVerdict L uj uj"
  by (simp add: sameVerdict_def)

lemma sameVerdict_object: "sameVerdict L uj uj' \<Longrightarrow> sameObject uj uj'"
  by (simp add: sameVerdict_def)

lemma sameVerdict_conditions:
  "sameObject uj uj' \<Longrightarrow> sameConditions L ts uj uj' \<Longrightarrow> ts \<inter> verdictTypes = {} \<Longrightarrow> sameVerdict L uj uj'"
  by (auto simp: sameVerdict_def sameConditions_def)

lemma sameVerdict_trans: "sameVerdict L a b \<Longrightarrow> sameVerdict L b c \<Longrightarrow> sameVerdict L a c"
  by (auto simp: sameVerdict_def intro: sameObject_trans)

lemma verdictTypes_others [simp]:
  "UpgradeJobConditionMachineConfigPoolsPaused \<notin> verdictTypes" "UpgradeJobConditionPaused \<notin> verdictTypes"
  "UpgradeJobConditionPreHealthCheckDone \<notin> verdictTypes" "UpgradeJobConditionPostHealthCheckDone \<notin> verdictTypes"
  "UpgradeJobConditionUpgradeCompleted \<notin> verdictTypes"
  by (simp_all add: verdictTypes_def)

context condition_laws
begin

lemma view_SetStatusCondition:
  "viewOf L (uj\<lparr>uj_Conditions := fst (SetStatusCondition L (uj_Conditions uj) (c\<lparr>LastTransitionTime := now\<rparr>))\<rparr>)
     = (viewOf L uj)(Type c := Some (Status c, Reason c))"
proof
  fix t
  show "viewOf L (uj\<lparr>uj_Conditions := fst (SetStatusCondition L (uj_Conditions uj) (c\<lparr>LastTransitionTime := now\<rparr>))\<rparr>) t
     = ((viewOf L uj)(Type c := Some (Status c, Reason c))) t"
    using set_status [of "uj_Conditions uj" "c\<lparr>LastTransitionTime := now\<rparr>"]
      set_other [of t "c\<lparr>LastTransitionTime := now\<rparr>" "uj_Conditions uj"]
    by (auto simp: viewOf_def)
qed

lemma view_statusWith: "statusWith L uj c sent \<Longrightarrow> viewOf L sent = (viewOf L uj)(Type c := Some (Status c, Reason c))"
  by (auto simp: statusWith_def view_SetStatusCondition)

lemma view_sameJob:
  assumes "sameJob a b"
  shows "viewOf L b = viewOf L a"
proof
  fix t
  have key: "map (\<lambda>c. (Type c, Status c, Reason c, Message c)) (uj_Conditions b)
      = map (\<lambda>c. (Type c, Status c, Reason c, Message c)) (uj_Conditions a)"
    using assms by (simp add: sameJob_def conditionsKey_def)
  show "viewOf L b t = viewOf L a t"
    unfolding viewOf_def by (rule find_upto_time [OF key])
qed

lemma reached_true: "reached (viewOf L uj) t \<longleftrightarrow> IsStatusConditionTrue L (uj_Conditions uj) t"
  by (auto simp: reached_def viewOf_def is_true)

lemma view_true: "viewOf L a t = viewOf L b t
    \<Longrightarrow> IsStatusConditionTrue L (uj_Conditions a) t = IsStatusConditionTrue L (uj_Conditions b) t"
  unfolding reached_true [symmetric] by (simp add: reached_def)

lemma statusWith_true:
  assumes "statusWith L uj c sent" and "sameJob sent uj'"
  shows "IsStatusConditionTrue L (uj_Conditions uj') t \<longleftrightarrow>
    (if t = Type c then Status c = ConditionTrue else IsStatusConditionTrue L (uj_Conditions uj) t)"
proof -
  from assms(2) have "IsStatusConditionTrue L (uj_Conditions uj') t = IsStatusConditionTrue L (uj_Conditions sent) t"
    by (intro view_true) (simp add: view_sameJob)
  with assms(1) show ?thesis by (auto simp: statusWith_def true_set)
qed

lemma statusWith_sameConditions:
  "statusWith L uj c sent \<Longrightarrow> sameJob sent uj' \<Longrightarrow> sameConditions L {Type c} uj uj'"
  by (simp add: sameConditions_def view_sameJob view_statusWith)

lemma statusWith_sameVerdict:
  assumes "sameVerdict L uj uj'" and "statusWith L uj' c sent" and "sameJob sent uj2" and "Type c \<notin> verdictTypes"
  shows "sameVerdict L uj uj2"
proof -
  have "sameObject uj' uj2" using assms(2,3) by (auto simp: statusWith_def sameJob_def sameObject_def)
  with statusWith_sameConditions [OF assms(2,3)] assms(4) have "sameVerdict L uj' uj2"
    by (intro sameVerdict_conditions) auto
  with assms(1) show ?thesis by (rule sameVerdict_trans)
qed

end

end
