(* ===== verification/Api_Server.thy ===== *)
theory Api_Server
  imports UpgradeJob_Client
begin

text \<open>
  A small API server, the instance at which hypotheses about the API are discharged. It keeps the
  objects of a cluster in lists, refuses an update whose resource version is not the stored one,
  and gives every stored object a new resource version. Its clock stands still. Nothing in the
  repository corresponds to it.
\<close>

record cluster =
  s_time :: time
  s_jobs :: "UpgradeJob list"
  s_versions :: "ClusterVersion list"
  s_hooks :: "UpgradeJobHook list"
  s_batch :: "Job list"
  s_pools :: "MachineConfigPool list"
  s_windows :: "UpgradeSuspensionWindow list"

definition emptyCluster :: cluster where
  "emptyCluster = \<lparr>s_time = 0, s_jobs = [], s_versions = [], s_hooks = [], s_batch = [],
     s_pools = [], s_windows = []\<rparr>"

definition sameName :: "'y ObjectMeta_scheme \<Rightarrow> 'z ObjectMeta_scheme \<Rightarrow> bool" where
  "sameName a b \<longleftrightarrow> Namespace a = Namespace b \<and> Name a = Name b"

definition bump :: "'z ObjectMeta_scheme \<Rightarrow> 'z ObjectMeta_scheme" where
  "bump x = x\<lparr>ResourceVersion := CHR ''1'' # ResourceVersion x\<rparr>"

fun getObject :: "string \<Rightarrow> string \<Rightarrow> 'z ObjectMeta_scheme list \<Rightarrow> error + 'z ObjectMeta_scheme" where
  "getObject ns n [] = Inl (ApiError NotFound n)"
| "getObject ns n (x # xs) =
     (if Namespace x = ns \<and> Name x = n then Inr x else getObject ns n xs)"

text \<open>An update stores the object as sent. For a status update this is the same as storing the
  status only, because the controller sends the rest as it read it and an update of an object that
  changed since is refused.\<close>

fun putObject :: "'z ObjectMeta_scheme \<Rightarrow> 'z ObjectMeta_scheme list
    \<Rightarrow> (error + 'z ObjectMeta_scheme) \<times> 'z ObjectMeta_scheme list" where
  "putObject x [] = (Inl (ApiError NotFound (Name x)), [])"
| "putObject x (y # ys) =
     (if sameName x y then
        if ResourceVersion x = ResourceVersion y then let z = bump x in (Inr z, z # ys)
        else (Inl (ApiError Conflict (Name x)), y # ys)
      else case putObject x ys of (res, zs) \<Rightarrow> (res, y # zs))"

definition createObject :: "'z ObjectMeta_scheme \<Rightarrow> 'z ObjectMeta_scheme list
    \<Rightarrow> (error + 'z ObjectMeta_scheme) \<times> 'z ObjectMeta_scheme list" where
  "createObject x xs = (if list_ex (sameName x) xs then (Inl (ApiError AlreadyExists (Name x)), xs)
     else let z = bump x in (Inr z, xs @ [z]))"

definition inNamespace :: "string \<Rightarrow> 'z ObjectMeta_scheme list \<Rightarrow> 'z ObjectMeta_scheme list" where
  "inNamespace ns xs = filter (\<lambda>x. Namespace x = ns) xs"

text \<open>A list with labels: the four labels a hook job carries are the only ones asked for.\<close>

definition hasLabels :: "string list \<Rightarrow> (string \<rightharpoonup> string) \<Rightarrow> 'z ObjectMeta_scheme \<Rightarrow> bool" where
  "hasLabels ks ls x \<longleftrightarrow> list_all (\<lambda>k. ls k = None \<or> Labels x k = ls k) ks"

definition hookLabelKeys :: "string list" where
  "hookLabelKeys = map (\<lambda>k. ''upgradejobs.managedupgrade.appuio.io/'' @ k)
     [''upgradejobhook'', ''upgradejobk'', ''event'', ''tracking-key'']"

definition refServer :: "cluster UpgradeJobReconciler" where
  "refServer = \<lparr>
     c_getUpgradeJob = (\<lambda>nn s. (getObject (nn_Namespace nn) (nn_Name nn) (s_jobs s), s)),
     c_statusUpdateUpgradeJob = (\<lambda>uj s. case putObject uj (s_jobs s) of
       (res, xs) \<Rightarrow> (res, s\<lparr>s_jobs := xs\<rparr>)),
     c_getClusterVersion = (\<lambda>n s. (getObject '''' n (s_versions s), s)),
     c_updateClusterVersion = (\<lambda>cv s. case putObject cv (s_versions s) of
       (res, xs) \<Rightarrow> (res, s\<lparr>s_versions := xs\<rparr>)),
     c_listHooks = (\<lambda>ns s. (Inr (inNamespace ns (s_hooks s)), s)),
     c_statusUpdateHook = (\<lambda>h s. case putObject h (s_hooks s) of
       (res, xs) \<Rightarrow> (res, s\<lparr>s_hooks := xs\<rparr>)),
     c_listJobs = (\<lambda>ns ls s. (Inr (filter (hasLabels hookLabelKeys ls) (inNamespace ns (s_batch s))), s)),
     c_createJob = (\<lambda>j s. case createObject j (s_batch s) of
       (res, xs) \<Rightarrow> (res, s\<lparr>s_batch := xs\<rparr>)),
     c_updateJob = (\<lambda>j s. case putObject j (s_batch s) of
       (res, xs) \<Rightarrow> (res, s\<lparr>s_batch := xs\<rparr>)),
     c_listPools = (\<lambda>sel s. (Inr (case sel of None \<Rightarrow> s_pools s
       | Some l \<Rightarrow> filter (\<lambda>p. Matches l (Labels p)) (s_pools s)), s)),
     c_updatePool = (\<lambda>p s. case putObject p (s_pools s) of
       (res, xs) \<Rightarrow> (res, s\<lparr>s_pools := xs\<rparr>)),
     c_listWindows = (\<lambda>ns s. (Inr (inNamespace ns (s_windows s)), s)),
     c_now = (\<lambda>s. (s_time s, s)),
     ManagedUpstreamClusterVersionName = ''version''\<rparr>"

lemma getObject_name: "getObject ns n xs = Inr x \<Longrightarrow> Namespace x = ns \<and> Name x = n \<and> x \<in> set xs"
  by (induction xs) (auto split: if_splits)

lemma putObject_Inr: "fst (putObject x xs) = Inr z \<Longrightarrow> z = bump x"
  by (induction xs) (auto simp: Let_def split: if_splits prod.splits)

interpretation refServer: job_api refServer
proof
  show "Namespace uj = nn_Namespace nn \<and> Name uj = nn_Name nn"
    if "answers (c_getUpgradeJob refServer nn) (Inr uj)" for nn uj
  proof -
    from that obtain s :: cluster where "getObject (nn_Namespace nn) (nn_Name nn) (s_jobs s) = Inr uj"
      unfolding answers_def refServer_def by auto
    from getObject_name [OF this] show ?thesis by simp
  qed
  show "sameJob uj uj'" if "answers (c_statusUpdateUpgradeJob refServer uj) (Inr uj')" for uj uj'
  proof -
    from that obtain s :: cluster where "fst (putObject uj (s_jobs s)) = Inr uj'"
      unfolding answers_def refServer_def by (auto simp: case_prod_beta)
    then have "uj' = bump uj" by (rule putObject_Inr)
    then show ?thesis by (simp add: bump_def sameJob_def sameObject_def)
  qed
qed

end
