(* ===== verification/Hook_Jobs.thy ===== *)
theory Hook_Jobs
  imports UpgradeJob_Client Health_Check
begin

text \<open>
  The hooks of an upgrade job (\<^verbatim>\<open>controllers/upgradejob_controller.go\<close>): the names, labels and environment
  of the Kubernetes jobs that run them, the creation of these jobs, the tracking of their outcome
  in the status of the upgrade job, and \<open>executeHooks\<close>, which decides whether the upgrade goes on.
\<close>

abbreviation UpgradeJobHookJobTrackerFinalizer :: string where
  "UpgradeJobHookJobTrackerFinalizer \<equiv> ''upgradejobs.managedupgrade.appuio.io/hook-job-tracker''"
abbreviation hookJobTrackingLabelUpgradeJobHook :: string where
  "hookJobTrackingLabelUpgradeJobHook \<equiv> ''upgradejobs.managedupgrade.appuio.io/upgradejobhook''"
abbreviation hookJobTrackingLabelUpgradeJob :: string where
  "hookJobTrackingLabelUpgradeJob \<equiv> ''upgradejobs.managedupgrade.appuio.io/upgradejobk''"
abbreviation hookJobTrackingLabelEvent :: string where
  "hookJobTrackingLabelEvent \<equiv> ''upgradejobs.managedupgrade.appuio.io/event''"
abbreviation hookJobTrackingLabelTrackingKey :: string where
  "hookJobTrackingLabelTrackingKey \<equiv> ''upgradejobs.managedupgrade.appuio.io/tracking-key''"
abbreviation noTrackingKey :: string where "noTrackingKey \<equiv> ''''"

section \<open>Names, labels and the state of a Kubernetes job\<close>

definition toLower :: "char \<Rightarrow> char" where
  "toLower c = (let n = of_char c :: nat in if 65 \<le> n \<and> n \<le> 90 then char_of (n + 32) else c)"

definition jobName :: "'z lib_scheme \<Rightarrow> string list \<Rightarrow> string" where
  "jobName L elems = (let name = map toLower (joinWith ''-'' elems) in
     if length name > 63 then take 52 name @ ''-'' @ take 10 (Sha256Hex L name) else name)"

definition jobLabels :: "string \<Rightarrow> string \<Rightarrow> UpgradeEvent \<Rightarrow> string \<Rightarrow> (string \<rightharpoonup> string)" where
  "jobLabels job hookName event trackingKey =
     [hookJobTrackingLabelUpgradeJobHook \<mapsto> hookName,
      hookJobTrackingLabelUpgradeJob \<mapsto> job,
      hookJobTrackingLabelEvent \<mapsto> eventString event,
      hookJobTrackingLabelTrackingKey \<mapsto> trackingKey]"

fun anyFinished :: "JobCondition list \<Rightarrow> bool" where
  "anyFinished [] = False"
| "anyFinished (c # cs) =
     (if (jc_Type c = JobComplete \<or> jc_Type c = JobFailed) \<and> jc_Status c = ConditionTrue then True
      else anyFinished cs)"

definition isJobFinished :: "Job \<Rightarrow> bool" where
  "isJobFinished j = anyFinished (job_Conditions j)"

fun findFailed :: "JobCondition list \<Rightarrow> JobCondition option" where
  "findFailed [] = None"
| "findFailed (c # cs) =
     (if jc_Type c = JobFailed \<and> jc_Status c = ConditionTrue then Some c else findFailed cs)"

definition jobFailedCondition :: "Job \<Rightarrow> JobCondition option" where
  "jobFailedCondition j = findFailed (job_Conditions j)"

text \<open>\<open>hookStatusFromJob\<close> returns status, message and reason.\<close>

definition hookStatusFromJob :: "Job \<Rightarrow> HookJobTrackerStatus \<times> string \<times> string" where
  "hookStatusFromJob j =
     (if isJobFinished j
      then case jobFailedCondition j of
          Some c \<Rightarrow> (HookJobTrackerStatusFailed, jc_Message c, jc_Reason c)
        | None \<Rightarrow> (HookJobTrackerStatusComplete, '''', '''')
      else (HookJobTrackerStatusActive, '''', ''''))"

fun findTracked :: "string \<Rightarrow> string \<Rightarrow> string \<Rightarrow> HookJobTracker list \<Rightarrow> HookJobTracker list" where
  "findTracked ujhookName event trackingKey [] = []"
| "findTracked ujhookName event trackingKey (h # hs) =
     (if UpgradeJobHookName h = ujhookName \<and> HookEvent h = event \<and> TrackingKey h = trackingKey
      then h # findTracked ujhookName event trackingKey hs
      else findTracked ujhookName event trackingKey hs)"

definition findTrackedHookJob :: "string \<Rightarrow> string \<Rightarrow> string \<Rightarrow> UpgradeJob \<Rightarrow> HookJobTracker list" where
  "findTrackedHookJob ujhookName event trackingKey uj =
     findTracked ujhookName event trackingKey (uj_HookJobTracker uj)"

section \<open>The environment of a hook job\<close>

text \<open>\<open>[^a-zA-Z0-9_]\<close> replaced by an underscore.\<close>

definition envVarAllowed :: "char \<Rightarrow> bool" where
  "envVarAllowed c = (let n = of_char c :: nat in
     (97 \<le> n \<and> n \<le> 122) \<or> (65 \<le> n \<and> n \<le> 90) \<or> (48 \<le> n \<and> n \<le> 57) \<or> c = CHR ''_'')"

definition cleanEnvVarName :: "string \<Rightarrow> string" where
  "cleanEnvVarName name = map (\<lambda>c. if envVarAllowed c then c else CHR ''_'') name"

definition fmtPrefix :: "string \<Rightarrow> string" where
  "fmtPrefix s = (if s \<noteq> '''' then s @ ''_'' else s)"

fun flattenInto :: "string \<Rightarrow> json \<Rightarrow> (string \<times> json) list \<Rightarrow> (string \<times> json) list"
and flattenObj :: "string \<Rightarrow> (string \<times> json) list \<Rightarrow> (string \<times> json) list \<Rightarrow> (string \<times> json) list"
and flattenArr :: "string \<Rightarrow> nat \<Rightarrow> json list \<Rightarrow> (string \<times> json) list \<Rightarrow> (string \<times> json) list"
where
  "flattenInto prefix (JObj ob) target = flattenObj prefix ob target"
| "flattenInto prefix (JArr ob) target = flattenArr prefix 0 ob target"
| "flattenInto prefix v target = mapUpdate prefix v target"
| "flattenObj prefix [] target = target"
| "flattenObj prefix ((k, v) # ob) target =
     flattenObj prefix ob (flattenInto (fmtPrefix prefix @ cleanEnvVarName k) v target)"
| "flattenArr prefix i [] target = target"
| "flattenArr prefix i (v # vs) target =
     flattenArr prefix (Suc i) vs (flattenInto (fmtPrefix prefix @ natString i) v target)"

text \<open>The event object of \<open>createHookJob\<close>: the extra information, then the name of the event.\<close>

definition normalizedEvent :: "(string \<times> string) list \<Rightarrow> UpgradeEvent \<Rightarrow> (string \<times> json) list" where
  "normalizedEvent addEventInfo event =
     mapUpdate ''name'' (JStr (eventString event)) (map (\<lambda>(k, v). (k, JStr v)) addEventInfo)"

record hookJobMeta =
  MatchesDisruptiveHooks :: bool

definition normalizedMeta :: "hookJobMeta \<Rightarrow> (string \<times> json) list" where
  "normalizedMeta m = [(''matchesDisruptiveHooks'', JBool (MatchesDisruptiveHooks m))]"

definition eventInfoWithReason :: "string \<Rightarrow> (string \<times> string) list" where
  "eventInfoWithReason reason = [(''reason'', reason)]"

definition eventInfoUnpause :: "string \<Rightarrow> string \<Rightarrow> (string \<times> string) list" where
  "eventInfoUnpause reason mcpName = [(''pool'', mcpName), (''reason'', reason)]"

text \<open>The map \<^verbatim>\<open>evm\<close> of environment values.\<close>

definition hookEnvMap :: "(string \<times> json) list \<Rightarrow> (string \<times> json) list \<Rightarrow> (string \<times> json) list \<Rightarrow> (string \<times> json) list" where
  "hookEnvMap ev uj meta =
     flattenInto ''META'' (JObj meta)
       (flattenInto ''JOB'' (JObj uj)
         (flattenInto ''EVENT'' (JObj ev)
           [(''EVENT'', JObj ev), (''JOB'', JObj uj), (''META'', JObj meta)]))"

text \<open>The environment variables; a value that cannot be marshalled is left out.\<close>

fun marshalEnv :: "'z lib_scheme \<Rightarrow> (string \<times> json) list \<Rightarrow> EnvVar list" where
  "marshalEnv L [] = []"
| "marshalEnv L ((k, v) # m) = (case MarshalJSON L v of
     Inl _ \<Rightarrow> marshalEnv L m
   | Inr mv \<Rightarrow> \<lparr>env_Name = k, env_Value = mv\<rparr> # marshalEnv L m)"

definition compareEnv :: "EnvVar \<Rightarrow> EnvVar \<Rightarrow> int" where
  "compareEnv a b = strCompare (env_Name a) (env_Name b)"

definition addEnv :: "EnvVar list \<Rightarrow> Container \<Rightarrow> Container" where
  "addEnv envs c = c\<lparr>Env := Env c @ envs\<rparr>"

section \<open>Creating a hook job\<close>

definition createHookJob ::
  "'z lib_scheme \<Rightarrow> 's UpgradeJobReconciler \<Rightarrow> UpgradeJobHook \<Rightarrow> UpgradeJob \<Rightarrow> UpgradeEvent \<Rightarrow> string
     \<Rightarrow> (string \<times> string) list \<Rightarrow> hookJobMeta \<Rightarrow> ('s, error + Job) uj_io"
where
  "createHookJob L r hook uj event trackingKey addEventInfo meta =
     (let tmpl = Template (hk_Spec hook);
          ll = Labels tmpl ++ jobLabels (Name uj) (Name hook) event trackingKey
      in case NormalizeUpgradeJob L uj of
        Inl e \<Rightarrow> ret (Inl (Errorf ''failed to normalize upgrade job'' e))
      | Inr normalizedUJ \<Rightarrow>
         (let evm = hookEnvMap (normalizedEvent addEventInfo event) normalizedUJ (normalizedMeta meta);
              envs = SortEnv L compareEnv (marshalEnv L evm);
              jspec = \<lparr>InitContainers = map (addEnv envs) (InitContainers (jt_Spec tmpl)),
                       Containers = map (addEnv envs) (Containers (jt_Spec tmpl))\<rparr>
          in case SetControllerReference L (ObjectMeta.truncate uj) [] of
            Inl e \<Rightarrow> ret (Inl (Errorf ''failed to set controller reference'' e))
          | Inr owners \<Rightarrow> do {
              res \<leftarrow> createJobObject r
                \<lparr>Kind = '''', APIVersion = '''',
                 Name = jobName L [Name uj, Name hook, eventString event, ''hook''],
                 Namespace = Namespace uj, UID = '''', ResourceVersion = '''',
                 Labels = ll, Annotations = Annotations tmpl,
                 CreationTimestamp = zeroTime, DeletionTimestamp = None,
                 DeletionGracePeriodSeconds = None,
                 Finalizers = [UpgradeJobHookJobTrackerFinalizer],
                 OwnerReferences = owners, job_Spec = jspec, job_Conditions = []\<rparr>;
              ret (case res of
                Inl e \<Rightarrow> Inl (Errorf ''failed to create hook job'' e)
              | Inr job \<Rightarrow> Inr job)
            }))"

text \<open>The trackers of the jobs the list returned.\<close>

definition trackerOfJob :: "UpgradeEvent \<Rightarrow> string \<Rightarrow> string \<Rightarrow> Job \<Rightarrow> HookJobTracker" where
  "trackerOfJob event trackingKey hookName job = (case hookStatusFromJob job of (st, msg, rsn) \<Rightarrow>
     \<lparr>HookEvent = eventString event, TrackingKey = trackingKey, UpgradeJobHookName = hookName,
      ht_Status = st, ht_Message = msg, ht_Reason = rsn\<rparr>)"

definition jobForUpgradeJobAndHook ::
  "'z lib_scheme \<Rightarrow> 's UpgradeJobReconciler \<Rightarrow> UpgradeJob \<Rightarrow> UpgradeJobHook \<Rightarrow> UpgradeEvent \<Rightarrow> string
     \<Rightarrow> (string \<times> string) list \<Rightarrow> hookJobMeta \<Rightarrow> ('s, error + HookJobTracker list) uj_io"
where
  "jobForUpgradeJobAndHook L r uj hook event trackingKey addEventInfo meta = do {
     jobs \<leftarrow> listJobs r (Namespace uj) (jobLabels (Name uj) (Name hook) event trackingKey);
     case jobs of
       Inl e \<Rightarrow> ret (Inl e)
     | Inr items \<Rightarrow>
        (let jobStatus = findTrackedHookJob (Name hook) (eventString event) trackingKey uj
                           @ map (trackerOfJob event trackingKey (Name hook)) items
         in if jobStatus \<noteq> [] then ret (Inr jobStatus)
         else do {
           res \<leftarrow> createHookJob L r hook uj event trackingKey addEventInfo meta;
           ret (case res of
             Inl e \<Rightarrow> Inl e
           | Inr _ \<Rightarrow> Inr [\<lparr>HookEvent = eventString event, TrackingKey = trackingKey,
               UpgradeJobHookName = Name hook, ht_Status = HookJobTrackerStatusActive,
               ht_Message = '''', ht_Reason = ''''\<rparr>])
         })
   }"

section \<open>executeHooks\<close>

text \<open>The first loop: the hooks that match, claimed. A claim that has to be recorded is written
  before the next hook is looked at; the hook variable then holds what the server returned.\<close>

fun claimHooks ::
  "'z lib_scheme \<Rightarrow> 's UpgradeJobReconciler \<Rightarrow> UpgradeJob \<Rightarrow> UpgradeEvent \<Rightarrow> time
     \<Rightarrow> UpgradeJobHook list \<Rightarrow> UpgradeJobHook list \<Rightarrow> ('s, error + UpgradeJobHook list) uj_io"
where
  "claimHooks L r uj event cutoffTime [] hooks = ret (Inr hooks)"
| "claimHooks L r uj event cutoffTime (hook # rest) hooks =
     (if event \<notin> set (Events (hk_Spec hook))
      then claimHooks L r uj event cutoffTime rest hooks
      else if cutoffTime \<noteq> zeroTime \<and> CreationTimestamp hook > cutoffTime
      then claimHooks L r uj event cutoffTime rest hooks
      else case LabelSelectorAsSelector L (Some (hk_Selector (hk_Spec hook))) of
        Inl e \<Rightarrow> claimHooks L r uj event cutoffTime rest hooks
      | Inr sel \<Rightarrow>
         if \<not> Matches sel (Labels uj) then claimHooks L r uj event cutoffTime rest hooks
         else case Claim hook uj of (hook', ok, upd) \<Rightarrow>
           if ok then
             if upd then do {
               res \<leftarrow> statusUpdateHook r hook';
               case res of
                 Inl e \<Rightarrow> ret (Inl e)
               | Inr hook'' \<Rightarrow> claimHooks L r uj event cutoffTime rest (hooks @ [hook''])
             }
             else claimHooks L r uj event cutoffTime rest (hooks @ [hook'])
           else claimHooks L r uj event cutoffTime rest hooks)"

record hookOutcome =
  activeJobs :: "string list"
  hookErrors :: "error list"
  failedJobs :: "string list"
  jobsRequestingUpgradeSkip :: "string list"

definition emptyOutcome :: hookOutcome where
  "emptyOutcome = \<lparr>activeJobs = [], hookErrors = [], failedJobs = [], jobsRequestingUpgradeSkip = []\<rparr>"

text \<open>The inner loop over the jobs of one hook.\<close>

fun classifyJobs :: "UpgradeJobHook \<Rightarrow> HookJobTracker list \<Rightarrow> hookOutcome \<Rightarrow> hookOutcome" where
  "classifyJobs hook [] a = a"
| "classifyJobs hook (job # jobs) a =
     (if ht_Status job = HookJobTrackerStatusActive
      then classifyJobs hook jobs (a\<lparr>activeJobs := activeJobs a @ [UpgradeJobHookName job]\<rparr>)
      else if ht_Status job = HookJobTrackerStatusFailed
      then classifyJobs hook jobs
        (if PodFailurePolicySkipsUpgrade (hk_Spec hook)
            \<and> hasPrefix (ht_Reason job) HookJobTrackerReasonPodFailurePolicy
         then a\<lparr>jobsRequestingUpgradeSkip := jobsRequestingUpgradeSkip a @
                  [''hook '' @ quoted (Name hook) @ '' caused upgrade skip: '' @ ht_Message job]\<rparr>
         else if GetFailurePolicy (hk_Spec hook) = FailurePolicyIgnore then a
         else a\<lparr>failedJobs := failedJobs a @
                  [''hook '' @ quoted (Name hook) @ '' failed: '' @ ht_Message job]\<rparr>)
      else classifyJobs hook jobs a)"

fun runHooks ::
  "'z lib_scheme \<Rightarrow> 's UpgradeJobReconciler \<Rightarrow> UpgradeJob \<Rightarrow> UpgradeEvent \<Rightarrow> string
     \<Rightarrow> (string \<times> string) list \<Rightarrow> hookJobMeta \<Rightarrow> UpgradeJobHook list \<Rightarrow> hookOutcome \<Rightarrow> ('s, hookOutcome) uj_io"
where
  "runHooks L r uj event trackingKey addEventInfo meta [] a = ret a"
| "runHooks L r uj event trackingKey addEventInfo meta (hook # hooks) a = do {
     res \<leftarrow> jobForUpgradeJobAndHook L r uj hook event trackingKey addEventInfo meta;
     runHooks L r uj event trackingKey addEventInfo meta hooks (case res of
       Inl e \<Rightarrow> a\<lparr>hookErrors := hookErrors a @ [e]\<rparr>
     | Inr jobs \<Rightarrow> classifyJobs hook jobs a)
   }"

text \<open>The end of \<open>executeHooks\<close> (lines 571--607): what the collected jobs mean. It returns the job
  variable, changed when a hook decided the outcome, and the pair of Go results: an error, or whether
  the hooks of the event are done.\<close>

definition hookVerdict ::
  "'z lib_scheme \<Rightarrow> 's UpgradeJobReconciler \<Rightarrow> UpgradeJob \<Rightarrow> UpgradeEvent \<Rightarrow> hookOutcome
     \<Rightarrow> ('s, UpgradeJob \<times> (error + bool)) uj_io"
where
  "hookVerdict L r uj event a = (case Combine L (map Some (hookErrors a)) of
     Some e \<Rightarrow> ret (uj, Inl e)
   | None \<Rightarrow>
      if activeJobs a \<noteq> [] then ret (uj, Inr False)
      else let jobFinished =
             FindStatusCondition L (uj_Conditions uj) UpgradeJobConditionSucceeded \<noteq> None \<or>
             FindStatusCondition L (uj_Conditions uj) UpgradeJobConditionFailed \<noteq> None
        in if failedJobs a \<noteq> [] \<and> InfluencesOutcome event \<and> \<not> jobFinished then do {
             (uj, err) \<leftarrow> setConditionAndUpdate L r uj
               (newCondition UpgradeJobConditionFailed ConditionTrue UpgradeJobReasonHookFailed
                 (joinWith '', '' (failedJobs a)));
             ret (uj, case err of Some e \<Rightarrow> Inl e | None \<Rightarrow> Inr False)
           }
        else if jobsRequestingUpgradeSkip a \<noteq> [] \<and> CanSkipUpdate event \<and> \<not> jobFinished then do {
             (uj, err) \<leftarrow> setConditionAndUpdate L r uj
               (newCondition UpgradeJobConditionSucceeded ConditionTrue
                 UpgradeJobReasonHookRequestedSkip (joinWith '', '' (jobsRequestingUpgradeSkip a)));
             ret (uj, case err of Some e \<Rightarrow> Inl e | None \<Rightarrow> Inr False)
           }
        else ret (uj, Inr True))"

definition executeHooks ::
  "'z lib_scheme \<Rightarrow> 's UpgradeJobReconciler \<Rightarrow> UpgradeJob \<Rightarrow> UpgradeEvent \<Rightarrow> string
     \<Rightarrow> (string \<times> string) list \<Rightarrow> time \<Rightarrow> ('s, UpgradeJob \<times> (error + bool)) uj_io"
where
  "executeHooks L r uj event trackingKey addEventInfo cutoffTime = do {
     allHooks \<leftarrow> listHooks r (Namespace uj);
     case allHooks of
       Inl e \<Rightarrow> ret (uj, Inl (Errorf ''failed to list hooks'' e))
     | Inr items \<Rightarrow> do {
        claimed \<leftarrow> claimHooks L r uj event cutoffTime items [];
        case claimed of
          Inl e \<Rightarrow> ret (uj, Inl e)
        | Inr hooks \<Rightarrow> do {
           a \<leftarrow> runHooks L r uj event trackingKey addEventInfo
                 \<lparr>MatchesDisruptiveHooks = list_ex (\<lambda>h. Disruptive (hk_Spec h)) hooks\<rparr> hooks emptyOutcome;
           hookVerdict L r uj event a
        }
     }
   }"

section \<open>Tracking\<close>

text \<open>\<^verbatim>\<open>sets.Set\<close> of trackers: a list without repetitions.\<close>

fun setInsert :: "'a \<Rightarrow> 'a list \<Rightarrow> 'a list" where
  "setInsert x xs = (if x \<in> set xs then xs else xs @ [x])"

definition setNew :: "'a list \<Rightarrow> 'a list" where
  "setNew xs = foldl (\<lambda>s x. setInsert x s) [] xs"

definition setEqual :: "'a list \<Rightarrow> 'a list \<Rightarrow> bool" where
  "setEqual s t \<longleftrightarrow> set s = set t"

text \<open>A missing label reads as the empty string.\<close>

definition labelOf :: "Job \<Rightarrow> string \<Rightarrow> string" where
  "labelOf j k = (case Labels j k of None \<Rightarrow> '''' | Some v \<Rightarrow> v)"

definition trackJob :: "Job \<Rightarrow> HookJobTracker" where
  "trackJob j = (case hookStatusFromJob j of (st, msg, rsn) \<Rightarrow>
     \<lparr>HookEvent = labelOf j hookJobTrackingLabelEvent,
      TrackingKey = labelOf j hookJobTrackingLabelTrackingKey,
      UpgradeJobHookName = labelOf j hookJobTrackingLabelUpgradeJobHook,
      ht_Status = st, ht_Message = msg, ht_Reason = rsn\<rparr>)"

fun addCompleted :: "HookJobTracker list \<Rightarrow> HookJobTracker list \<Rightarrow> HookJobTracker list" where
  "addCompleted [] s = s"
| "addCompleted (t # ts) s =
     addCompleted ts (if ht_Status t \<noteq> HookJobTrackerStatusActive then setInsert t s else s)"

definition compareTrackers :: "HookJobTracker \<Rightarrow> HookJobTracker \<Rightarrow> int" where
  "compareTrackers a b = strCompare (UpgradeJobHookName a @ HookEvent a @ TrackingKey a)
     (UpgradeJobHookName b @ HookEvent b @ TrackingKey b)"

text \<open>The two loops that remove finalizers: of the finished jobs, and of all jobs of an upgrade job
  that is gone.\<close>

fun removeFinalizers ::
  "'z lib_scheme \<Rightarrow> 's UpgradeJobReconciler \<Rightarrow> (Job \<Rightarrow> bool) \<Rightarrow> Job list \<Rightarrow> error option list
     \<Rightarrow> ('s, error option list) uj_io"
where
  "removeFinalizers L r P [] errs = ret errs"
| "removeFinalizers L r P (j # js) errs =
     (if \<not> P j then removeFinalizers L r P js errs
      else case RemoveFinalizer L (Finalizers j) UpgradeJobHookJobTrackerFinalizer of (fs, removed) \<Rightarrow>
        if removed then do {
          res \<leftarrow> updateJob r (j\<lparr>Finalizers := fs\<rparr>);
          removeFinalizers L r P js (errs @ [errOf res])
        }
        else removeFinalizers L r P js errs)"

definition cleanupHookJobTrackingFinalizers ::
  "'z lib_scheme \<Rightarrow> 's UpgradeJobReconciler \<Rightarrow> NamespacedName \<Rightarrow> ('s, error option) uj_io"
where
  "cleanupHookJobTrackingFinalizers L r nn = do {
     jl \<leftarrow> listJobs r (nn_Namespace nn) [hookJobTrackingLabelUpgradeJob \<mapsto> nn_Name nn];
     case jl of
       Inl e \<Rightarrow> ret (Some e)
     | Inr items \<Rightarrow> do {
        errs \<leftarrow> removeFinalizers L r (\<lambda>_. True) items [];
        ret (Combine L errs)
     }
   }"

definition trackHookJobs ::
  "'z lib_scheme \<Rightarrow> 's UpgradeJobReconciler \<Rightarrow> NamespacedName \<Rightarrow> ('s, error option) uj_io"
where
  "trackHookJobs L r req = do {
     got \<leftarrow> getUpgradeJob r req;
     case got of
       Inl e \<Rightarrow> if IsNotFound L e then cleanupHookJobTrackingFinalizers L r req else ret (Some e)
     | Inr uj \<Rightarrow> do {
        jl \<leftarrow> listJobs r (Namespace uj) [hookJobTrackingLabelUpgradeJob \<mapsto> Name uj];
        case jl of
          Inl e \<Rightarrow> ret (Some e)
        | Inr items \<Rightarrow>
           (let currentAndCompleted = addCompleted (uj_HookJobTracker uj) (setNew (map trackJob items))
            in if \<not> setEqual (setNew (uj_HookJobTracker uj)) currentAndCompleted then do {
                 res \<leftarrow> statusUpdateUpgradeJob r (uj\<lparr>uj_HookJobTracker :=
                   SortTrackers L compareTrackers (UnsortedTrackers L currentAndCompleted)\<rparr>);
                 case res of
                   Inl e \<Rightarrow> ret (Some e)
                 | Inr _ \<Rightarrow> do {
                     errs \<leftarrow> removeFinalizers L r isJobFinished items [];
                     ret (Combine L errs)
                   }
               }
               else do {
                 errs \<leftarrow> removeFinalizers L r isJobFinished items [];
                 ret (Combine L errs)
               })
     }
   }"

section \<open>Names and environment\<close>

lemma length_jobName: "length (jobName L elems) \<le> 63"
  by (auto simp: jobName_def Let_def)

text \<open>The name of a hook job fits the 63 characters of a label value; a name that fits is the
  elements joined by dashes in lower case, a longer one keeps its first 52 characters and gets a dash
  and the first ten digits of its digest.\<close>

theorem jobName_fits:
  "length (jobName L elems) \<le> 63 \<and>
   (let name = map toLower (joinWith ''-'' elems) in
     if length name \<le> 63 then jobName L elems = name
     else take 53 (jobName L elems) = take 52 name @ ''-''
       \<and> drop 53 (jobName L elems) = take 10 (Sha256Hex L name))"
  using length_jobName by (auto simp: jobName_def Let_def)

section \<open>The protocol of executeHooks\<close>

text \<open>A hook the event concerns, and a hook the job may run: one it need not claim, or one the
  server confirmed the claim of.\<close>

definition hookMatches ::
  "'z lib_scheme \<Rightarrow> UpgradeJob \<Rightarrow> UpgradeEvent \<Rightarrow> time \<Rightarrow> UpgradeJobHook \<Rightarrow> bool"
where
  "hookMatches L uj event cutoffTime hook \<longleftrightarrow> event \<in> set (Events (hk_Spec hook))
     \<and> (cutoffTime = zeroTime \<or> CreationTimestamp hook \<le> cutoffTime)
     \<and> (case LabelSelectorAsSelector L (Some (hk_Selector (hk_Spec hook))) of
          Inl _ \<Rightarrow> False | Inr sel \<Rightarrow> Matches sel (Labels uj))"

definition listedHook :: "UpgradeJob \<Rightarrow> ujCall list \<Rightarrow> UpgradeJobHook \<Rightarrow> bool" where
  "listedHook uj h hook \<longleftrightarrow>
     (\<exists>items. ListHooks (Namespace uj) (Inr items) \<in> set h \<and> hook \<in> set items)"

definition claimedIn ::
  "'z lib_scheme \<Rightarrow> UpgradeJob \<Rightarrow> UpgradeEvent \<Rightarrow> time \<Rightarrow> ujCall list \<Rightarrow> UpgradeJobHook \<Rightarrow> bool"
where
  "claimedIn L uj event cutoffTime h hook \<longleftrightarrow>
     (\<exists>orig. listedHook uj h orig \<and> hookMatches L uj event cutoffTime orig \<and>
        (Claim orig uj = (hook, True, False)
         \<or> (\<exists>sent. Claim orig uj = (sent, True, True) \<and> StatusUpdateHook sent (Inr hook) \<in> set h)))"

text \<open>What the job list of a hook showed: the trackers the job already has and those of the listed
  jobs.\<close>

definition hookSeen ::
  "UpgradeJob \<Rightarrow> UpgradeEvent \<Rightarrow> string \<Rightarrow> ujCall list \<Rightarrow> UpgradeJobHook \<Rightarrow> HookJobTracker list \<Rightarrow> bool"
where
  "hookSeen uj event trackingKey h hook ts \<longleftrightarrow>
     (\<exists>items. ListJobs (Namespace uj) (jobLabels (Name uj) (Name hook) event trackingKey) (Inr items) \<in> set h
        \<and> ts = findTrackedHookJob (Name hook) (eventString event) trackingKey uj
               @ map (trackerOfJob event trackingKey (Name hook)) items)"

definition requestsSkip :: "UpgradeJobHook \<Rightarrow> HookJobTracker \<Rightarrow> bool" where
  "requestsSkip hook t \<longleftrightarrow> ht_Status t = HookJobTrackerStatusFailed
     \<and> PodFailurePolicySkipsUpgrade (hk_Spec hook)
     \<and> hasPrefix (ht_Reason t) HookJobTrackerReasonPodFailurePolicy"

definition aborts :: "UpgradeJobHook \<Rightarrow> HookJobTracker \<Rightarrow> bool" where
  "aborts hook t \<longleftrightarrow> ht_Status t = HookJobTrackerStatusFailed \<and> \<not> requestsSkip hook t
     \<and> GetFailurePolicy (hk_Spec hook) \<noteq> FailurePolicyIgnore"

definition jobFinished :: "'z lib_scheme \<Rightarrow> UpgradeJob \<Rightarrow> bool" where
  "jobFinished L uj \<longleftrightarrow> FindStatusCondition L (uj_Conditions uj) UpgradeJobConditionSucceeded \<noteq> None
     \<or> FindStatusCondition L (uj_Conditions uj) UpgradeJobConditionFailed \<noteq> None"

text \<open>A finished job of a hook the event ran, with the outcome \<open>P\<close>.\<close>

definition hookCaused ::
  "'z lib_scheme \<Rightarrow> UpgradeJob \<Rightarrow> UpgradeEvent \<Rightarrow> string \<Rightarrow> time \<Rightarrow> ujCall list
     \<Rightarrow> (UpgradeJobHook \<Rightarrow> HookJobTracker \<Rightarrow> bool) \<Rightarrow> bool"
where
  "hookCaused L uj event trackingKey cutoffTime h P \<longleftrightarrow> (\<exists>hook ts t. claimedIn L uj event cutoffTime h hook
     \<and> hookSeen uj event trackingKey h hook ts \<and> t \<in> set ts \<and> P hook t)"

definition hookVerdictCause ::
  "'z lib_scheme \<Rightarrow> UpgradeJob \<Rightarrow> UpgradeEvent \<Rightarrow> string \<Rightarrow> time \<Rightarrow> ujCall list \<Rightarrow> Condition \<Rightarrow> bool"
where
  "hookVerdictCause L uj event trackingKey cutoffTime h c \<longleftrightarrow> \<not> jobFinished L uj \<and> Status c = ConditionTrue \<and>
     (Type c = UpgradeJobConditionFailed \<and> Reason c = UpgradeJobReasonHookFailed
        \<and> InfluencesOutcome event \<and> hookCaused L uj event trackingKey cutoffTime h aborts
      \<or> Type c = UpgradeJobConditionSucceeded \<and> Reason c = UpgradeJobReasonHookRequestedSkip
        \<and> CanSkipUpdate event \<and> hookCaused L uj event trackingKey cutoffTime h requestsSkip)"

text \<open>The calls \<open>executeHooks\<close> makes, each with what has to precede it:
  \<^item> a hook status is written only to claim a free matching hook for this job;
  \<^item> a Kubernetes job is created only for a matching hook the job may run, in the namespace of the
    upgrade job, with the labels that identify it and the finalizer that keeps it until it is
    tracked, and only when no job and no tracker exists for the same hook, event and key;
  \<^item> the status of the upgrade job is written only to mark it failed because a hook with failure
    policy \<^verbatim>\<open>Abort\<close> failed and the event influences the outcome, or skipped because a hook asked for
    it and the event allows it, and only when the job is not finished.\<close>

definition hookProtocol ::
  "'z lib_scheme \<Rightarrow> UpgradeJob \<Rightarrow> UpgradeEvent \<Rightarrow> string \<Rightarrow> time \<Rightarrow> ujCall list \<Rightarrow> ujCall \<Rightarrow> bool"
where
  "hookProtocol L uj event trackingKey cutoffTime h e = (case e of
     ListHooks ns _ \<Rightarrow> ns = Namespace uj
   | ListJobs ns _ _ \<Rightarrow> ns = Namespace uj
   | Now _ \<Rightarrow> True
   | StatusUpdateHook sent _ \<Rightarrow> (\<exists>orig. listedHook uj h orig \<and> hookMatches L uj event cutoffTime orig
       \<and> Claim orig uj = (sent, True, True))
   | CreateJob j _ \<Rightarrow> (\<exists>hook. claimedIn L uj event cutoffTime h hook \<and> hookSeen uj event trackingKey h hook []
       \<and> Namespace j = Namespace uj
       \<and> jobLabels (Name uj) (Name hook) event trackingKey \<subseteq>\<^sub>m Labels j
       \<and> Finalizers j = [UpgradeJobHookJobTrackerFinalizer])
   | StatusUpdateUpgradeJob sent _ \<Rightarrow>
       (\<exists>c. statusWith L uj c sent \<and> hookVerdictCause L uj event trackingKey cutoffTime h c)
   | _ \<Rightarrow> False)"

named_theorems history_mono \<open>facts about past calls stay true\<close>

lemma listedHook_mono [history_mono]: "listedHook uj h x \<Longrightarrow> listedHook uj (h @ es) x"
  by (auto simp: listedHook_def)

lemma claimedIn_mono [history_mono]:
  "claimedIn L uj event t h x \<Longrightarrow> claimedIn L uj event t (h @ es) x"
  unfolding claimedIn_def by (fastforce intro: history_mono)

lemma hookSeen_mono [history_mono]:
  "hookSeen uj event key h x ts \<Longrightarrow> hookSeen uj event key (h @ es) x ts"
  by (auto simp: hookSeen_def)

lemma Claim_cases:
  "Claim u c = (u', ok, upd) \<Longrightarrow> (\<not> ok \<and> \<not> upd) \<or> (ok \<and> \<not> upd \<and> u' = u) \<or> (ok \<and> upd)"
  by (auto simp: Claim_def Let_def split: if_splits)

text \<open>The first loop claims what it keeps, and keeps every matching hook it can claim.\<close>

definition hookKept :: "UpgradeJob \<Rightarrow> ujCall list \<Rightarrow> UpgradeJobHook list \<Rightarrow> UpgradeJobHook \<Rightarrow> bool" where
  "hookKept uj h hs orig \<longleftrightarrow> (\<exists>hook \<in> set hs. Claim orig uj = (hook, True, False)
     \<or> (\<exists>sent. Claim orig uj = (sent, True, True) \<and> StatusUpdateHook sent (Inr hook) \<in> set h))"

lemma claimHooks_follows:
  assumes "set items \<subseteq> set all" and "ListHooks (Namespace uj) (Inr all) \<in> set h"
    and "\<forall>x \<in> set hooks. claimedIn L uj event cutoffTime h x"
  shows "follows (hookProtocol L uj event key cutoffTime) h (claimHooks L r uj event cutoffTime items hooks)
    (\<lambda>res h'. \<forall>hs. res = Inr hs \<longrightarrow> (\<forall>x \<in> set hs. claimedIn L uj event cutoffTime h' x) \<and> set hooks \<subseteq> set hs
      \<and> (\<forall>orig \<in> set items. hookMatches L uj event cutoffTime orig \<and> WouldExecute orig uj \<longrightarrow> hookKept uj h' hs orig))"
  using assms
proof (induction items arbitrary: hooks h)
  case Nil
  then show ?case by (auto intro: follows_ret)
next
  case (Cons hook rest)
  let ?E = "hookProtocol L uj event key cutoffTime"
  let ?Q = "\<lambda>its hks res h'. \<forall>hs. res = Inr hs \<longrightarrow> (\<forall>x \<in> set hs. claimedIn L uj event cutoffTime h' x)
      \<and> set hks \<subseteq> set hs \<and> (\<forall>orig \<in> set its. hookMatches L uj event cutoffTime orig \<and> WouldExecute orig uj
        \<longrightarrow> hookKept uj h' hs orig)"
  have listed: "listedHook uj h hook" using Cons.prems by (auto simp: listedHook_def)
  have skip: "follows ?E h (claimHooks L r uj event cutoffTime rest hooks) (?Q (hook # rest) hooks)"
    if "\<not> (hookMatches L uj event cutoffTime hook \<and> WouldExecute hook uj)"
    by (rule follows_mono [OF Cons.IH [of h hooks]]) (use Cons.prems that in auto)
  show ?case
  proof (cases "hookMatches L uj event cutoffTime hook \<and> WouldExecute hook uj")
    case False
    have "claimHooks L r uj event cutoffTime (hook # rest) hooks
        = claimHooks L r uj event cutoffTime rest hooks"
      using False Claim_ok_iff_WouldExecute [of hook uj]
      by (auto simp: hookMatches_def split: sum.splits prod.splits)
    then show ?thesis using skip [OF False] by (simp only:)
  next
    case match: True
    obtain hook' upd where cl: "Claim hook uj = (hook', True, upd)"
      using match Claim_ok_iff_WouldExecute [of hook uj] by (metis prod.collapse)
    have eq: "claimHooks L r uj event cutoffTime (hook # rest) hooks =
      (if upd then do {
         res \<leftarrow> statusUpdateHook r hook';
         case res of Inl e \<Rightarrow> ret (Inl e)
         | Inr hook'' \<Rightarrow> claimHooks L r uj event cutoffTime rest (hooks @ [hook'']) }
       else claimHooks L r uj event cutoffTime rest (hooks @ [hook']))"
      using match cl by (auto simp: hookMatches_def split: sum.splits)
    show ?thesis unfolding eq
    proof (intro follows_if follows_bind_call follows_case_sum, goal_cases)
      case (1 res)
      then show ?case using listed match cl by (auto simp: hookProtocol_def)
    next
      case (2 res e)
      then show ?case by (auto intro: follows_ret)
    next
      case (3 res hook'')
      let ?h = "h @ [StatusUpdateHook hook' res]"
      have "claimedIn L uj event cutoffTime ?h hook''"
        unfolding claimedIn_def
        by (rule exI [of _ hook]) (use 3 cl listed match in \<open>auto intro: history_mono\<close>)
      then have "follows ?E ?h (claimHooks L r uj event cutoffTime rest (hooks @ [hook'']))
          (?Q rest (hooks @ [hook'']))"
        using Cons.prems by (intro Cons.IH) (auto intro: history_mono)
      then show ?case
        by (rule follows_mono) (use 3 cl in \<open>auto simp: hookKept_def\<close>)
    next
      case 4
      then have "claimedIn L uj event cutoffTime h hook'"
        unfolding claimedIn_def using cl listed match by auto
      then have "follows ?E h (claimHooks L r uj event cutoffTime rest (hooks @ [hook']))
          (?Q rest (hooks @ [hook']))"
        using Cons.prems by (intro Cons.IH) auto
      then show ?case by (rule follows_mono) (use 4 cl in \<open>auto simp: hookKept_def\<close>)
    qed
  qed
qed

lemma createHookJob_follows:
  assumes "claimedIn L uj event cutoffTime h hook" and "hookSeen uj event key h hook []"
  shows "follows (hookProtocol L uj event key cutoffTime) h
    (createHookJob L r hook uj event key info meta) (\<lambda>_ _. True)"
  using assms unfolding createHookJob_def Let_def
  by (intro emits_rules) (auto simp: hookProtocol_def)

lemma jobForUpgradeJobAndHook_follows:
  assumes "claimedIn L uj event cutoffTime h hook"
  shows "follows (hookProtocol L uj event key cutoffTime) h
    (jobForUpgradeJobAndHook L r uj hook event key info meta)
    (\<lambda>res h'. \<forall>ts. res = Inr ts \<longrightarrow> ts \<noteq> [] \<and> (hookSeen uj event key h' hook ts
       \<or> (\<forall>t \<in> set ts. ht_Status t = HookJobTrackerStatusActive)))"
  unfolding jobForUpgradeJobAndHook_def Let_def
proof (intro follows_bind_call follows_case_sum follows_if, goal_cases)
  case (1 jobs)
  then show ?case by (simp add: hookProtocol_def)
next
  case (2 jobs e)
  then show ?case by (auto intro: follows_ret)
next
  case (3 jobs items)
  then show ?case by (auto intro!: follows_ret simp: hookSeen_def)
next
  case (4 jobs items)
  let ?h = "h @ [ListJobs (Namespace uj) (jobLabels (Name uj) (Name hook) event key) jobs]"
  have "claimedIn L uj event cutoffTime ?h hook" "hookSeen uj event key ?h hook []"
    using assms 4 by (auto simp: hookSeen_def intro: history_mono)
  from createHookJob_follows [OF this] show ?case
    by (rule follows_bind) (auto intro!: follows_ret split: sum.splits)
qed

lemma classifyJobs_simps:
  "activeJobs (classifyJobs hook ts a) = activeJobs a @ map UpgradeJobHookName
     (filter (\<lambda>t. ht_Status t = HookJobTrackerStatusActive) ts)"
  "hookErrors (classifyJobs hook ts a) = hookErrors a"
  "failedJobs (classifyJobs hook ts a) = failedJobs a @
     map (\<lambda>t. ''hook '' @ quoted (Name hook) @ '' failed: '' @ ht_Message t) (filter (aborts hook) ts)"
  "jobsRequestingUpgradeSkip (classifyJobs hook ts a) = jobsRequestingUpgradeSkip a @
     map (\<lambda>t. ''hook '' @ quoted (Name hook) @ '' caused upgrade skip: '' @ ht_Message t)
       (filter (requestsSkip hook) ts)"
  by (induction hook ts a rule: classifyJobs.induct) (auto simp: aborts_def requestsSkip_def)

text \<open>All jobs of the hook are finished; \<open>failed\<close> and \<open>skip\<close> say whether one of them may abort the
  upgrade or ask to skip it.\<close>

definition hookSettled ::
  "UpgradeJob \<Rightarrow> UpgradeEvent \<Rightarrow> string \<Rightarrow> ujCall list \<Rightarrow> bool \<Rightarrow> bool \<Rightarrow> UpgradeJobHook \<Rightarrow> bool"
where
  "hookSettled uj event key h failed skip hook \<longleftrightarrow> (\<exists>ts. hookSeen uj event key h hook ts \<and> ts \<noteq> [] \<and>
     (\<forall>t \<in> set ts. ht_Status t \<noteq> HookJobTrackerStatusActive \<and> (aborts hook t \<longrightarrow> failed)
        \<and> (requestsSkip hook t \<longrightarrow> skip)))"

lemma hookSettled_mono:
  "hookSettled uj event key h f s x \<Longrightarrow> (f \<Longrightarrow> f') \<Longrightarrow> (s \<Longrightarrow> s') \<Longrightarrow>
     hookSettled uj event key (h @ es) f' s' x"
  unfolding hookSettled_def by (blast intro: history_mono)

text \<open>Where an outcome other than success comes from.\<close>

definition hookCause ::
  "(UpgradeJobHook \<Rightarrow> HookJobTracker \<Rightarrow> bool) \<Rightarrow> UpgradeJob \<Rightarrow> UpgradeEvent \<Rightarrow> string \<Rightarrow> ujCall list
     \<Rightarrow> UpgradeJobHook list \<Rightarrow> bool"
where
  "hookCause P uj event key h hooks \<longleftrightarrow>
     (\<exists>hook \<in> set hooks. \<exists>ts t. hookSeen uj event key h hook ts \<and> t \<in> set ts \<and> P hook t)"

lemma hookCause_mono [history_mono]:
  "hookCause P uj event key h hs \<Longrightarrow> hookCause P uj event key (h @ es) hs"
  unfolding hookCause_def by (blast intro: history_mono)

definition outcomeOf ::
  "UpgradeJob \<Rightarrow> UpgradeEvent \<Rightarrow> string \<Rightarrow> ujCall list \<Rightarrow> UpgradeJobHook list \<Rightarrow> hookOutcome \<Rightarrow> bool"
where
  "outcomeOf uj event key h hooks a \<longleftrightarrow>
     (hookErrors a = [] \<and> activeJobs a = [] \<longrightarrow> (\<forall>hook \<in> set hooks.
        hookSettled uj event key h (failedJobs a \<noteq> []) (jobsRequestingUpgradeSkip a \<noteq> []) hook))
     \<and> (failedJobs a \<noteq> [] \<longrightarrow> hookCause aborts uj event key h hooks)
     \<and> (jobsRequestingUpgradeSkip a \<noteq> [] \<longrightarrow> hookCause requestsSkip uj event key h hooks)"

lemma outcomeOf_error:
  "outcomeOf uj event key h hs a
     \<Longrightarrow> outcomeOf uj event key (h @ es) (hs @ [hook]) (a\<lparr>hookErrors := hookErrors a @ [e]\<rparr>)"
  unfolding outcomeOf_def hookCause_def by (fastforce intro: history_mono)

lemma outcomeOf_jobs:
  assumes "outcomeOf uj event key h hs a" and "ts \<noteq> []"
    and "hookSeen uj event key (h @ es) hook ts \<or> (\<forall>t \<in> set ts. ht_Status t = HookJobTrackerStatusActive)"
  shows "outcomeOf uj event key (h @ es) (hs @ [hook]) (classifyJobs hook ts a)"
proof -
  let ?a = "classifyJobs hook ts a"
  have active: "\<not> aborts hook t" "\<not> requestsSkip hook t" if "ht_Status t = HookJobTrackerStatusActive" for t
    using that by (auto simp: aborts_def requestsSkip_def)
  have "hookSettled uj event key (h @ es) (failedJobs ?a \<noteq> []) (jobsRequestingUpgradeSkip ?a \<noteq> []) x"
    if "hookErrors ?a = []" "activeJobs ?a = []" "x \<in> set hs \<union> {hook}" for x
  proof (cases "x \<in> set hs")
    case True
    with that assms(1) show ?thesis
      by (auto simp: outcomeOf_def classifyJobs_simps intro: hookSettled_mono)
  next
    case False
    with that have "x = hook" by simp
    moreover have "\<forall>t \<in> set ts. ht_Status t \<noteq> HookJobTrackerStatusActive"
      using that(2) by (simp add: classifyJobs_simps filter_empty_conv)
    ultimately show ?thesis using assms(2,3) unfolding hookSettled_def
      by (intro exI [of _ ts]) (auto simp: classifyJobs_simps filter_empty_conv neq_Nil_conv)
  qed
  moreover have "hookCause P uj event key (h @ es) (hs @ [hook])"
    if "hookCause P uj event key h hs \<or> filter (P hook) ts \<noteq> []"
      and "\<And>t. ht_Status t = HookJobTrackerStatusActive \<Longrightarrow> \<not> P hook t" for P
    using that(1)
  proof
    assume "hookCause P uj event key h hs"
    then have "hookCause P uj event key (h @ es) hs" by (rule history_mono)
    then show ?thesis unfolding hookCause_def by auto
  next
    assume "filter (P hook) ts \<noteq> []"
    then obtain t where "t \<in> set ts" "P hook t" by (auto simp: filter_empty_conv)
    with assms(3) that(2) show ?thesis unfolding hookCause_def by auto
  qed
  ultimately show ?thesis using assms(1) active unfolding outcomeOf_def
    by (auto simp: classifyJobs_simps)
qed

lemma runHooks_follows:
  assumes "\<forall>x \<in> set hooks. claimedIn L uj event cutoffTime h x" and "outcomeOf uj event key h hs a"
  shows "follows (hookProtocol L uj event key cutoffTime) h
    (runHooks L r uj event key info meta hooks a) (\<lambda>a' h'. outcomeOf uj event key h' (hs @ hooks) a')"
  using assms
proof (induction hooks arbitrary: h hs a)
  case Nil
  then show ?case by (auto intro: follows_ret)
next
  case (Cons hook hooks)
  have "claimedIn L uj event cutoffTime h hook" using Cons.prems by simp
  from jobForUpgradeJobAndHook_follows [OF this] show ?case unfolding runHooks.simps
  proof (rule follows_bind, goal_cases)
    case (1 res es)
    have "outcomeOf uj event key (h @ es) (hs @ [hook]) (case res of
        Inl e \<Rightarrow> a\<lparr>hookErrors := hookErrors a @ [e]\<rparr> | Inr jobs \<Rightarrow> classifyJobs hook jobs a)"
      using 1 Cons.prems(2) by (auto intro: outcomeOf_error outcomeOf_jobs split: sum.splits)
    from Cons.IH [OF _ this] show ?case using Cons.prems(1) by (auto intro: history_mono)
  qed
qed

text \<open>What a result \<^verbatim>\<open>true\<close> of \<open>executeHooks\<close> means: every matching hook the job may run has jobs, all of
  them are finished, and where the event still decides the outcome none of them aborts the upgrade or
  asks to skip it.\<close>

definition hooksDone ::
  "'z lib_scheme \<Rightarrow> UpgradeJob \<Rightarrow> UpgradeEvent \<Rightarrow> string \<Rightarrow> time \<Rightarrow> ujCall list \<Rightarrow> bool"
where
  "hooksDone L uj event key cutoffTime h \<longleftrightarrow> (\<exists>items hooks f s.
     ListHooks (Namespace uj) (Inr items) \<in> set h
     \<and> (\<forall>orig \<in> set items. hookMatches L uj event cutoffTime orig \<and> WouldExecute orig uj \<longrightarrow> hookKept uj h hooks orig)
     \<and> (\<forall>hook \<in> set hooks. hookSettled uj event key h f s hook)
     \<and> (InfluencesOutcome event \<and> \<not> jobFinished L uj \<longrightarrow> \<not> f)
     \<and> (CanSkipUpdate event \<and> \<not> jobFinished L uj \<longrightarrow> \<not> s))"

lemma hookKept_mono [history_mono]: "hookKept uj h hs x \<Longrightarrow> hookKept uj (h @ es) hs x"
  unfolding hookKept_def by fastforce

lemma hookCause_claimed:
  assumes "hookCause P uj event key h hooks" and "\<forall>x \<in> set hooks. claimedIn L uj event t h x"
  shows "hookCaused L uj event key t (h @ es) P"
  using assms unfolding hookCause_def hookCaused_def by (blast intro: history_mono)

context combine_laws
begin

lemma combine_map_Some: "Combine L (map Some es) = None \<longleftrightarrow> es = []"
  by (cases es) (auto simp: combine_none)

end

context job_api
begin

lemma hookProtocol_verdict:
  assumes "hookCause P uj event key h hooks" and "\<forall>x \<in> set hooks. claimedIn L uj event t h x"
    and "\<not> jobFinished L uj" and "statusWith L uj c sent" and "Status c = ConditionTrue"
    and "P = aborts \<and> Type c = UpgradeJobConditionFailed \<and> Reason c = UpgradeJobReasonHookFailed
        \<and> InfluencesOutcome event
      \<or> P = requestsSkip \<and> Type c = UpgradeJobConditionSucceeded
        \<and> Reason c = UpgradeJobReasonHookRequestedSkip \<and> CanSkipUpdate event"
  shows "hookProtocol L uj event key t (h @ es) (StatusUpdateUpgradeJob sent res)"
  using hookCause_claimed [OF assms(1,2), of es] assms(3-6)
  unfolding hookProtocol_def hookVerdictCause_def ujCall.case by auto

lemma hookVerdict_follows:
  assumes "combine_laws L" and cl: "\<forall>x \<in> set hooks. claimedIn L uj event cutoffTime h x"
    and out: "outcomeOf uj event key h hooks a"
    and listed: "ListHooks (Namespace uj) (Inr items) \<in> set h"
    and kept: "\<forall>orig \<in> set items. hookMatches L uj event cutoffTime orig \<and> WouldExecute orig uj
      \<longrightarrow> hookKept uj h hooks orig"
  shows "follows (hookProtocol L uj event key cutoffTime) h (hookVerdict L r uj event a)
    (\<lambda>(uj', res) h'. sameObject uj uj' \<and> (jobFinished L uj \<longrightarrow> uj' = uj)
       \<and> (res = Inr True \<longrightarrow> uj' = uj \<and> hooksDone L uj event key cutoffTime h'))"
  unfolding hookVerdict_def Let_def
proof (intro follows_case_option follows_if, goal_cases)
  case 2
  then have "hookCause aborts uj event key h hooks" using out by (simp add: outcomeOf_def)
  from hookProtocol_verdict [OF this cl] show ?case
    by (intro follows_setConditionAndReturn)
      (use 2 in \<open>auto simp: hookProtocol_def jobFinished_def split: option.splits\<close>)
next
  case 3
  then have "hookCause requestsSkip uj event key h hooks" using out by (simp add: outcomeOf_def)
  from hookProtocol_verdict [OF this cl] show ?case
    by (intro follows_setConditionAndReturn)
      (use 3 in \<open>auto simp: hookProtocol_def jobFinished_def split: option.splits\<close>)
next
  case 4
  then have "\<forall>hook \<in> set hooks. hookSettled uj event key h (failedJobs a \<noteq> []) (jobsRequestingUpgradeSkip a \<noteq> []) hook"
    using out combine_laws.combine_map_Some [OF assms(1)] by (simp add: outcomeOf_def)
  with 4 listed kept have "hooksDone L uj event key cutoffTime h"
    unfolding hooksDone_def jobFinished_def by blast
  then show ?case by (auto intro: follows_ret)
qed (auto intro: follows_ret)

lemma executeHooks_follows:
  assumes "combine_laws L"
  shows "follows (hookProtocol L uj event key cutoffTime) h
    (executeHooks L r uj event key info cutoffTime)
    (\<lambda>(uj', res) h'. sameObject uj uj' \<and> (jobFinished L uj \<longrightarrow> uj' = uj)
       \<and> (res = Inr True \<longrightarrow> uj' = uj \<and> hooksDone L uj event key cutoffTime h'))"
  unfolding executeHooks_def
proof (intro follows_bind_call follows_case_sum, goal_cases)
  case (3 res items)
  define h0 where "h0 = h @ [ListHooks (Namespace uj) res]"
  have listed: "ListHooks (Namespace uj) (Inr items) \<in> set h0" using 3 by (simp add: h0_def)
  note claim = claimHooks_follows [where items = items and all = items and hooks = "[]", OF _ listed]
  show ?case unfolding h0_def [symmetric]
  proof (rule follows_bind [OF claim], goal_cases)
    case (3 claimed es)
    then show ?case
    proof (intro follows_case_sum, goal_cases)
      case (2 hooks)
      then have cl: "\<forall>x \<in> set hooks. claimedIn L uj event cutoffTime (h0 @ es) x" by auto
      have "outcomeOf uj event key (h0 @ es) [] emptyOutcome"
        by (simp add: outcomeOf_def emptyOutcome_def)
      from runHooks_follows [OF cl this] show ?case
      proof (rule follows_bind, goal_cases)
        case (1 a es')
        with 2 cl listed show ?case
          by (intro hookVerdict_follows [OF assms, of hooks _ _ _ _ _ _ items])
            (auto intro: claimedIn_mono hookKept_mono simp del: append_assoc)
      qed
    qed (auto intro: follows_ret)
  qed simp_all
qed (auto intro: follows_ret simp: hookProtocol_def)

end

section \<open>The protocol of trackHookJobs\<close>

lemma set_setInsert [simp]: "set (setInsert x xs) = insert x (set xs)"
  by auto

declare setInsert.simps [simp del]

lemma set_foldl_setInsert: "set (foldl (\<lambda>s x. setInsert x s) acc xs) = set acc \<union> set xs"
  by (induction xs arbitrary: acc) auto

lemma set_setNew [simp]: "set (setNew xs) = set xs"
  by (simp add: setNew_def set_foldl_setInsert)

lemma set_addCompleted:
  "set (addCompleted ts s) = set s \<union> {t \<in> set ts. ht_Status t \<noteq> HookJobTrackerStatusActive}"
  by (induction ts s rule: addCompleted.induct) auto

text \<open>A tracker the API server has confirmed: it was read, or an update with it was accepted.\<close>

definition trackerStored :: "NamespacedName \<Rightarrow> ujCall list \<Rightarrow> HookJobTracker \<Rightarrow> bool" where
  "trackerStored req h t \<longleftrightarrow>
     (\<exists>uj. GetUpgradeJob req (Inr uj) \<in> set h \<and> t \<in> set (uj_HookJobTracker uj))
     \<or> (\<exists>sent stored. StatusUpdateUpgradeJob sent (Inr stored) \<in> set h \<and> t \<in> set (uj_HookJobTracker sent))"

definition listedJob :: "ujCall list \<Rightarrow> Job \<Rightarrow> bool" where
  "listedJob h j \<longleftrightarrow> (\<exists>ns ls items. ListJobs ns ls (Inr items) \<in> set h \<and> j \<in> set items)"

definition jobGone :: "'z lib_scheme \<Rightarrow> NamespacedName \<Rightarrow> ujCall list \<Rightarrow> bool" where
  "jobGone L req h \<longleftrightarrow> (\<exists>e. GetUpgradeJob req (Inl e) \<in> set h \<and> IsNotFound L e)"

lemma trackerStored_mono [history_mono]: "trackerStored req h t \<Longrightarrow> trackerStored req (h @ es) t"
  by (auto simp: trackerStored_def)

lemma listedJob_mono [history_mono]: "listedJob h j \<Longrightarrow> listedJob (h @ es) j"
  by (auto simp: listedJob_def)

lemma jobGone_mono [history_mono]: "jobGone L req h \<Longrightarrow> jobGone L req (h @ es)"
  by (auto simp: jobGone_def)

text \<open>The calls of \<open>trackHookJobs\<close>: the status update changes nothing but the trackers, which become
  those of the listed jobs and the completed ones of before; a Kubernetes job is only changed to take
  its tracking finalizer away, and only when the upgrade job is gone, or the Kubernetes job is
  finished and its outcome is stored.\<close>

definition trackProtocol :: "'z lib_scheme \<Rightarrow> NamespacedName \<Rightarrow> ujCall list \<Rightarrow> ujCall \<Rightarrow> bool" where
  "trackProtocol L req h e = (case e of
     GetUpgradeJob nn _ \<Rightarrow> nn = req
   | ListJobs _ _ _ \<Rightarrow> True
   | StatusUpdateUpgradeJob sent _ \<Rightarrow> (\<exists>uj items. GetUpgradeJob req (Inr uj) \<in> set h
       \<and> ListJobs (Namespace uj) [hookJobTrackingLabelUpgradeJob \<mapsto> Name uj] (Inr items) \<in> set h
       \<and> sent = uj\<lparr>uj_HookJobTracker := uj_HookJobTracker sent\<rparr>
       \<and> set (uj_HookJobTracker sent) = trackJob ` set items
           \<union> {t \<in> set (uj_HookJobTracker uj). ht_Status t \<noteq> HookJobTrackerStatusActive})
   | UpdateJob j _ \<Rightarrow> (\<exists>old. listedJob h old
       \<and> j = old\<lparr>Finalizers := fst (RemoveFinalizer L (Finalizers old) UpgradeJobHookJobTrackerFinalizer)\<rparr>
       \<and> (jobGone L req h \<or> isJobFinished old \<and> trackerStored req h (trackJob old)))
   | _ \<Rightarrow> False)"

lemma removeFinalizers_follows:
  assumes "\<forall>j \<in> set js. listedJob h j"
    and "\<forall>j \<in> set js. P j \<longrightarrow> jobGone L req h \<or> isJobFinished j \<and> trackerStored req h (trackJob j)"
  shows "follows (trackProtocol L req) h (removeFinalizers L r P js errs) (\<lambda>_ h'. True)"
  using assms
proof (induction js arbitrary: h errs)
  case (Cons j js)
  have rest: "follows (trackProtocol L req) (h @ es) (removeFinalizers L r P js errs') (\<lambda>_ h'. True)" for es errs'
    using Cons.prems by (intro Cons.IH) (auto intro: history_mono)
  have upd: "trackProtocol L req h (UpdateJob (j\<lparr>Finalizers := fst (RemoveFinalizer L (Finalizers j)
      UpgradeJobHookJobTrackerFinalizer)\<rparr>) res)" if "P j" for res
    using that Cons.prems by (auto simp: trackProtocol_def)
  show ?case unfolding removeFinalizers.simps
    using rest [of "[]"] rest upd
    by (auto split: prod.split intro!: follows_bind_call)
qed (auto intro: follows_ret)

lemma currentAndCompleted:
  "set (addCompleted (uj_HookJobTracker uj) (setNew (map trackJob items)))
    = trackJob ` set items \<union> {t \<in> set (uj_HookJobTracker uj). ht_Status t \<noteq> HookJobTrackerStatusActive}"
  by (simp add: set_addCompleted)

lemma trackHookJobs_follows:
  assumes "tracker_laws L"
  shows "follows (trackProtocol L req) h (trackHookJobs L r req) (\<lambda>_ h'. True)"
  unfolding trackHookJobs_def cleanupHookJobTrackingFinalizers_def Let_def
proof (intro emits_rules, goal_cases)
  case (1 got)
  then show ?case by (simp add: trackProtocol_def)
next
  case (2 got e jl)
  then show ?case by (simp add: trackProtocol_def)
next
  case (4 got e jl items)
  then show ?case
    by (intro follows_bind [OF removeFinalizers_follows])
      (auto simp: listedJob_def jobGone_def intro: follows_ret)
next
  case (6 got uj jl)
  then show ?case by (simp add: trackProtocol_def)
next
  case (8 got uj jl items res)
  then show ?case
    by (auto simp: trackProtocol_def tracker_laws.set_sorted_trackers [OF assms] currentAndCompleted)
next
  case (10 got uj jl items res stored)
  then show ?case
    by (intro follows_bind [OF removeFinalizers_follows])
      (auto simp: listedJob_def trackerStored_def tracker_laws.set_sorted_trackers [OF assms]
        currentAndCompleted intro: follows_ret)
next
  case (11 got uj jl items)
  then show ?case
    by (intro follows_bind [OF removeFinalizers_follows])
      (auto simp: listedJob_def trackerStored_def setEqual_def currentAndCompleted intro: follows_ret)
qed (auto intro: follows_ret)

end
