(* ===== verification/Machine_Pools.thy ===== *)
theory Machine_Pools
  imports Hook_Jobs
begin

text \<open>
  The machine config pools of an upgrade (\<^verbatim>\<open>controllers/upgradejob_controller.go\<close>): pausing and unpausing
  them around their delay, cleaning up after a success, pausing them after a failure, and the next
  time a paused upgrade has to be looked at.
\<close>

fun filterPaused :: "UpdatingPool list \<Rightarrow> UpdatingPool list \<times> UpdatingPool list" where
  "filterPaused [] = ([], [])"
| "filterPaused (p # ps) = (case filterPaused ps of (paused, active) \<Rightarrow>
     if up_Paused p then (p # paused, active) else (paused, p # active))"

section \<open>pauseUnpauseMachineConfigPools\<close>

definition noDelay :: UpgradeJobMachineConfigPoolDelayUpgradeSpec where
  "noDelay = \<lparr>DelayMin = 0, DelayMax = 0\<rparr>"

text \<open>The loop over the pools a selector matches. It leaves the function early (\<open>Inl\<close>, with the
  results of the function) or hands on whether the controller manages and paused pools (\<open>Inr\<close>).\<close>

fun pausePools ::
  "'z lib_scheme \<Rightarrow> 's UpgradeJobReconciler \<Rightarrow> UpgradeJobMachineConfigPoolSpec \<Rightarrow> duration \<Rightarrow> bool
     \<Rightarrow> MachineConfigPool list \<Rightarrow> UpgradeJob \<Rightarrow> bool \<times> bool
     \<Rightarrow> ('s, UpgradeJob \<times> ((error + bool) + bool \<times> bool)) uj_io"
where
  "pausePools L r pool timeSinceStart shouldPause [] uj acc = ret (uj, Inr acc)"
| "pausePools L r pool timeSinceStart shouldPause (mcp # mcps) uj (managesPools, pausedPools) =
     (let acc = (True, pausedPools \<or> shouldPause) in
      if Paused mcp \<and> \<not> shouldPause \<and> DelayMax (DelayUpgrade pool) > 0
         \<and> timeSinceStart \<ge> DelayMax (DelayUpgrade pool)
      then do {
        (uj, err) \<leftarrow> setConditionAndUpdate L r uj
          (newCondition UpgradeJobConditionFailed ConditionTrue UpgradeJobReasonUnpausingPoolsExpired
            (''unpausing of pool '' @ quoted (Name mcp) @ '' expired''));
        ret (uj, Inl (case Combine L
            [Some (ErrorString (''unpausing of pool '' @ quoted (Name mcp) @ '' expired'')), err] of
          None \<Rightarrow> Inr True
        | Some e \<Rightarrow> Inl e))
      }
      else if Paused mcp \<noteq> shouldPause then do {
        (uj, hooksDone) \<leftarrow>
          (if Paused mcp
           then executeHooks L r uj EventMachineConfigPoolUnpause (Name mcp)
             (eventInfoUnpause UpgradeJobReasonDelayReached (Name mcp)) zeroTime
           else ret (uj, Inr True));
        case hooksDone of
          Inl e \<Rightarrow> ret (uj, Inl (Inl (Errorf (''failed to execute unpause hooks for machine config pool '' @ quoted (Name mcp)) e)))
        | Inr cont \<Rightarrow>
           if \<not> cont then ret (uj, Inl (Inr False))
           else do {
             res \<leftarrow> updatePool r (mcp\<lparr>Annotations := (Annotations mcp)(JobLockAnnotation \<mapsto> lockVal uj),
                        Paused := shouldPause\<rparr>);
             case res of
               Inl e \<Rightarrow> ret (uj, Inl (Inl (Errorf (''failed to pause/unpause machine config pool '' @ quoted (Name mcp)) e)))
             | Inr _ \<Rightarrow> pausePools L r pool timeSinceStart shouldPause mcps uj acc
           }
      }
      else pausePools L r pool timeSinceStart shouldPause mcps uj acc)"

text \<open>The loop over \<^verbatim>\<open>.Spec.MachineConfigPools\<close>. The error of a failed list also quotes the
  selector in the code; the text of the model leaves that out.\<close>

fun pausePoolSpecs ::
  "'z lib_scheme \<Rightarrow> 's UpgradeJobReconciler \<Rightarrow> UpgradeJobMachineConfigPoolSpec list \<Rightarrow> UpgradeJob
     \<Rightarrow> bool \<times> bool \<Rightarrow> ('s, UpgradeJob \<times> ((error + bool) + bool \<times> bool)) uj_io"
where
  "pausePoolSpecs L r [] uj acc = ret (uj, Inr acc)"
| "pausePoolSpecs L r (pool # pools) uj acc =
     (if DelayUpgrade pool = noDelay then pausePoolSpecs L r pools uj acc
      else do {
        timeSinceStart \<leftarrow> timeSinceStartAfter r uj;
        let shouldPause = timeSinceStart < DelayMin (DelayUpgrade pool);
        case LabelSelectorAsSelector L (MatchLabels pool) of
          Inl e \<Rightarrow> ret (uj, Inl (Inl (Errorf ''failed to parse machine config pool selector'' e)))
        | Inr sel \<Rightarrow> do {
           mcpl \<leftarrow> listPools r (Some sel);
           case mcpl of
             Inl e \<Rightarrow> ret (uj, Inl (Inl (Errorf ''failed to list machine config pools'' e)))
           | Inr mcps \<Rightarrow> do {
              (uj, out) \<leftarrow> pausePools L r pool timeSinceStart shouldPause mcps uj acc;
              case out of
                Inl early \<Rightarrow> ret (uj, Inl early)
              | Inr acc \<Rightarrow> pausePoolSpecs L r pools uj acc
           }
        }
      })"

definition pauseUnpauseMachineConfigPools ::
  "'z lib_scheme \<Rightarrow> 's UpgradeJobReconciler \<Rightarrow> UpgradeJob \<Rightarrow> ('s, UpgradeJob \<times> (error + bool)) uj_io"
where
  "pauseUnpauseMachineConfigPools L r uj = do {
     (uj, out) \<leftarrow> pausePoolSpecs L r (MachineConfigPools (Config (uj_Spec uj))) uj (False, False);
     case out of
       Inl early \<Rightarrow> ret (uj, early)
     | Inr (controllerManagesPools, controllerPausedPools) \<Rightarrow> do {
        (cs, changed) \<leftarrow> setStatusCondition L r (uj_Conditions uj)
          (newCondition UpgradeJobConditionMachineConfigPoolsPaused (boolToStatus controllerPausedPools)
            (if controllerManagesPools then UpgradeJobReasonDelaySet else UpgradeJobReasonNoManagedPools)
            '''');
        let uj = uj\<lparr>uj_Conditions := cs\<rparr>;
        if changed then do {
          res \<leftarrow> statusUpdateUpgradeJob r uj;
          ret (okOr uj res, case res of Inl e \<Rightarrow> Inl e | Inr _ \<Rightarrow> Inr True)
        }
        else ret (uj, Inr True)
     }
   }"

section \<open>nextTimedReconcile\<close>

definition possibleTimes :: "UpgradeJob \<Rightarrow> time list" where
  "possibleTimes uj =
     concat (map (\<lambda>v. [StartAfter (uj_Spec uj) + DelayMin (DelayUpgrade v),
                       StartAfter (uj_Spec uj) + DelayMax (DelayUpgrade v)])
       (MachineConfigPools (Config (uj_Spec uj))))
     @ [StartAfter (uj_Spec uj) + UpgradeTimeout (Config (uj_Spec uj))]"

fun firstNotPast :: "time \<Rightarrow> time list \<Rightarrow> Result" where
  "firstNotPast now [] = noRequeue"
| "firstNotPast now (t # ts) =
     (if now > t then firstNotPast now ts
      else \<lparr>Requeue = True, RequeueAfter = timeSub t now\<rparr>)"

definition nextTimedReconcile ::
  "'z lib_scheme \<Rightarrow> 's UpgradeJobReconciler \<Rightarrow> UpgradeJob \<Rightarrow> ('s, Result) uj_io"
where
  "nextTimedReconcile L r uj = do {
     now \<leftarrow> clockNow r;
     ret (firstNotPast now (SortTimes L timeSub (possibleTimes uj)))
   }"

section \<open>cleanupMachineConfigPools\<close>

fun cleanupPools ::
  "'z lib_scheme \<Rightarrow> 's UpgradeJobReconciler \<Rightarrow> MachineConfigPool list \<Rightarrow> UpgradeJob \<Rightarrow> error option list
     \<Rightarrow> ('s, error option list) uj_io"
where
  "cleanupPools L r [] uj errs = ret errs"
| "cleanupPools L r (mcp # mcps) uj errs =
     (if annotation mcp JobLockAnnotation \<noteq> lockVal uj then cleanupPools L r mcps uj errs
      else let mcp' = mcp\<lparr>Annotations := (Annotations mcp)(JobLockAnnotation := None)\<rparr> in
        if Paused mcp then do {
          (uj, hooksDone) \<leftarrow> executeHooks L r uj EventMachineConfigPoolUnpause (Name mcp)
            (eventInfoUnpause UpgradeJobReasonCompleted (Name mcp)) zeroTime;
          case hooksDone of
            Inl e \<Rightarrow> cleanupPools L r mcps uj
              (errs @ [Some (Errorf (''failed to execute unpause hooks for machine config pool '' @ quoted (Name mcp)) e)])
          | Inr _ \<Rightarrow> do {
             res \<leftarrow> updatePool r (mcp'\<lparr>Paused := False\<rparr>);
             cleanupPools L r mcps uj (case res of
               Inl e \<Rightarrow> errs @ [Some (Errorf (''failed to cleanup machine config pool '' @ quoted (Name mcp)) e)]
             | Inr _ \<Rightarrow> errs)
          }
        }
        else do {
          res \<leftarrow> updatePool r mcp';
          cleanupPools L r mcps uj (case res of
            Inl e \<Rightarrow> errs @ [Some (Errorf (''failed to cleanup machine config pool '' @ quoted (Name mcp)) e)]
          | Inr _ \<Rightarrow> errs)
        })"

definition cleanupMachineConfigPools ::
  "'z lib_scheme \<Rightarrow> 's UpgradeJobReconciler \<Rightarrow> UpgradeJob \<Rightarrow> ('s, error option) uj_io"
where
  "cleanupMachineConfigPools L r uj = do {
     mcpl \<leftarrow> listPools r None;
     case mcpl of
       Inl e \<Rightarrow> ret (Some (Errorf ''failed to list machine config pools'' e))
     | Inr mcps \<Rightarrow> do {
        errs \<leftarrow> cleanupPools L r mcps uj [];
        ret (Combine L errs)
     }
   }"

section \<open>pauseMachinePoolsOnFailure\<close>

fun pauseFailedPools ::
  "'s UpgradeJobReconciler \<Rightarrow> MachineConfigPool list \<Rightarrow> error option list \<Rightarrow> ('s, error option list) uj_io"
where
  "pauseFailedPools r [] errs = ret errs"
| "pauseFailedPools r (mcp # mcps) errs =
     (if Paused mcp then pauseFailedPools r mcps errs
      else if MachineCount mcp = UpdatedMachineCount mcp then pauseFailedPools r mcps errs
      else do {
        res \<leftarrow> updatePool r (mcp\<lparr>Paused := True\<rparr>);
        pauseFailedPools r mcps (case res of
          Inl e \<Rightarrow> errs @ [Some (Errorf (''failed to pause machine config pool '' @ quoted (Name mcp)) e)]
        | Inr _ \<Rightarrow> errs)
      })"

definition pausedOnFailure :: "Condition \<Rightarrow> bool" where
  "pausedOnFailure c \<longleftrightarrow> Reason c = UpgradeJobReasonPausedOnFailure \<and> Status c = ConditionTrue"

definition pauseMachinePoolsOnFailure ::
  "'z lib_scheme \<Rightarrow> 's UpgradeJobReconciler \<Rightarrow> UpgradeJob \<Rightarrow> ('s, error option) uj_io"
where
  "pauseMachinePoolsOnFailure L r uj =
     (let pf = PauseMachineConfigPoolsOnFailure (Config (uj_Spec uj)) in
      if \<not> pf_Enabled pf then ret None
      else if (case FindStatusCondition L (uj_Conditions uj) UpgradeJobConditionMachineConfigPoolsPaused of
            None \<Rightarrow> False | Some c \<Rightarrow> pausedOnFailure c)
      then ret None
      else case LabelSelectorAsSelector L (Some (pf_Selector pf)) of
        Inl e \<Rightarrow> ret (Some (Errorf ''failed to parse machine config pool selector'' e))
      | Inr selector \<Rightarrow> do {
         mcpl \<leftarrow> listPools r (Some selector);
         case mcpl of
           Inl e \<Rightarrow> ret (Some (Errorf ''failed to list machine config pools'' e))
         | Inr mcps \<Rightarrow> do {
            errs \<leftarrow> pauseFailedPools r mcps [];
            (cs, changed) \<leftarrow> setStatusCondition L r (uj_Conditions uj)
              (newCondition UpgradeJobConditionMachineConfigPoolsPaused ConditionTrue
                UpgradeJobReasonPausedOnFailure '''');
            if changed then do {
              res \<leftarrow> statusUpdateUpgradeJob r (uj\<lparr>uj_Conditions := cs\<rparr>);
              ret (Combine L (case res of
                Inl e \<Rightarrow> errs @ [Some (Errorf ''failed to update upgrade job status'' e)]
              | Inr _ \<Rightarrow> errs))
            }
            else ret (Combine L errs)
         }
      })"

section \<open>The protocol of pauseUnpauseMachineConfigPools\<close>

text \<open>A pool of the cluster that a pool specification with a delay selects, and a reading of the clock.\<close>

definition selectedPool ::
  "'z lib_scheme \<Rightarrow> UpgradeJob \<Rightarrow> ujCall list \<Rightarrow> UpgradeJobMachineConfigPoolSpec \<Rightarrow> MachineConfigPool
     \<Rightarrow> duration \<Rightarrow> bool"
where
  "selectedPool L uj h ps mcp d \<longleftrightarrow> ps \<in> set (MachineConfigPools (Config (uj_Spec uj)))
     \<and> DelayUpgrade ps \<noteq> noDelay
     \<and> (\<exists>sel mcps. LabelSelectorAsSelector L (MatchLabels ps) = Inr sel
          \<and> ListPools (Some sel) (Inr mcps) \<in> set h \<and> mcp \<in> set mcps)
     \<and> (\<exists>now. Now now \<in> set h \<and> d = timeSub now (StartAfter (uj_Spec uj)))"

definition poolExpired :: "UpgradeJobMachineConfigPoolSpec \<Rightarrow> MachineConfigPool \<Rightarrow> duration \<Rightarrow> bool" where
  "poolExpired ps mcp d \<longleftrightarrow> Paused mcp \<and> DelayMin (DelayUpgrade ps) \<le> d
     \<and> 0 < DelayMax (DelayUpgrade ps) \<and> DelayMax (DelayUpgrade ps) \<le> d"

text \<open>A pool is only written to flip its pause: to paused before the minimal delay of its
  specification, to unpaused after it, before the maximal delay and once the unpause hooks of this
  pool are done. The written pool carries the lock of the job. The job is marked failed only when a
  pool is still paused after the maximal delay.\<close>

definition pauseProtocol :: "'z lib_scheme \<Rightarrow> UpgradeJob \<Rightarrow> ujCall list \<Rightarrow> ujCall \<Rightarrow> bool" where
  "pauseProtocol L uj h e \<longleftrightarrow> (case e of
     UpdatePool p _ \<Rightarrow> (\<exists>ps mcp d. selectedPool L uj h ps mcp d
       \<and> p = mcp\<lparr>Annotations := (Annotations mcp)(JobLockAnnotation \<mapsto> lockVal uj),
                 Paused := d < DelayMin (DelayUpgrade ps)\<rparr>
       \<and> Paused mcp \<noteq> Paused p \<and> \<not> poolExpired ps mcp d
       \<and> (Paused mcp \<longrightarrow> hooksDone L uj EventMachineConfigPoolUnpause (Name mcp) zeroTime h))
   | ListPools _ _ \<Rightarrow> True
   | Now _ \<Rightarrow> True
   | StatusUpdateUpgradeJob sent _ \<Rightarrow> (\<exists>c. statusWith L uj c sent
       \<and> (Type c = UpgradeJobConditionMachineConfigPoolsPaused
          \<or> Type c = UpgradeJobConditionFailed \<and> Status c = ConditionTrue
            \<and> Reason c = UpgradeJobReasonUnpausingPoolsExpired
            \<and> (\<exists>ps mcp d. selectedPool L uj h ps mcp d \<and> poolExpired ps mcp d)))
   | _ \<Rightarrow> False)
   \<or> (\<exists>key. hookProtocol L uj EventMachineConfigPoolUnpause key zeroTime h e)"

text \<open>How the loops over the pools end: early with an error or to wait, or with the job as it was.\<close>

definition pauseLoopPost ::
  "UpgradeJob \<Rightarrow> UpgradeJob \<times> ((error + bool) + bool \<times> bool) \<Rightarrow> ujCall list \<Rightarrow> bool"
where
  "pauseLoopPost uj x h \<longleftrightarrow> sameObject uj (fst x) \<and> snd x \<noteq> Inl (Inr True)
     \<and> (\<forall>a. snd x = Inr a \<longrightarrow> fst x = uj)"

lemma pauseLoopPost_simps [simp]:
  "pauseLoopPost uj (uj', Inl early) h \<longleftrightarrow> sameObject uj uj' \<and> early \<noteq> Inr True"
  "pauseLoopPost uj (uj', Inr a) h \<longleftrightarrow> uj' = uj"
  by (auto simp: pauseLoopPost_def)

lemma selectedPool_mono [history_mono]:
  "selectedPool L uj h ps mcp d \<Longrightarrow> selectedPool L uj (h @ es) ps mcp d"
  unfolding selectedPool_def by fastforce

context job_api
begin

lemma pausePools_expired:
  assumes "selectedPool L uj h pool mcp d" and "poolExpired pool mcp d" and "\<And>err. f err \<noteq> Inr True"
  shows "follows (pauseProtocol L uj) h (do {
        (uj, err) \<leftarrow> setConditionAndUpdate L r uj
          (newCondition UpgradeJobConditionFailed ConditionTrue UpgradeJobReasonUnpausingPoolsExpired msg);
        ret (uj, Inl (f err)) })
    (pauseLoopPost uj)"
proof (rule follows_setConditionAndReturn, goal_cases)
  case (2 now sent res)
  from selectedPool_mono [OF assms(1)] have "selectedPool L uj (h @ [Now now]) pool mcp d" .
  with 2 assms(2) show ?case unfolding pauseProtocol_def ujCall.case
    by (intro disjI1 exI [of _ "newCondition UpgradeJobConditionFailed ConditionTrue UpgradeJobReasonUnpausingPoolsExpired msg"]) auto
qed (use assms(3) in \<open>auto simp: pauseProtocol_def\<close>)

lemma pausePools_write:
  assumes "selectedPool L uj h pool mcp d" and "\<not> poolExpired pool mcp d"
    and "Paused mcp \<noteq> (d < DelayMin (DelayUpgrade pool))"
    and "Paused mcp \<longrightarrow> hooksDone L uj EventMachineConfigPoolUnpause (Name mcp) zeroTime h"
    and "\<And>res. follows (pauseProtocol L uj) (h @ [res]) k R" and "\<And>e h'. R (g e) h'"
  shows "follows (pauseProtocol L uj) h (do {
        res \<leftarrow> updatePool r (mcp\<lparr>Annotations := (Annotations mcp)(JobLockAnnotation \<mapsto> lockVal uj),
          Paused := d < DelayMin (DelayUpgrade pool)\<rparr>);
        case res of Inl e \<Rightarrow> ret (g e) | Inr _ \<Rightarrow> k }) R"
proof (intro follows_bind_call follows_case_sum, goal_cases)
  case (1 res)
  show ?case unfolding pauseProtocol_def ujCall.case
    by (intro disjI1 exI [of _ pool] exI [of _ mcp] exI [of _ d]) (use assms(1-4) in simp)
qed (auto intro: follows_ret assms)

lemma pausePools_follows:
  assumes "combine_laws L" and "\<forall>mcp \<in> set mcps. selectedPool L uj h pool mcp d"
  shows "follows (pauseProtocol L uj) h (pausePools L r pool d (d < DelayMin (DelayUpgrade pool)) mcps uj acc)
    (pauseLoopPost uj)"
  using assms(2)
proof (induction mcps arbitrary: h acc)
  case Nil
  then show ?case by (auto intro: follows_ret)
next
  case (Cons mcp mcps)
  let ?b = "d < DelayMin (DelayUpgrade pool)"
  have sel: "selectedPool L uj (h @ es) pool mcp d" for es using Cons.prems by (auto intro: history_mono)
  have rest: "follows (pauseProtocol L uj) (h @ es) (pausePools L r pool d ?b mcps uj acc') (pauseLoopPost uj)" for es acc'
    using Cons.prems by (intro Cons.IH) (auto intro: history_mono)
  have hooks: "follows (pauseProtocol L uj) h
      (if Paused mcp then executeHooks L r uj EventMachineConfigPoolUnpause (Name mcp) info zeroTime
       else ret (uj, Inr True))
      (\<lambda>(uj', res) h'. sameObject uj uj' \<and> (res = Inr True \<longrightarrow> uj' = uj \<and>
         (Paused mcp \<longrightarrow> hooksDone L uj EventMachineConfigPoolUnpause (Name mcp) zeroTime h')))" for info
    by (intro follows_if follows_ret follows_mono [OF executeHooks_follows [OF assms(1)]])
      (auto simp: pauseProtocol_def)
  have combine: "(case Combine L [Some e, err] of None \<Rightarrow> Inr True | Some e \<Rightarrow> Inl e) \<noteq> Inr True" for e err
    using combine_laws.combine_none [OF assms(1), of "[Some e, err]"] by (auto split: option.splits)
  obtain m p where acc: "acc = (m, p)" by fastforce
  show ?case unfolding acc pausePools.simps Let_def
  proof (intro follows_if pausePools_expired, goal_cases)
    case 4
    then have "\<not> poolExpired pool mcp d" by (auto simp: poolExpired_def not_less)
    note flip = 4(2) this
    show ?case
    proof (intro follows_bind [OF hooks] follows_case_prod follows_case_sum follows_if, goal_cases)
      case (3 x es uj' out cont)
      then have uj': "uj' = uj" and settled: "Paused mcp \<longrightarrow> hooksDone L uj EventMachineConfigPoolUnpause (Name mcp) zeroTime (h @ es)"
        by auto
      show ?case unfolding uj'
        by (rule pausePools_write [OF sel flip(2,1) settled], unfold append_assoc, rule rest, simp)
    qed (auto intro: follows_ret)
  qed (use sel [of "[]"] rest [of "[]"] combine in \<open>auto simp: poolExpired_def not_less\<close>)
qed

lemma pausePoolSpecs_follows:
  assumes "combine_laws L" and "set pools \<subseteq> set (MachineConfigPools (Config (uj_Spec uj)))"
  shows "follows (pauseProtocol L uj) h (pausePoolSpecs L r pools uj acc)
    (pauseLoopPost uj)"
  using assms(2)
proof (induction pools arbitrary: h acc)
  case (Cons pool pools)
  have rest: "follows (pauseProtocol L uj) h' (pausePoolSpecs L r pools uj acc') (pauseLoopPost uj)" for h' acc'
    using Cons.prems by (intro Cons.IH) auto
  show ?case
    unfolding pausePoolSpecs.simps timeSinceStartAfter_def State_Monad.bind_assoc
      State_Monad.bind_left_identity Let_def
  proof (intro follows_if rest follows_bind_call follows_case_sum, goal_cases)
    case (5 now sel mcpl mcps)
    have "\<forall>mcp \<in> set mcps. selectedPool L uj ((h @ [Now now]) @ [ListPools (Some sel) mcpl]) pool mcp
        (timeSub now (StartAfter (uj_Spec uj)))"
      using 5 Cons.prems by (auto simp: selectedPool_def)
    from pausePools_follows [OF assms(1) this] show ?case
      by (rule follows_bind) (auto intro!: follows_ret rest split: sum.split)
  qed (auto simp: pauseProtocol_def intro: follows_ret)
qed (auto intro: follows_ret)

lemma pauseUnpauseMachineConfigPools_follows:
  assumes "combine_laws L" and "condition_laws L"
  shows "follows (pauseProtocol L uj) h (pauseUnpauseMachineConfigPools L r uj)
    (\<lambda>(uj', res) h'. sameObject uj uj'
       \<and> (res = Inr True \<longrightarrow> sameConditions L {UpgradeJobConditionMachineConfigPoolsPaused} uj uj'))"
  unfolding pauseUnpauseMachineConfigPools_def
  supply statusWith_sameConditions = condition_laws.statusWith_sameConditions [OF assms(2)]
proof (rule follows_bind [OF pausePoolSpecs_follows [OF assms(1) subset_refl]], intro emits_rules, goal_cases)
  case (2 x es uj' out acc manages paused)
  then have uj': "uj' = uj" by auto
  show ?case unfolding uj'
  proof (intro follows_setStatusCondition follows_case_prod follows_let follows_if follows_bind_call
      follows_ret, goal_cases)
    case (2 now cs changed csa changeda res)
    then show ?case by (auto simp: pauseProtocol_def)
  next
    case (3 now cs changed csa changeda res)
    then have st: "statusWith L uj (newCondition UpgradeJobConditionMachineConfigPoolsPaused (boolToStatus paused)
        (if manages then UpgradeJobReasonDelaySet else UpgradeJobReasonNoManagedPools) '''')
        (uj\<lparr>uj_Conditions := csa\<rparr>)" by simp
    have same: "sameJob (uj\<lparr>uj_Conditions := csa\<rparr>) (okOr (uj\<lparr>uj_Conditions := csa\<rparr>) res)"
      using 3 by (intro update_okOr) simp
    have "sameObject uj (okOr (uj\<lparr>uj_Conditions := csa\<rparr>) res)"
      by (rule sameObject_trans [OF sameObject_conditions sameJob_sameObject [OF same]])
    with statusWith_sameConditions [OF st same] show ?case by simp
  next
    case (4 now cs changed csa changeda)
    then show ?case using statusWith_sameConditions [OF _ sameJob_refl] by fastforce
  qed (simp add: pauseProtocol_def)
qed auto

end

section \<open>After the upgrade\<close>

lemma lockVal_not_Nil [simp]: "lockVal uj \<noteq> []"
  by (simp add: lockVal_def)

lemma annotation_lockVal: "annotation m k = lockVal uj \<longleftrightarrow> Annotations m k = Some (lockVal uj)"
  using lockVal_not_Nil [of uj] by (auto simp: annotation_def simp del: lockVal_not_Nil split: option.splits)

text \<open>The clean-up only writes pools locked by this job, to take the lock away and to unpause them,
  and runs only unpause hooks.\<close>

definition cleanupProtocol :: "'z lib_scheme \<Rightarrow> UpgradeJob \<Rightarrow> ujCall list \<Rightarrow> ujCall \<Rightarrow> bool" where
  "cleanupProtocol L uj h e \<longleftrightarrow> (case e of
     ListPools sel _ \<Rightarrow> sel = None
   | UpdatePool p _ \<Rightarrow> (\<exists>mcps mcp. ListPools None (Inr mcps) \<in> set h \<and> mcp \<in> set mcps
       \<and> Annotations mcp JobLockAnnotation = Some (lockVal uj)
       \<and> p = mcp\<lparr>Annotations := (Annotations mcp)(JobLockAnnotation := None), Paused := False\<rparr>)
   | _ \<Rightarrow> False)
   \<or> (\<exists>key. hookProtocol L uj EventMachineConfigPoolUnpause key zeroTime h e)"

text \<open>After a failure only pools that are not paused and still have machines to update are written,
  to pause them; the job records that it was done.\<close>

definition failureProtocol :: "'z lib_scheme \<Rightarrow> UpgradeJob \<Rightarrow> ujCall list \<Rightarrow> ujCall \<Rightarrow> bool" where
  "failureProtocol L uj h e \<longleftrightarrow> pf_Enabled (PauseMachineConfigPoolsOnFailure (Config (uj_Spec uj))) \<and> (case e of
     ListPools _ _ \<Rightarrow> True
   | Now _ \<Rightarrow> True
   | UpdatePool p _ \<Rightarrow> (\<exists>sel mcps mcp.
       LabelSelectorAsSelector L (Some (pf_Selector (PauseMachineConfigPoolsOnFailure (Config (uj_Spec uj))))) = Inr sel
       \<and> ListPools (Some sel) (Inr mcps) \<in> set h \<and> mcp \<in> set mcps \<and> \<not> Paused mcp
       \<and> MachineCount mcp \<noteq> UpdatedMachineCount mcp \<and> p = mcp\<lparr>Paused := True\<rparr>)
   | StatusUpdateUpgradeJob sent _ \<Rightarrow> (\<exists>c. statusWith L uj c sent
       \<and> Type c = UpgradeJobConditionMachineConfigPoolsPaused \<and> Status c = ConditionTrue
       \<and> Reason c = UpgradeJobReasonPausedOnFailure)
   | _ \<Rightarrow> False)"

lemma pauseFailedPools_follows:
  assumes "\<And>mcp res es. mcp \<in> set mcps \<Longrightarrow> \<not> Paused mcp \<Longrightarrow> MachineCount mcp \<noteq> UpdatedMachineCount mcp
    \<Longrightarrow> E (h @ es) (UpdatePool (mcp\<lparr>Paused := True\<rparr>) res)"
  shows "follows E h (pauseFailedPools r mcps errs) (\<lambda>_ _. True)"
  using assms
proof (induction mcps arbitrary: h errs)
  case (Cons mcp mcps)
  have rest: "follows E (h @ es) (pauseFailedPools r mcps errs') (\<lambda>_ _. True)" for es errs'
    using Cons.prems by (intro Cons.IH) auto
  show ?case using rest [of "[]"] rest Cons.prems [of mcp "[]"]
    by (auto intro!: follows_bind_call)
qed (auto intro: follows_ret)

lemma pauseMachinePoolsOnFailure_follows:
  "follows (failureProtocol L uj) h (pauseMachinePoolsOnFailure L r uj) (\<lambda>_ _. True)"
  unfolding pauseMachinePoolsOnFailure_def Let_def
proof (intro emits_rules, goal_cases)
  case (6 sel mcpl mcps)
  let ?h = "h @ [ListPools (Some sel) mcpl]"
  have "follows (failureProtocol L uj) ?h (pauseFailedPools r mcps []) (\<lambda>_ _. True)"
    by (rule pauseFailedPools_follows) (use 6 in \<open>auto simp: failureProtocol_def\<close>)
  then show ?case
    by (rule follows_bind, intro follows_setStatusCondition follows_case_prod follows_if
        follows_bind_call follows_ret) (use 6 in \<open>auto simp: failureProtocol_def\<close>)
qed (auto simp: failureProtocol_def)

context job_api
begin

lemma cleanupPools_follows:
  assumes "combine_laws L" and "jobFinished L uj" and "ListPools None (Inr all) \<in> set h" and "set mcps \<subseteq> set all"
  shows "follows (cleanupProtocol L uj) h (cleanupPools L r mcps uj errs) (\<lambda>_ _. True)"
  using assms(3,4)
proof (induction mcps arbitrary: h errs)
  case (Cons mcp mcps)
  have rest: "follows (cleanupProtocol L uj) (h @ es) (cleanupPools L r mcps uj errs') (\<lambda>_ _. True)" for es errs'
    using Cons.prems by (intro Cons.IH) auto
  have upd: "cleanupProtocol L uj (h @ es) (UpdatePool (mcp\<lparr>Annotations := (Annotations mcp)(JobLockAnnotation := None),
      Paused := False\<rparr>) res)" if "Annotations mcp JobLockAnnotation = Some (lockVal uj)" for es res
    unfolding cleanupProtocol_def ujCall.case using that Cons.prems by auto
  have hooks: "follows (cleanupProtocol L uj) h
      (executeHooks L r uj EventMachineConfigPoolUnpause (Name mcp) info zeroTime) (\<lambda>(uj2, _) _. uj2 = uj)" for info
    by (rule follows_mono [OF executeHooks_follows [OF assms(1)]])
      (use assms(2) in \<open>auto simp: cleanupProtocol_def\<close>)
  have unpaused: "mcp\<lparr>Annotations := a\<rparr> = mcp\<lparr>Annotations := a, Paused := False\<rparr>" if "\<not> Paused mcp" for a
    using that by (cases mcp) simp
  show ?case unfolding cleanupPools.simps Let_def annotation_lockVal
  proof (intro follows_if follows_bind [OF hooks] follows_case_prod follows_case_sum follows_bind_call, goal_cases)
    case 1
    then show ?case using rest [of "[]"] by simp
  next
    case (5 x)
    then show ?case using upd [of "[]" x, folded unpaused [OF 5(2)]] by simp
  qed (use upd in \<open>auto intro: rest\<close>)
qed (auto intro: follows_ret)

lemma cleanupMachineConfigPools_follows:
  assumes "combine_laws L" and "jobFinished L uj"
  shows "follows (cleanupProtocol L uj) h (cleanupMachineConfigPools L r uj) (\<lambda>_ _. True)"
  unfolding cleanupMachineConfigPools_def
proof (intro emits_rules, goal_cases)
  case (3 mcpl mcps)
  then show ?case
    by (intro follows_bind [OF cleanupPools_follows [OF assms, of mcps]] follows_ret) auto
qed (auto simp: cleanupProtocol_def)

end

section \<open>The next time to look\<close>

lemma weak_order_timeSub: "weak_order timeSub"
  by (rule weak_order_key [of _ id]) (auto simp: timeSub_def minDuration_def maxDuration_def)

lemma firstNotPast_sorted:
  assumes "sorted ts"
  shows "firstNotPast now ts = (if \<exists>t \<in> set ts. now \<le> t
    then \<lparr>Requeue = True, RequeueAfter = timeSub (Min {t \<in> set ts. now \<le> t}) now\<rparr> else noRequeue)"
  using assms
proof (induction ts)
  case (Cons t ts)
  show ?case
  proof (cases "now \<le> t")
    case True
    have "Min {u \<in> set (t # ts). now \<le> u} = t"
      using Cons.prems True by (intro Min_eqI) auto
    with True show ?thesis by auto
  next
    case False
    then have "{u \<in> set (t # ts). now \<le> u} = {u \<in> set ts. now \<le> u}" by auto
    with False Cons show ?thesis by simp
  qed
qed simp

lemma sorted_times:
  assumes "sort_func (SortTimes L)"
  shows "sorted (SortTimes L timeSub ts)"
proof -
  have "sorted_wrt (\<lambda>a b. timeSub a b \<le> 0) (SortTimes L timeSub ts)"
    by (rule sort_func.sorted_sort [OF assms weak_order_timeSub])
  moreover have "timeSub a b \<le> 0 \<longleftrightarrow> a \<le> b" for a b
    using timeSub_pos_iff [of a b] by linarith
  ultimately show ?thesis by simp
qed

end
