(* ===== verification/Suspension.thy ===== *)
theory Suspension
  imports Libraries
begin

text \<open>
  The loop over suspension windows which the controllers of upgrade jobs and upgrade configs share
  in form: the first window whose selector matches the labels and which covers the time. A window
  whose selector does not parse is passed over.
\<close>

fun findWindow :: "'z lib_scheme \<Rightarrow> (UpgradeSuspensionWindowSpec \<Rightarrow> LabelSelector option)
    \<Rightarrow> (string \<rightharpoonup> string) \<Rightarrow> time \<Rightarrow> UpgradeSuspensionWindow list \<Rightarrow> UpgradeSuspensionWindow option"
where
  "findWindow L selectorOf ls t [] = None"
| "findWindow L selectorOf ls t (window # ws) =
     (case LabelSelectorAsSelector L (selectorOf (usw_Spec window)) of
        Inl e \<Rightarrow> findWindow L selectorOf ls t ws
      | Inr sel \<Rightarrow>
         if \<not> Matches sel ls then findWindow L selectorOf ls t ws
         else if t < Start (usw_Spec window) \<or> t > End (usw_Spec window)
         then findWindow L selectorOf ls t ws
         else Some window)"

section \<open>Which window\<close>

definition windowCovers ::
  "'z lib_scheme \<Rightarrow> (UpgradeSuspensionWindowSpec \<Rightarrow> LabelSelector option) \<Rightarrow> (string \<rightharpoonup> string) \<Rightarrow> time
     \<Rightarrow> UpgradeSuspensionWindow \<Rightarrow> bool"
where
  "windowCovers L selectorOf ls t w \<longleftrightarrow> (\<exists>sel. LabelSelectorAsSelector L (selectorOf (usw_Spec w)) = Inr sel
     \<and> Matches sel ls) \<and> Start (usw_Spec w) \<le> t \<and> t \<le> End (usw_Spec w)"

lemma findWindow_Some:
  "findWindow L sel ls t ws = Some w \<Longrightarrow> w \<in> set ws \<and> windowCovers L sel ls t w"
  by (induction ws) (auto simp: windowCovers_def split: sum.splits if_splits)

lemma findWindow_None:
  "findWindow L sel ls t ws = None \<longleftrightarrow> (\<forall>w \<in> set ws. \<not> windowCovers L sel ls t w)"
  by (induction ws) (auto simp: windowCovers_def split: sum.splits)

end
