(* ===== verification/UpgradeJob_Controller.thy ===== *)
theory UpgradeJob_Controller
  imports Machine_Pools ClusterVersion_Pkg Suspension
begin

text \<open>
  \<^verbatim>\<open>UpgradeJobReconciler.Reconcile\<close> and \<^verbatim>\<open>reconcileStartedJob\<close> with the parts they call: the lock on the
  upstream cluster version, the health checks and the suspension windows.
\<close>

section \<open>The lock on the cluster version\<close>

definition upgradeJobNameFromLockedClusterVersion :: "ClusterVersion \<Rightarrow> bool \<times> NamespacedName" where
  "upgradeJobNameFromLockedClusterVersion cv =
     (let job = annotation cv JobLockAnnotation; none = \<lparr>nn_Namespace = '''', nn_Name = ''''\<rparr> in
      if job = '''' then (False, none)
      else case splitOn (CHR ''/'') job of
        [ns, name] \<Rightarrow> (True, \<lparr>nn_Namespace = ns, nn_Name = name\<rparr>)
      | _ \<Rightarrow> (False, none))"

definition JobFromClusterVersionMapper ::
  "'s UpgradeJobReconciler \<Rightarrow> string \<Rightarrow> ('s, NamespacedName list) uj_io"
where
  "JobFromClusterVersionMapper r cvName = do {
     got \<leftarrow> getClusterVersion r cvName;
     ret (case got of
       Inl e \<Rightarrow> []
     | Inr version \<Rightarrow> (case upgradeJobNameFromLockedClusterVersion version of (found, nn) \<Rightarrow>
         if \<not> found then [] else [nn]))
   }"

text \<open>\<open>tryLockClusterVersion\<close> returns the version variable as well: after an update it holds the
  object the server returned.\<close>

definition tryLockClusterVersion ::
  "'s UpgradeJobReconciler \<Rightarrow> ClusterVersion \<Rightarrow> string \<Rightarrow> ('s, error + ClusterVersion) uj_io"
where
  "tryLockClusterVersion r version lv = (case Annotations version JobLockAnnotation of
     Some lockingJob \<Rightarrow>
       if lockingJob \<noteq> lv
       then ret (Inl (ErrorString (''cluster version is locked by '' @ lockingJob)))
       else ret (Inr version)
   | None \<Rightarrow> do {
       res \<leftarrow> updateClusterVersion r
         (version\<lparr>Annotations := (Annotations version)(JobLockAnnotation \<mapsto> lv)\<rparr>);
       ret (case res of
         Inl e \<Rightarrow> Inl (Errorf ''failed to lock cluster version'' e)
       | Inr version \<Rightarrow> Inr version)
     })"

definition cleanupLock :: "'s UpgradeJobReconciler \<Rightarrow> UpgradeJob \<Rightarrow> ('s, error option) uj_io" where
  "cleanupLock r uj = do {
     got \<leftarrow> getClusterVersion r (ManagedUpstreamClusterVersionName r);
     case got of
       Inl e \<Rightarrow> ret (Some (Errorf ''failed to get cluster version'' e))
     | Inr version \<Rightarrow>
        if Annotations version JobLockAnnotation = Some (lockVal uj) then do {
          res \<leftarrow> updateClusterVersion r
            (version\<lparr>Annotations := (Annotations version)(JobLockAnnotation := None)\<rparr>);
          ret (case res of
            Inl e \<Rightarrow> Some (Errorf ''failed to unlock cluster version'' e)
          | Inr _ \<Rightarrow> None)
        }
        else ret None
   }"

section \<open>Health checks\<close>

definition runHealthCheck ::
  "'z lib_scheme \<Rightarrow> 's UpgradeJobReconciler \<Rightarrow> UpgradeJob \<Rightarrow> ClusterVersion \<Rightarrow> UpgradeJobHealthCheck
     \<Rightarrow> string \<Rightarrow> string \<Rightarrow> ('s, UpgradeJob \<times> (error + bool)) uj_io"
where
  "runHealthCheck L r uj version healthConfig healthConditionType jobHealthFailedReason =
     (case FindStatusCondition L (uj_Conditions uj) healthConditionType of
        None \<Rightarrow> do {
          (uj, err) \<leftarrow> setConditionAndUpdate L r uj
            (newCondition healthConditionType ConditionFalse UpgradeJobReasonInProgress
              ''Health checks started'');
          ret (uj, case err of Some e \<Rightarrow> Inl e | None \<Rightarrow> Inr False)
        }
      | Some healthCond \<Rightarrow>
         if Status healthCond = ConditionTrue then ret (uj, Inr True)
         else let healthy = SkipDegradedOperatorsCheck healthConfig \<or> \<not> IsOperatorDegraded version in
           if \<not> healthy then do {
             now \<leftarrow> clockNow r;
             if now > LastTransitionTime healthCond + hc_Timeout healthConfig then do {
               (uj, err) \<leftarrow> setConditionAndUpdate L r uj
                 (newCondition UpgradeJobConditionFailed ConditionTrue jobHealthFailedReason
                   (''Health checks timed out after '' @ DurationString L (hc_Timeout healthConfig)));
               ret (uj, case err of Some e \<Rightarrow> Inl e | None \<Rightarrow> Inr False)
             }
             else ret (uj, Inr False)
           }
           else do {
             (uj, err) \<leftarrow> setConditionAndUpdate L r uj
               (newCondition healthConditionType ConditionTrue UpgradeJobReasonCompleted ''Health checks ok'');
             ret (uj, case err of Some e \<Rightarrow> Inl e | None \<Rightarrow> Inr True)
           })"

section \<open>Suspension windows\<close>

definition matchingUpgradeSuspensionWindow ::
  "'z lib_scheme \<Rightarrow> 's UpgradeJobReconciler \<Rightarrow> UpgradeJob \<Rightarrow> time
     \<Rightarrow> ('s, error + UpgradeSuspensionWindow option) uj_io"
where
  "matchingUpgradeSuspensionWindow L r uj t = do {
     allWindows \<leftarrow> listWindows r (Namespace uj);
     ret (case allWindows of
       Inl e \<Rightarrow> Inl (Errorf ''failed to list hooks'' e)
     | Inr items \<Rightarrow> Inr (findWindow L JobSelector (Labels uj) t items))
   }"

definition checkAndMarkSkipped ::
  "'z lib_scheme \<Rightarrow> 's UpgradeJobReconciler \<Rightarrow> UpgradeJob \<Rightarrow> time \<Rightarrow> ('s, error + bool) uj_io"
where
  "checkAndMarkSkipped L r uj now = do {
     found \<leftarrow> matchingUpgradeSuspensionWindow L r uj now;
     case found of
       Inl e \<Rightarrow> ret (Inl (Errorf ''failed to search for matching upgrade suspension window'' e))
     | Inr (Some window) \<Rightarrow> do {
        (_, err) \<leftarrow> setConditionAndUpdate L r uj
          (newCondition UpgradeJobConditionSucceeded ConditionTrue UpgradeJobReasonSkipped
            (''Upgrade job skipped by UpgradeSuspensionWindow '' @ quoted (Name window)
              @ '', reason: '' @ quoted (usw_Reason (usw_Spec window))));
        ret (case err of Some e \<Rightarrow> Inl e | None \<Rightarrow> Inr True)
     }
     | Inr None \<Rightarrow> ret (Inr False)
   }"

section \<open>reconcileStartedJob\<close>

text \<open>The end of the function (lines 310--352): success once no pool is paused or updating.\<close>

definition settlePools ::
  "'z lib_scheme \<Rightarrow> 's UpgradeJobReconciler \<Rightarrow> UpgradeJob \<Rightarrow> ('s, error + Result) uj_io"
where
  "settlePools L r uj = do {
     mcpl \<leftarrow> listPools r None;
     case mcpl of
       Inl e \<Rightarrow> ret (Inl (Errorf ''failed to list machine config pools'' e))
     | Inr mcps \<Rightarrow> (case filterPaused (MachineConfigPoolsUpdating mcps) of (paused, poolsUpdating) \<Rightarrow>
       let isUpdatingPools = poolsUpdating \<noteq> [];
           isPaused = paused \<noteq> [] \<and> \<not> isUpdatingPools
       in do {
         (cs, changed) \<leftarrow> setStatusCondition L r (uj_Conditions uj)
           (newCondition UpgradeJobConditionPaused (boolToStatus isPaused) UpgradeJobReasonDelaySet '''');
         let uj = uj\<lparr>uj_Conditions := cs\<rparr>;
         if changed then do {
           res \<leftarrow> statusUpdateUpgradeJob r uj;
           ret (case res of Inl e \<Rightarrow> Inl e | Inr _ \<Rightarrow> Inr noRequeue)
         }
         else if isPaused then do {
           res \<leftarrow> nextTimedReconcile L r uj;
           ret (if res = noRequeue
             then Inl (ErrorString ''job manages paused pools but no next reconcile time found'')
             else Inr res)
         }
         else if isUpdatingPools then ret (Inr noRequeue)
         else do {
           (uj, err) \<leftarrow> setConditionAndUpdate L r uj
             (newCondition UpgradeJobConditionSucceeded ConditionTrue UpgradeJobReasonSucceeded
               ''Upgrade succeeded'');
           ret (case err of
             Some e \<Rightarrow> Inl (Errorf ''failed to set job as succeeded'' e)
           | None \<Rightarrow> Inr noRequeue)
         }
       })
   }"

text \<open>From the second health check on (lines 291--308).\<close>

definition finishStartedJob ::
  "'z lib_scheme \<Rightarrow> 's UpgradeJobReconciler \<Rightarrow> UpgradeJob \<Rightarrow> ClusterVersion \<Rightarrow> ('s, error + Result) uj_io"
where
  "finishStartedJob L r uj version = do {
     (uj, ok) \<leftarrow> runHealthCheck L r uj version (PostUpgradeHealthChecks (Config (uj_Spec uj)))
       UpgradeJobConditionPostHealthCheckDone UpgradeJobReasonPostHealthCheckFailed;
     case ok of
       Inl e \<Rightarrow> ret (Inl (Errorf ''failed to run post-upgrade health checks'' e))
     | Inr ok \<Rightarrow> if \<not> ok then ret (Inr noRequeue) else do {
     (uj, cont) \<leftarrow> executeHooks L r uj EventUpgradeComplete noTrackingKey
       (eventInfoWithReason UpgradeJobReasonCompleted) zeroTime;
     case cont of
       Inl e \<Rightarrow> ret (Inl e)
     | Inr cont \<Rightarrow> if \<not> cont then ret (Inr noRequeue) else settlePools L r uj
     }
   }"

text \<open>The upgrade itself (lines 231--290): set the desired version, then wait for the cluster version
  and the pools that are not paused.\<close>

definition driveUpgrade ::
  "'z lib_scheme \<Rightarrow> 's UpgradeJobReconciler \<Rightarrow> UpgradeJob \<Rightarrow> ClusterVersion \<Rightarrow> Update \<Rightarrow> ('s, error + Result) uj_io"
where
  "driveUpgrade L r uj version dv =
     (if DesiredUpdate (cv_Spec version) = None \<or> DesiredUpdate (cv_Spec version) \<noteq> Some dv then
        if GetDesiredVersionCheckAvailability (uj_Spec uj)
           \<and> FindAvailableUpdate version (upd_Image dv) (upd_Version dv) = None
        then do {
          (uj, err) \<leftarrow> setConditionAndUpdate L r uj
            (newCondition UpgradeJobConditionFailed ConditionTrue UpgradeJobReasonUpgradeWithdrawn
              (''Upgrade became unavailable: '' @ upd_Version dv));
          ret (case err of Some e \<Rightarrow> Inl e | None \<Rightarrow> Inr noRequeue)
        }
        else do {
          res \<leftarrow> updateClusterVersion r
            (version\<lparr>cv_Spec := (cv_Spec version)\<lparr>DesiredUpdate := Some dv\<rparr>\<rparr>);
          ret (case res of
            Inl e \<Rightarrow> Inl (Errorf ''failed to update desired version in cluster version'' e)
          | Inr _ \<Rightarrow> Inr noRequeue)
        }
      else case FindStatusCondition L (uj_Conditions uj) UpgradeJobConditionUpgradeCompleted of
        None \<Rightarrow> do {
          (uj, err) \<leftarrow> setConditionAndUpdate L r uj
            (newCondition UpgradeJobConditionUpgradeCompleted ConditionFalse UpgradeJobReasonInProgress
              ''Upgrade in progress'');
          ret (case err of Some e \<Rightarrow> Inl e | None \<Rightarrow> Inr noRequeue)
        }
      | Some upgradedCon \<Rightarrow>
         if Status upgradedCon \<noteq> ConditionTrue then
           if \<not> IsVersionUpgradeCompleted version then ret (Inr noRequeue)
           else do {
             mcpl \<leftarrow> listPools r None;
             case mcpl of
               Inl e \<Rightarrow> ret (Inl (Errorf ''failed to list machine config pools'' e))
             | Inr mcps \<Rightarrow> (case filterPaused (MachineConfigPoolsUpdating mcps) of (paused, poolsUpdating) \<Rightarrow>
                 if poolsUpdating \<noteq> [] then ret (Inr noRequeue)
                 else do {
                   (uj, err) \<leftarrow> setConditionAndUpdate L r uj
                     (newCondition UpgradeJobConditionUpgradeCompleted ConditionTrue
                       UpgradeJobReasonCompleted ''Upgrade completed'');
                   ret (case err of Some e \<Rightarrow> Inl e | None \<Rightarrow> Inr noRequeue)
                 })
           }
         else finishStartedJob L r uj version)"

text \<open>What follows once the cluster version is locked (lines 212--231).\<close>

definition upgradeLocked ::
  "'z lib_scheme \<Rightarrow> 's UpgradeJobReconciler \<Rightarrow> UpgradeJob \<Rightarrow> ClusterVersion \<Rightarrow> ('s, error + Result) uj_io"
where
  "upgradeLocked L r uj version = do {
     (uj, cont) \<leftarrow> pauseUnpauseMachineConfigPools L r uj;
     case cont of
       Inl e \<Rightarrow> ret (Inl (Errorf ''failed to pause machine config pools'' e))
     | Inr cont \<Rightarrow> if \<not> cont then ret (Inr noRequeue) else do {
     (uj, ok) \<leftarrow> runHealthCheck L r uj version (PreUpgradeHealthChecks (Config (uj_Spec uj)))
       UpgradeJobConditionPreHealthCheckDone UpgradeJobReasonPreHealthCheckFailed;
     case ok of
       Inl e \<Rightarrow> ret (Inl (Errorf ''failed to run pre-upgrade health checks'' e))
     | Inr ok \<Rightarrow> if \<not> ok then ret (Inr noRequeue)
        else case DesiredVersion (uj_Spec uj) of
          Some dv \<Rightarrow> driveUpgrade L r uj version dv
        | None \<Rightarrow> finishStartedJob L r uj version
     }
   }"

definition reconcileStartedJob ::
  "'z lib_scheme \<Rightarrow> 's UpgradeJobReconciler \<Rightarrow> UpgradeJob \<Rightarrow> ('s, error + Result) uj_io"
where
  "reconcileStartedJob L r uj = do {
     sinceStart \<leftarrow> timeSinceStartAfter r uj;
     if sinceStart > UpgradeTimeout (Config (uj_Spec uj)) then do {
       (uj, err) \<leftarrow> setConditionAndUpdate L r uj
         (newCondition UpgradeJobConditionFailed ConditionTrue UpgradeJobReasonTimedOut
           (''Upgrade timed out after '' @ DurationString L (UpgradeTimeout (Config (uj_Spec uj)))));
       ret (case err of Some e \<Rightarrow> Inl e | None \<Rightarrow> Inr noRequeue)
     }
     else do {
     (uj, cont) \<leftarrow> executeHooks L r uj EventStart noTrackingKey
       (eventInfoWithReason UpgradeJobReasonStarted) zeroTime;
     case cont of
       Inl e \<Rightarrow> ret (Inl e)
     | Inr cont \<Rightarrow> if \<not> cont then ret (Inr noRequeue) else do {
     got \<leftarrow> getClusterVersion r (ManagedUpstreamClusterVersionName r);
     case got of
       Inl e \<Rightarrow> ret (Inl (Errorf ''failed to get cluster version'' e))
     | Inr version \<Rightarrow> do {
     locked \<leftarrow> tryLockClusterVersion r version (lockVal uj);
     case locked of
       Inl e \<Rightarrow> ret (Inl (Errorf ''failed to lock cluster version'' e))
     | Inr version \<Rightarrow> upgradeLocked L r uj version
     }}}
   }"

section \<open>Reconcile\<close>

text \<open>The two final states (lines 96--122).\<close>

definition reconcileSucceeded ::
  "'z lib_scheme \<Rightarrow> 's UpgradeJobReconciler \<Rightarrow> UpgradeJob \<Rightarrow> Condition \<Rightarrow> ('s, error + Result) uj_io"
where
  "reconcileSucceeded L r uj sc = do {
     (uj, es) \<leftarrow> executeHooks L r uj EventSuccess noTrackingKey
       (eventInfoWithReason (Reason sc)) (LastTransitionTime sc);
     (uj, ef) \<leftarrow> executeHooks L r uj EventFinish noTrackingKey
       (eventInfoWithReason (Reason sc)) (LastTransitionTime sc);
     cleanup \<leftarrow> cleanupMachineConfigPools L r uj;
     lock \<leftarrow> cleanupLock r uj;
     ret (case Combine L [errOf es, errOf ef, cleanup, lock] of
       None \<Rightarrow> Inr noRequeue
     | Some e \<Rightarrow> Inl e)
   }"

definition reconcileFailed ::
  "'z lib_scheme \<Rightarrow> 's UpgradeJobReconciler \<Rightarrow> UpgradeJob \<Rightarrow> Condition \<Rightarrow> ('s, error + Result) uj_io"
where
  "reconcileFailed L r uj fc = do {
     (uj, efa) \<leftarrow> executeHooks L r uj EventFailure noTrackingKey
       (eventInfoWithReason (Reason fc)) (LastTransitionTime fc);
     (uj, efi) \<leftarrow> executeHooks L r uj EventFinish noTrackingKey
       (eventInfoWithReason (Reason fc)) (LastTransitionTime fc);
     paused \<leftarrow> pauseMachinePoolsOnFailure L r uj;
     lock \<leftarrow> cleanupLock r uj;
     ret (case Combine L [errOf efa, errOf efi, paused, lock] of
       None \<Rightarrow> Inr noRequeue
     | Some e \<Rightarrow> Inl e)
   }"

text \<open>A job that is not started and not finished (lines 136--176).\<close>

definition reconcilePending ::
  "'z lib_scheme \<Rightarrow> 's UpgradeJobReconciler \<Rightarrow> UpgradeJob \<Rightarrow> ('s, error + Result) uj_io"
where
  "reconcilePending L r uj = do {
     now \<leftarrow> clockNow r;
     if now > StartBefore (uj_Spec uj) then do {
       skipped \<leftarrow> checkAndMarkSkipped L r uj now;
       case skipped of
         Inl e \<Rightarrow> ret (Inl e)
       | Inr skipped \<Rightarrow> if skipped then ret (Inr noRequeue)
          else do {
            (uj, err) \<leftarrow> setConditionAndUpdate L r uj
              (newCondition UpgradeJobConditionFailed ConditionTrue UpgradeJobReasonExpired
                (''Job could not be started before '' @ FormatRFC3339 L (StartBefore (uj_Spec uj))));
            ret (case err of Some e \<Rightarrow> Inl e | None \<Rightarrow> Inr noRequeue)
          }
     }
     else if \<not> now < StartAfter (uj_Spec uj) then do {
       skipped \<leftarrow> checkAndMarkSkipped L r uj now;
       case skipped of
         Inl e \<Rightarrow> ret (Inl e)
       | Inr skipped \<Rightarrow> if skipped then ret (Inr noRequeue)
          else do {
            (uj, err) \<leftarrow> setConditionAndUpdate L r uj
              (newCondition UpgradeJobConditionStarted ConditionTrue UpgradeJobReasonStarted
                (''Upgrade started at '' @ FormatRFC3339 L now));
            ret (case err of Some e \<Rightarrow> Inl e | None \<Rightarrow> Inr noRequeue)
          }
     }
     else ret (Inr \<lparr>Requeue = True, RequeueAfter = timeSub (StartAfter (uj_Spec uj)) now\<rparr>)
   }"

definition conditionTrue :: "Condition option \<Rightarrow> Condition option" where
  "conditionTrue c = (case c of
     None \<Rightarrow> None
   | Some c \<Rightarrow> if Status c = ConditionTrue then Some c else None)"

text \<open>A job by its state (lines 96--134).\<close>

definition reconcileJob ::
  "'z lib_scheme \<Rightarrow> 's UpgradeJobReconciler \<Rightarrow> UpgradeJob \<Rightarrow> ('s, error + Result) uj_io"
where
  "reconcileJob L r uj =
     (case conditionTrue (FindStatusCondition L (uj_Conditions uj) UpgradeJobConditionSucceeded) of
        Some sc \<Rightarrow> reconcileSucceeded L r uj sc
      | None \<Rightarrow> (case conditionTrue (FindStatusCondition L (uj_Conditions uj) UpgradeJobConditionFailed) of
          Some fc \<Rightarrow> reconcileFailed L r uj fc
        | None \<Rightarrow> do {
           (uj, cont) \<leftarrow> executeHooks L r uj EventCreate noTrackingKey (eventInfoWithReason '''') zeroTime;
           case cont of
             Inl e \<Rightarrow> ret (Inl e)
           | Inr cont \<Rightarrow>
              if \<not> cont then ret (Inr noRequeue)
              else if IsStatusConditionTrue L (uj_Conditions uj) UpgradeJobConditionStarted
              then reconcileStartedJob L r uj
              else reconcilePending L r uj
        }))"

definition Reconcile ::
  "'z lib_scheme \<Rightarrow> 's UpgradeJobReconciler \<Rightarrow> NamespacedName \<Rightarrow> ('s, error + Result) uj_io"
where
  "Reconcile L r req = do {
     tracked \<leftarrow> trackHookJobs L r req;
     case tracked of
       Some e \<Rightarrow> ret (Inl (Errorf ''failed to track hook jobs'' e))
     | None \<Rightarrow> do {
     got \<leftarrow> getUpgradeJob r req;
     case got of
       Inl e \<Rightarrow> ret (case IgnoreNotFound L e of None \<Rightarrow> Inr noRequeue | Some e \<Rightarrow> Inl e)
     | Inr uj \<Rightarrow>
        if \<not> isZeroPtr (DeletionTimestamp uj) then ret (Inr noRequeue)
        else reconcileJob L r uj
     }
   }"

section \<open>The protocol of a started job\<close>

text \<open>What the server additionally promises: an accepted update of the cluster version returns the
  annotations and the specification that were sent.\<close>

locale upgrade_api = job_api r for r :: "'s UpgradeJobReconciler" +
  assumes update_version: "answers (c_updateClusterVersion r cv) (Inr cv')
    \<Longrightarrow> Annotations cv' = Annotations cv \<and> cv_Spec cv' = cv_Spec cv"

definition cvRead :: "ujCall list \<Rightarrow> ClusterVersion \<Rightarrow> bool" where
  "cvRead h cv \<longleftrightarrow> (\<exists>n. GetClusterVersion n (Inr cv) \<in> set h) \<or> (\<exists>sent. UpdateClusterVersion sent (Inr cv) \<in> set h)"

definition lockHeld :: "string \<Rightarrow> ClusterVersion \<Rightarrow> bool" where
  "lockHeld lv cv \<longleftrightarrow> Annotations cv JobLockAnnotation = Some lv"

text \<open>The three changes of the cluster version.\<close>

definition takesLock :: "string \<Rightarrow> ClusterVersion \<Rightarrow> ClusterVersion \<Rightarrow> bool" where
  "takesLock lv base cv \<longleftrightarrow> Annotations base JobLockAnnotation = None
     \<and> cv = base\<lparr>Annotations := (Annotations base)(JobLockAnnotation \<mapsto> lv)\<rparr>"

definition dropsLock :: "string \<Rightarrow> ClusterVersion \<Rightarrow> ClusterVersion \<Rightarrow> bool" where
  "dropsLock lv base cv \<longleftrightarrow> lockHeld lv base
     \<and> cv = base\<lparr>Annotations := (Annotations base)(JobLockAnnotation := None)\<rparr>"

definition setsDesired :: "string \<Rightarrow> Update \<Rightarrow> ClusterVersion \<Rightarrow> ClusterVersion \<Rightarrow> bool" where
  "setsDesired lv dv base cv \<longleftrightarrow> lockHeld lv base
     \<and> cv = base\<lparr>cv_Spec := (cv_Spec base)\<lparr>DesiredUpdate := Some dv\<rparr>\<rparr>"

text \<open>A condition of the job the server has confirmed: the job had it when it was read, or an update
  that stored it was accepted.\<close>

definition condStored :: "'z lib_scheme \<Rightarrow> UpgradeJob \<Rightarrow> ujCall list \<Rightarrow> string \<Rightarrow> bool" where
  "condStored L uj h t \<longleftrightarrow> IsStatusConditionTrue L (uj_Conditions uj) t
     \<or> (\<exists>sent stored. StatusUpdateUpgradeJob sent (Inr stored) \<in> set h
          \<and> IsStatusConditionTrue L (uj_Conditions stored) t)"

definition known :: "'z lib_scheme \<Rightarrow> UpgradeJob \<Rightarrow> ujCall list \<Rightarrow> UpgradeJob \<Rightarrow> bool" where
  "known L uj h uj' \<longleftrightarrow> sameVerdict L uj uj' \<and> (\<forall>t. t \<noteq> UpgradeJobConditionMachineConfigPoolsPaused
     \<longrightarrow> IsStatusConditionTrue L (uj_Conditions uj') t \<longrightarrow> condStored L uj h t)"

lemma known_sameConditions:
  assumes "condition_laws L" and "sameObject uj uj'"
    and same: "sameConditions L {UpgradeJobConditionMachineConfigPoolsPaused} uj uj'"
  shows "known L uj h uj'"
proof -
  have "sameVerdict L uj uj'" by (rule sameVerdict_conditions [OF assms(2) same]) simp
  moreover have "condStored L uj h t" if "IsStatusConditionTrue L (uj_Conditions uj') t"
    "t \<noteq> UpgradeJobConditionMachineConfigPoolsPaused" for t
    using condition_laws.view_true [OF assms(1), of uj' t uj] same that by (simp add: sameConditions_def condStored_def)
  ultimately show ?thesis by (simp add: known_def)
qed

definition poolsSettled :: "(MachineConfigPool \<Rightarrow> bool) \<Rightarrow> ujCall list \<Rightarrow> bool" where
  "poolsSettled P h \<longleftrightarrow> (\<exists>mcps. ListPools None (Inr mcps) \<in> set h
     \<and> (\<forall>mcp \<in> set mcps. MachineCount mcp = UpdatedMachineCount mcp \<or> P mcp))"

text \<open>When the upgrade may start.\<close>

definition upgradeReady :: "'z lib_scheme \<Rightarrow> UpgradeJob \<Rightarrow> ujCall list \<Rightarrow> ClusterVersion \<Rightarrow> Update \<Rightarrow> bool" where
  "upgradeReady L uj h base dv \<longleftrightarrow> DesiredVersion (uj_Spec uj) = Some dv
     \<and> DesiredUpdate (cv_Spec base) \<noteq> Some dv
     \<and> condStored L uj h UpgradeJobConditionPreHealthCheckDone
     \<and> (GetDesiredVersionCheckAvailability (uj_Spec uj) \<longrightarrow>
          FindAvailableUpdate base (upd_Image dv) (upd_Version dv) \<noteq> None)"

text \<open>Why a started job fails, when its upgrade is completed and when it succeeds.\<close>

definition unhealthy :: "UpgradeJobHealthCheck \<Rightarrow> ujCall list \<Rightarrow> bool" where
  "unhealthy hc h \<longleftrightarrow> \<not> SkipDegradedOperatorsCheck hc \<and> (\<exists>cv. cvRead h cv \<and> IsOperatorDegraded cv)"

definition healthy :: "UpgradeJobHealthCheck \<Rightarrow> ujCall list \<Rightarrow> bool" where
  "healthy hc h \<longleftrightarrow> SkipDegradedOperatorsCheck hc \<or> (\<exists>cv. cvRead h cv \<and> \<not> IsOperatorDegraded cv)"

definition timedOut :: "UpgradeJob \<Rightarrow> ujCall list \<Rightarrow> bool" where
  "timedOut uj h \<longleftrightarrow> (\<exists>now. Now now \<in> set h
     \<and> timeSub now (StartAfter (uj_Spec uj)) > UpgradeTimeout (Config (uj_Spec uj)))"

definition inTime :: "UpgradeJob \<Rightarrow> ujCall list \<Rightarrow> bool" where
  "inTime uj h \<longleftrightarrow> (\<exists>now. Now now \<in> set h
     \<and> timeSub now (StartAfter (uj_Spec uj)) \<le> UpgradeTimeout (Config (uj_Spec uj)))"

definition withdrawn :: "UpgradeJob \<Rightarrow> ujCall list \<Rightarrow> bool" where
  "withdrawn uj h \<longleftrightarrow> GetDesiredVersionCheckAvailability (uj_Spec uj) \<and> (\<exists>cv dv. cvRead h cv
     \<and> lockHeld (lockVal uj) cv \<and> DesiredVersion (uj_Spec uj) = Some dv
     \<and> FindAvailableUpdate cv (upd_Image dv) (upd_Version dv) = None)"

definition failureCause :: "UpgradeJob \<Rightarrow> ujCall list \<Rightarrow> string \<Rightarrow> bool" where
  "failureCause uj h rsn \<longleftrightarrow>
     (rsn = UpgradeJobReasonTimedOut \<and> timedOut uj h)
   \<or> (rsn = UpgradeJobReasonPreHealthCheckFailed \<and> unhealthy (PreUpgradeHealthChecks (Config (uj_Spec uj))) h)
   \<or> (rsn = UpgradeJobReasonPostHealthCheckFailed \<and> unhealthy (PostUpgradeHealthChecks (Config (uj_Spec uj))) h)
   \<or> (rsn = UpgradeJobReasonUpgradeWithdrawn \<and> withdrawn uj h)"

definition upgradeSet :: "UpgradeJob \<Rightarrow> ujCall list \<Rightarrow> ClusterVersion \<Rightarrow> bool" where
  "upgradeSet uj h cv \<longleftrightarrow> cvRead h cv \<and> lockHeld (lockVal uj) cv \<and> DesiredVersion (uj_Spec uj) \<noteq> None
     \<and> DesiredUpdate (cv_Spec cv) = DesiredVersion (uj_Spec uj)"

definition completedCause :: "UpgradeJob \<Rightarrow> ujCall list \<Rightarrow> bool" where
  "completedCause uj h \<longleftrightarrow> (\<exists>cv. upgradeSet uj h cv \<and> IsVersionUpgradeCompleted cv) \<and> poolsSettled Paused h"

definition upgradeDone :: "'z lib_scheme \<Rightarrow> UpgradeJob \<Rightarrow> ujCall list \<Rightarrow> bool" where
  "upgradeDone L uj h \<longleftrightarrow> DesiredVersion (uj_Spec uj) = None
     \<or> condStored L uj h UpgradeJobConditionUpgradeCompleted \<and> (\<exists>cv. upgradeSet uj h cv)"

definition successCause :: "'z lib_scheme \<Rightarrow> UpgradeJob \<Rightarrow> ujCall list \<Rightarrow> bool" where
  "successCause L uj h \<longleftrightarrow> upgradeDone L uj h
     \<and> condStored L uj h UpgradeJobConditionPreHealthCheckDone
     \<and> condStored L uj h UpgradeJobConditionPostHealthCheckDone
     \<and> (\<exists>uj'. sameObject uj uj' \<and> hooksDone L uj' EventUpgradeComplete noTrackingKey zeroTime h)
     \<and> poolsSettled (\<lambda>_. False) h"

definition startVerdict :: "'z lib_scheme \<Rightarrow> UpgradeJob \<Rightarrow> ujCall list \<Rightarrow> Condition \<Rightarrow> bool" where
  "startVerdict L uj h c \<longleftrightarrow>
     Type c = UpgradeJobConditionPaused
   \<or> (Type c = UpgradeJobConditionPreHealthCheckDone
        \<and> (Status c = ConditionFalse \<or> healthy (PreUpgradeHealthChecks (Config (uj_Spec uj))) h))
   \<or> (Type c = UpgradeJobConditionPostHealthCheckDone
        \<and> (Status c = ConditionFalse \<or> healthy (PostUpgradeHealthChecks (Config (uj_Spec uj))) h))
   \<or> (Type c = UpgradeJobConditionFailed \<and> Status c = ConditionTrue \<and> failureCause uj h (Reason c))
   \<or> (Type c = UpgradeJobConditionUpgradeCompleted \<and> Status c = ConditionFalse)
   \<or> (Type c = UpgradeJobConditionUpgradeCompleted \<and> Status c = ConditionTrue \<and> completedCause uj h)
   \<or> (Type c = UpgradeJobConditionSucceeded \<and> Status c = ConditionTrue
        \<and> Reason c = UpgradeJobReasonSucceeded \<and> successCause L uj h)"

text \<open>Pools are only paused and unpaused in time, after the start hooks and while the cluster version is read
  with the lock of the job.\<close>

definition underLock :: "'z lib_scheme \<Rightarrow> UpgradeJob \<Rightarrow> ujCall list \<Rightarrow> bool" where
  "underLock L uj h \<longleftrightarrow> (\<exists>cv. cvRead h cv \<and> lockHeld (lockVal uj) cv) \<and> inTime uj h
     \<and> hooksDone L uj EventStart noTrackingKey zeroTime h"

definition startProtocol ::
  "'z lib_scheme \<Rightarrow> 's UpgradeJobReconciler \<Rightarrow> UpgradeJob \<Rightarrow> ujCall list \<Rightarrow> ujCall \<Rightarrow> bool"
where
  "startProtocol L r uj h e \<longleftrightarrow> (case e of
     GetClusterVersion n _ \<Rightarrow> n = ManagedUpstreamClusterVersionName r
   | ListPools _ _ \<Rightarrow> True
   | Now _ \<Rightarrow> True
   | UpdateClusterVersion cv _ \<Rightarrow> inTime uj h \<and> hooksDone L uj EventStart noTrackingKey zeroTime h
       \<and> (\<exists>base. cvRead h base \<and> (takesLock (lockVal uj) base cv
            \<or> (\<exists>dv. setsDesired (lockVal uj) dv base cv \<and> upgradeReady L uj h base dv)))
   | StatusUpdateUpgradeJob sent _ \<Rightarrow>
       (\<exists>uj' c. sameVerdict L uj uj' \<and> statusWith L uj' c sent \<and> startVerdict L uj h c)
   | _ \<Rightarrow> False)
   \<or> underLock L uj h \<and> pauseProtocol L uj h e
   \<or> hookProtocol L uj EventStart noTrackingKey zeroTime h e
   \<or> (\<exists>uj'. sameVerdict L uj uj' \<and> hookProtocol L uj' EventUpgradeComplete noTrackingKey zeroTime h e)"

lemma hooksDone_mono [history_mono]:
  assumes "hooksDone L uj event key t h"
  shows "hooksDone L uj event key t (h @ es)"
proof -
  from assms obtain items hooks f s where *: "ListHooks (Namespace uj) (Inr items) \<in> set h"
    "\<And>x. x \<in> set items \<Longrightarrow> hookMatches L uj event t x \<Longrightarrow> WouldExecute x uj \<Longrightarrow> hookKept uj h hooks x"
    "\<And>x. x \<in> set hooks \<Longrightarrow> hookSettled uj event key h f s x"
    "InfluencesOutcome event \<and> \<not> jobFinished L uj \<longrightarrow> \<not> f" "CanSkipUpdate event \<and> \<not> jobFinished L uj \<longrightarrow> \<not> s"
    unfolding hooksDone_def by blast
  show ?thesis unfolding hooksDone_def
    by (rule exI [of _ items], rule exI [of _ hooks], rule exI [of _ f], rule exI [of _ s])
      (use * in \<open>auto intro: history_mono hookSettled_mono\<close>)
qed

lemma cvRead_mono [history_mono]: "cvRead h cv \<Longrightarrow> cvRead (h @ es) cv"
  by (auto simp: cvRead_def)

lemma condStored_mono [history_mono]: "condStored L uj h t \<Longrightarrow> condStored L uj (h @ es) t"
  by (auto simp: condStored_def)

lemma known_mono [history_mono]: "known L uj h uj' \<Longrightarrow> known L uj (h @ es) uj'"
  by (auto simp: known_def intro: condStored_mono)

lemma inTime_mono [history_mono]: "inTime uj h \<Longrightarrow> inTime uj (h @ es)"
  by (auto simp: inTime_def)

lemma underLock_mono [history_mono]: "underLock L uj h \<Longrightarrow> underLock L uj (h @ es)"
  unfolding underLock_def by (blast intro: history_mono)

lemma upgradeSet_mono [history_mono]: "upgradeSet uj h cv \<Longrightarrow> upgradeSet uj (h @ es) cv"
  by (auto simp: upgradeSet_def intro: cvRead_mono)

lemma upgradeDone_mono [history_mono]: "upgradeDone L uj h \<Longrightarrow> upgradeDone L uj (h @ es)"
  unfolding upgradeDone_def by (blast intro: history_mono)

lemma poolsSettled_mono [history_mono]: "poolsSettled P h \<Longrightarrow> poolsSettled P (h @ es)"
  by (auto simp: poolsSettled_def)

lemma healthy_mono [history_mono]: "healthy hc h \<Longrightarrow> healthy hc (h @ es)"
  unfolding healthy_def by (blast intro: history_mono)

lemma unhealthy_mono [history_mono]: "unhealthy hc h \<Longrightarrow> unhealthy hc (h @ es)"
  unfolding unhealthy_def by (blast intro: history_mono)

lemma withdrawn_mono [history_mono]: "withdrawn uj h \<Longrightarrow> withdrawn uj (h @ es)"
  unfolding withdrawn_def by (blast intro: history_mono)

lemma timedOut_mono [history_mono]: "timedOut uj h \<Longrightarrow> timedOut uj (h @ es)"
  unfolding timedOut_def by auto

lemma failureCause_mono [history_mono]: "failureCause uj h rsn \<Longrightarrow> failureCause uj (h @ es) rsn"
  unfolding failureCause_def by (elim disj_forward conj_forward; (assumption | erule history_mono))

lemma completedCause_mono [history_mono]: "completedCause uj h \<Longrightarrow> completedCause uj (h @ es)"
  unfolding completedCause_def by (blast intro: history_mono)

lemma successCause_mono [history_mono]: "successCause L uj h \<Longrightarrow> successCause L uj (h @ es)"
  unfolding successCause_def by (blast intro: history_mono)

lemma startVerdict_mono [history_mono]: "startVerdict L uj h c \<Longrightarrow> startVerdict L uj (h @ es) c"
  unfolding startVerdict_def
  by (elim disj_forward conj_forward; (assumption | erule history_mono))

lemma startProtocol_Now [simp]: "startProtocol L r uj h (Now t)"
  by (simp add: startProtocol_def)

lemma startProtocol_ListPools [simp]: "startProtocol L r uj h (ListPools sel res)"
  by (simp add: startProtocol_def)

lemma startProtocol_status:
  "sameVerdict L uj uj' \<Longrightarrow> statusWith L uj' c sent \<Longrightarrow> startVerdict L uj h c
    \<Longrightarrow> startProtocol L r uj (h @ es) (StatusUpdateUpgradeJob sent res)"
  unfolding startProtocol_def by (auto dest: startVerdict_mono)

lemma known_stored:
  "sameVerdict L uj stored \<Longrightarrow> known L uj (h @ [x, StatusUpdateUpgradeJob sent (Inr stored)]) stored"
  unfolding known_def condStored_def by auto

lemma condStored_stored:
  "IsStatusConditionTrue L (uj_Conditions stored) t
    \<Longrightarrow> condStored L uj (h @ [x, StatusUpdateUpgradeJob sent (Inr stored)]) t"
  unfolding condStored_def by auto

text \<open>The verdicts, one by one.\<close>

lemma verdict_paused: "startVerdict L uj h (newCondition UpgradeJobConditionPaused st rsn msg)"
  by (simp add: startVerdict_def)

lemma verdict_progress:
  "startVerdict L uj h (newCondition UpgradeJobConditionUpgradeCompleted ConditionFalse rsn msg)"
  "startVerdict L uj h (newCondition UpgradeJobConditionPreHealthCheckDone ConditionFalse rsn msg)"
  "startVerdict L uj h (newCondition UpgradeJobConditionPostHealthCheckDone ConditionFalse rsn msg)"
  by (simp_all add: startVerdict_def)

lemma verdict_pre:
  "healthy (PreUpgradeHealthChecks (Config (uj_Spec uj))) h
    \<Longrightarrow> startVerdict L uj h (newCondition UpgradeJobConditionPreHealthCheckDone st rsn msg)"
  by (simp add: startVerdict_def)

lemma verdict_post:
  "healthy (PostUpgradeHealthChecks (Config (uj_Spec uj))) h
    \<Longrightarrow> startVerdict L uj h (newCondition UpgradeJobConditionPostHealthCheckDone st rsn msg)"
  by (simp add: startVerdict_def)

lemma verdict_failed:
  "failureCause uj h rsn \<Longrightarrow> startVerdict L uj h (newCondition UpgradeJobConditionFailed ConditionTrue rsn msg)"
  by (simp add: startVerdict_def)

lemma verdict_completed:
  "completedCause uj h \<Longrightarrow> startVerdict L uj h (newCondition UpgradeJobConditionUpgradeCompleted ConditionTrue rsn msg)"
  by (simp add: startVerdict_def)

lemma verdict_succeeded:
  "successCause L uj h \<Longrightarrow> startVerdict L uj h
     (newCondition UpgradeJobConditionSucceeded ConditionTrue UpgradeJobReasonSucceeded msg)"
  by (simp add: startVerdict_def)

lemma cause_timedOut: "timedOut uj h \<Longrightarrow> failureCause uj h UpgradeJobReasonTimedOut"
  by (simp add: failureCause_def)

lemma cause_pre:
  "unhealthy (PreUpgradeHealthChecks (Config (uj_Spec uj))) h \<Longrightarrow> failureCause uj h UpgradeJobReasonPreHealthCheckFailed"
  by (simp add: failureCause_def)

lemma cause_post:
  "unhealthy (PostUpgradeHealthChecks (Config (uj_Spec uj))) h \<Longrightarrow> failureCause uj h UpgradeJobReasonPostHealthCheckFailed"
  by (simp add: failureCause_def)

lemma cause_withdrawn: "withdrawn uj h \<Longrightarrow> failureCause uj h UpgradeJobReasonUpgradeWithdrawn"
  by (simp add: failureCause_def)

text \<open>One of the two health checks of a job: its configuration, condition and failure reason.\<close>

definition healthCheckOf :: "'z lib_scheme \<Rightarrow> UpgradeJob \<Rightarrow> UpgradeJobHealthCheck \<Rightarrow> string \<Rightarrow> string \<Rightarrow> bool" where
  "healthCheckOf L uj hc ty rsn \<longleftrightarrow> ty \<noteq> UpgradeJobConditionMachineConfigPoolsPaused \<and> ty \<notin> verdictTypes \<and>
     (\<forall>h x y. startVerdict L uj h (newCondition ty ConditionFalse x y)
        \<and> (healthy hc h \<longrightarrow> startVerdict L uj h (newCondition ty ConditionTrue x y))
        \<and> (unhealthy hc h \<longrightarrow> failureCause uj h rsn))"

lemma healthCheckOf_pre: "healthCheckOf L uj (PreUpgradeHealthChecks (Config (uj_Spec uj)))
    UpgradeJobConditionPreHealthCheckDone UpgradeJobReasonPreHealthCheckFailed"
  unfolding healthCheckOf_def by (simp add: verdict_progress verdict_pre cause_pre)

lemma healthCheckOf_post: "healthCheckOf L uj (PostUpgradeHealthChecks (Config (uj_Spec uj)))
    UpgradeJobConditionPostHealthCheckDone UpgradeJobReasonPostHealthCheckFailed"
  unfolding healthCheckOf_def by (simp add: verdict_progress verdict_post cause_post)

context job_api
begin

text \<open>The job sets a condition and returns.\<close>

lemma startProtocol_return:
  assumes "sameVerdict L uj uj'" and "startVerdict L uj h c"
  shows "follows (startProtocol L r uj) h
    (do { (uj2, err) \<leftarrow> setConditionAndUpdate L r uj' c; ret (f err) }) (\<lambda>_ _. True)"
  by (rule follows_setConditionAndReturn) (use assms in \<open>auto intro: startProtocol_status\<close>)

lemma startProtocol_update:
  assumes "condition_laws L" and "sameVerdict L uj uj'" and "startVerdict L uj h c"
    and "b \<longrightarrow> Type c = ty \<and> Status c = ConditionTrue \<and> ty \<notin> verdictTypes"
  shows "follows (startProtocol L r uj) h (do {
      (uj2, err) \<leftarrow> setConditionAndUpdate L r uj' c;
      ret (uj2, case err of Some e \<Rightarrow> Inl e | None \<Rightarrow> Inr b) })
    (\<lambda>(uj2, res) h'. res = Inr True \<longrightarrow> known L uj h' uj2 \<and> condStored L uj h' ty)"
proof (rule follows_bind [OF follows_setConditionAndUpdate], goal_cases)
  case (3 x es)
  then obtain now sent res where *: "statusWith L uj' c sent"
    "h @ es = h @ [Now now, StatusUpdateUpgradeJob sent res]" "x = (okOr sent res, errOf res)"
    "sameJob sent (okOr sent res)" by auto
  have obj: "sameVerdict L uj (okOr sent res)" if b
    using condition_laws.statusWith_sameVerdict [OF assms(1,2) *(1,4)] assms(4) that by simp
  show ?case
  proof (cases res)
    case (Inr stored)
    have "IsStatusConditionTrue L (uj_Conditions stored) ty" if b
      using condition_laws.statusWith_true [OF assms(1) *(1,4)] assms(4) that Inr by auto
    with * obj Inr known_stored [where stored = stored and h = h and x = "Now now" and sent = sent] show ?thesis
      by (auto intro!: follows_ret condStored_stored)
  qed (use * in \<open>auto intro: follows_ret\<close>)
qed (use assms in \<open>auto intro: startProtocol_status\<close>)

lemma runHealthCheck_follows:
  assumes L: "condition_laws L" and uj': "known L uj h uj'" and cv: "cvRead h cv"
    and hc: "healthCheckOf L uj hc ty rsn"
  shows "follows (startProtocol L r uj) h (runHealthCheck L r uj' cv hc ty rsn)
    (\<lambda>(uj2, res) h'. res = Inr True \<longrightarrow> known L uj h' uj2 \<and> condStored L uj h' ty)"
  unfolding runHealthCheck_def Let_def
proof (intro follows_case_option follows_if follows_bind_call, goal_cases)
  case 1
  show ?case by (rule startProtocol_update [OF L]) (use uj' hc in \<open>auto simp: known_def healthCheckOf_def\<close>)
next
  case (2 c)
  then have "IsStatusConditionTrue L (uj_Conditions uj') ty"
    by (auto simp: condition_laws.is_true [OF L])
  with uj' hc show ?case by (auto intro!: follows_ret simp: known_def healthCheckOf_def)
next
  case (4 c now)
  then have "unhealthy hc (h @ [Now now])" using cv by (auto simp: unhealthy_def intro: cvRead_mono)
  then have v: "startVerdict L uj (h @ [Now now]) (newCondition UpgradeJobConditionFailed ConditionTrue rsn m)" for m
    using hc by (auto simp: healthCheckOf_def intro: verdict_failed)
  show ?case by (rule startProtocol_update [OF L _ v]) (use uj' in \<open>auto simp: known_def\<close>)
next
  case (6 c)
  then have "healthy hc h" using cv by (auto simp: healthy_def)
  then show ?case
    by (intro startProtocol_update [OF L]) (use uj' hc in \<open>auto simp: known_def healthCheckOf_def\<close>)
qed (auto intro: follows_ret)

lemma finishHooks_follows:
  assumes "combine_laws L" and "sameVerdict L uj uj'"
  shows "follows (startProtocol L r uj) h (executeHooks L r uj' EventUpgradeComplete noTrackingKey info zeroTime)
    (\<lambda>(uj2, res) h'. res = Inr True \<longrightarrow> uj2 = uj' \<and> hooksDone L uj' EventUpgradeComplete noTrackingKey zeroTime h')"
  by (rule follows_mono [OF executeHooks_follows [OF assms(1)]])
    (use assms(2) in \<open>auto simp: startProtocol_def\<close>)

end

lemma nextTimedReconcile_follows:
  "(\<And>t. E h (Now t)) \<Longrightarrow> follows E h (nextTimedReconcile L r uj) (\<lambda>_ _. True)"
  unfolding nextTimedReconcile_def by (intro follows_bind_call follows_ret) auto

lemma filterPaused_eq:
  "filterPaused ps = (filter up_Paused ps, filter (\<lambda>p. \<not> up_Paused p) ps)"
  by (induction ps) auto

lemma poolsSettled_all:
  assumes "filterPaused (MachineConfigPoolsUpdating mcps) = (paused, updating)"
    and "ListPools None (Inr mcps) \<in> set h"
  shows "updating = [] \<Longrightarrow> poolsSettled Paused h"
    and "updating = [] \<Longrightarrow> paused = [] \<Longrightarrow> poolsSettled (\<lambda>_. False) h"
  using assms unfolding poolsSettled_def filterPaused_eq MachineConfigPoolsUpdating_eq
  by (auto simp: filter_empty_conv intro!: exI [of _ mcps])

context job_api
begin

lemma settlePools_follows:
  assumes L: "condition_laws L" and same: "sameVerdict L uj uj'"
    and cause: "\<And>es. poolsSettled (\<lambda>_. False) (h @ es) \<Longrightarrow> successCause L uj (h @ es)"
  shows "follows (startProtocol L r uj) h (settlePools L r uj') (\<lambda>_ _. True)"
  unfolding settlePools_def Let_def
proof (intro follows_bind_call follows_case_sum follows_case_prod follows_setStatusCondition follows_if
    follows_ret, goal_cases)
  case (4 mcpl mcps paused updating now cs changed csa changeda res)
  then show ?case
    using startProtocol_status [OF same _ verdict_paused, where es = "[]"] by fastforce
next
  case (6 mcpl mcps paused updating now cs changed csa changeda)
  show ?case by (intro follows_bind [OF nextTimedReconcile_follows] follows_ret) auto
next
  case (8 mcpl mcps paused updating now cs changed csa changeda)
  have "poolsSettled (\<lambda>_. False) ((h @ [ListPools None mcpl]) @ [Now now])"
    using 8 by (intro poolsSettled_all(2)) auto
  then have "successCause L uj ((h @ [ListPools None mcpl]) @ [Now now])"
    unfolding append_assoc by (rule cause)
  note win = verdict_succeeded [OF this]
  from 8 have "statusWith L uj' (newCondition UpgradeJobConditionPaused
      (boolToStatus (paused \<noteq> [] \<and> \<not> updating \<noteq> [])) UpgradeJobReasonDelaySet '''') (uj'\<lparr>uj_Conditions := csa\<rparr>)" by simp
  from condition_laws.statusWith_sameVerdict [OF L same this sameJob_refl]
  have "sameVerdict L uj (uj'\<lparr>uj_Conditions := csa\<rparr>)" by simp
  from startProtocol_return [OF this win] show ?case .
qed simp_all

lemma finishStartedJob_follows:
  assumes L: "condition_laws L" "combine_laws L" and uj': "known L uj h uj'" and cv: "cvRead h cv"
    and up: "upgradeDone L uj h" and pre: "condStored L uj h UpgradeJobConditionPreHealthCheckDone"
  shows "follows (startProtocol L r uj) h (finishStartedJob L r uj' cv) (\<lambda>_ _. True)"
proof -
  have spec: "uj_Spec uj' = uj_Spec uj" using uj' by (simp add: known_def sameVerdict_def sameObject_def)
  note post = runHealthCheck_follows [OF L(1) uj' cv healthCheckOf_post]
  show ?thesis unfolding finishStartedJob_def spec
  proof (rule follows_bind [OF post], intro follows_case_prod follows_case_sum follows_if, goal_cases)
    case (3 x es uj2 ok b)
    then have pc: "condStored L uj (h @ es) UpgradeJobConditionPostHealthCheckDone"
      and same: "sameVerdict L uj uj2" by (auto simp: known_def)
    show ?case
    proof (rule follows_bind [OF finishHooks_follows [OF L(2) same]],
        intro follows_case_prod follows_case_sum follows_if, goal_cases)
      case (3 y es' uj3 cont c)
      then have "uj3 = uj2" and hd: "hooksDone L uj2 EventUpgradeComplete noTrackingKey zeroTime ((h @ es) @ es')"
        by auto
      moreover have "successCause L uj (((h @ es) @ es') @ zs)"
        if "poolsSettled (\<lambda>_. False) (((h @ es) @ es') @ zs)" for zs
        unfolding successCause_def
        using that sameVerdict_object [OF same] hooksDone_mono [OF hd] upgradeDone_mono [OF up] condStored_mono [OF pre]
          condStored_mono [OF pc] unfolding append_assoc by blast
      ultimately show ?case by (auto intro: settlePools_follows [OF L(1) same])
    qed (auto intro: follows_ret)
  qed (auto intro: follows_ret)
qed

lemma driveUpgrade_follows:
  assumes L: "condition_laws L" "combine_laws L" and uj': "known L uj h uj'"
    and cv: "cvRead h cv" "lockHeld (lockVal uj) cv"
    and dv: "DesiredVersion (uj_Spec uj) = Some dv"
    and pre: "condStored L uj h UpgradeJobConditionPreHealthCheckDone"
    and run: "inTime uj h" "hooksDone L uj EventStart noTrackingKey zeroTime h"
  shows "follows (startProtocol L r uj) h (driveUpgrade L r uj' cv dv) (\<lambda>_ _. True)"
proof -
  have spec: "uj_Spec uj' = uj_Spec uj" and same: "sameVerdict L uj uj'"
    using uj' by (simp_all add: known_def sameVerdict_def sameObject_def)
  show ?thesis unfolding driveUpgrade_def spec
  proof (intro follows_if follows_case_option, goal_cases)
    case 1
    then have "withdrawn uj h" using cv dv by (auto simp: withdrawn_def)
    then show ?case by (intro startProtocol_return same verdict_failed cause_withdrawn)
  next
    case 2
    then have "upgradeReady L uj h cv dv" using dv pre by (auto simp: upgradeReady_def)
    then have "startProtocol L r uj h (UpdateClusterVersion
        (cv\<lparr>cv_Spec := (cv_Spec cv)\<lparr>DesiredUpdate := Some dv\<rparr>\<rparr>) res)" for res
      unfolding startProtocol_def setsDesired_def using run cv by auto
    then show ?case by (intro follows_bind_call follows_ret) auto
  next
    case 3
    show ?case by (intro startProtocol_return same verdict_progress)
  next
    case (4 con)
    then show ?case by (intro follows_ret) auto
  next
    case (5 con)
    have set: "upgradeSet uj h cv" using 5 cv dv by (auto simp: upgradeSet_def)
    show ?case
    proof (intro follows_bind_call follows_case_sum follows_case_prod follows_if follows_ret, goal_cases)
      case (4 mcpl mcps paused updating)
      have "poolsSettled Paused (h @ [ListPools None mcpl])" using 4 by (intro poolsSettled_all(1)) auto
      then have "completedCause uj (h @ [ListPools None mcpl])"
        using set 5 by (auto simp: completedCause_def intro: upgradeSet_mono)
      then show ?case by (intro startProtocol_return same verdict_completed)
    qed simp_all
  next
    case (6 con)
    then have "IsStatusConditionTrue L (uj_Conditions uj') UpgradeJobConditionUpgradeCompleted"
      by (auto simp: condition_laws.is_true [OF L(1)])
    then have "condStored L uj h UpgradeJobConditionUpgradeCompleted" using uj' by (simp add: known_def)
    then have "upgradeDone L uj h" using 6 cv dv by (auto simp: upgradeDone_def upgradeSet_def)
    then show ?case by (intro finishStartedJob_follows L uj' cv(1) pre)
  qed
qed

end

context upgrade_api
begin

lemma tryLockClusterVersion_follows:
  assumes "cvRead h cv" and "inTime uj h" and "hooksDone L uj EventStart noTrackingKey zeroTime h"
  shows "follows (startProtocol L r uj) h (tryLockClusterVersion r cv (lockVal uj))
    (\<lambda>res h'. \<forall>cv'. res = Inr cv' \<longrightarrow> cvRead h' cv' \<and> lockHeld (lockVal uj) cv')"
  unfolding tryLockClusterVersion_def
proof (intro follows_case_option follows_if follows_bind_call follows_ret, goal_cases)
  case (1 res)
  then show ?case using assms by (auto simp: startProtocol_def takesLock_def)
next
  case (2 res)
  then show ?case by (auto simp: cvRead_def lockHeld_def split: sum.splits dest: update_version)
qed (use assms in \<open>auto simp: lockHeld_def\<close>)

lemma upgradeLocked_follows:
  assumes L: "condition_laws L" "combine_laws L" and cv: "cvRead h cv" "lockHeld (lockVal uj) cv"
    and run: "inTime uj h" "hooksDone L uj EventStart noTrackingKey zeroTime h"
  shows "follows (startProtocol L r uj) h (upgradeLocked L r uj cv) (\<lambda>_ _. True)"
proof -
  have pause: "follows (startProtocol L r uj) h (pauseUnpauseMachineConfigPools L r uj)
    (\<lambda>(uj', res) h'. res = Inr True \<longrightarrow> known L uj h' uj')"
  proof (rule follows_mono [OF follows_mono_from [OF pauseUnpauseMachineConfigPools_follows [OF L(2,1)]]])
    have "underLock L uj h" using cv run by (auto simp: underLock_def)
    then show "startProtocol L r uj (h @ es) e" if "pauseProtocol L uj (h @ es) e" for es e
      using that underLock_mono by (auto simp: startProtocol_def)
  qed (auto intro: known_sameConditions [OF L(1)])
  show ?thesis unfolding upgradeLocked_def
  proof (rule follows_bind [OF pause], intro follows_case_prod follows_case_sum follows_if, goal_cases)
    case (3 x es uj1 cont b)
    then have uj1: "known L uj (h @ es) uj1" and spec: "uj_Spec uj1 = uj_Spec uj"
      by (auto simp: known_def sameVerdict_def sameObject_def)
    show ?case unfolding spec
    proof (rule follows_bind [OF runHealthCheck_follows [OF L(1) uj1 cvRead_mono [OF cv(1)] healthCheckOf_pre]],
        intro follows_case_prod follows_case_sum follows_if, goal_cases)
      case (3 y es' uj2 ok b)
      then have uj2: "known L uj ((h @ es) @ es') uj2" and spec: "uj_Spec uj2 = uj_Spec uj"
        and pre: "condStored L uj ((h @ es) @ es') UpgradeJobConditionPreHealthCheckDone"
        by (auto simp: known_def sameVerdict_def sameObject_def)
      have cv': "cvRead ((h @ es) @ es') cv" using cv(1) by (auto intro: history_mono)
      show ?case unfolding spec
      proof (intro follows_case_option, goal_cases)
        case 1
        then show ?case
          by (intro finishStartedJob_follows L uj2 cv' pre) (simp add: upgradeDone_def)
      next
        case (2 dv)
        then show ?case
          by (intro driveUpgrade_follows L uj2 cv' cv(2) pre) (use run in \<open>auto intro: history_mono\<close>)
      qed
    qed (auto intro: follows_ret)
  qed (auto intro: follows_ret)
qed

lemma lockAndUpgrade_follows:
  assumes L: "condition_laws L" "combine_laws L"
    and "cvRead h cv" and "inTime uj h" and "hooksDone L uj EventStart noTrackingKey zeroTime h"
  shows "follows (startProtocol L r uj) h (do {
      locked \<leftarrow> tryLockClusterVersion r cv (lockVal uj);
      case locked of Inl e \<Rightarrow> ret (Inl (f e)) | Inr version \<Rightarrow> upgradeLocked L r uj version }) (\<lambda>_ _. True)"
  by (rule follows_bind [OF tryLockClusterVersion_follows], rule assms(3), rule assms(4), rule assms(5),
      intro follows_case_sum upgradeLocked_follows L)
    (use assms in \<open>auto intro: follows_ret history_mono\<close>)

lemma reconcileStartedJob_follows:
  assumes L: "condition_laws L" "combine_laws L"
  shows "follows (startProtocol L r uj) h (reconcileStartedJob L r uj) (\<lambda>_ _. True)"
proof -
  have start: "follows (startProtocol L r uj) h' (executeHooks L r uj EventStart noTrackingKey info zeroTime)
    (\<lambda>(uj', res) h'. res = Inr True \<longrightarrow> uj' = uj \<and> hooksDone L uj EventStart noTrackingKey zeroTime h')" for h' info
    by (rule follows_mono [OF executeHooks_follows [OF L(2)]]) (auto simp: startProtocol_def)
  show ?thesis
    unfolding reconcileStartedJob_def timeSinceStartAfter_def State_Monad.bind_assoc State_Monad.bind_left_identity
  proof (intro follows_bind_call follows_if, goal_cases)
    case (2 now)
    then have "timedOut uj (h @ [Now now])" by (auto simp: timedOut_def)
    then show ?case by (intro startProtocol_return verdict_failed cause_timedOut) simp
  next
    case (3 now)
    then have time: "inTime uj (h @ [Now now])" by (auto simp: inTime_def)
    show ?case
    proof (rule follows_bind [OF start], intro follows_case_prod follows_case_sum follows_if follows_bind_call, goal_cases)
      case (5 x es uj' cont b got version)
      let ?h = "((h @ [Now now]) @ es) @ [GetClusterVersion (ManagedUpstreamClusterVersionName r) got]"
      from 5 have "uj' = uj" and "hooksDone L uj EventStart noTrackingKey zeroTime ((h @ [Now now]) @ es)"
        by auto
      moreover from hooksDone_mono [OF this(2)] have "hooksDone L uj EventStart noTrackingKey zeroTime ?h" .
      moreover have time': "inTime uj ?h" by (rule inTime_mono [OF inTime_mono [OF time]])
      moreover have "cvRead ?h version" using 5 by (auto simp: cvRead_def)
      ultimately show ?case
        using lockAndUpgrade_follows [OF L] by (simp only:)
    qed (auto intro: follows_ret simp: startProtocol_def)
  qed simp
qed

end

section \<open>The protocol of a pending job\<close>

definition windowsListed :: "UpgradeJob \<Rightarrow> ujCall list \<Rightarrow> UpgradeSuspensionWindow list \<Rightarrow> bool" where
  "windowsListed uj h ws \<longleftrightarrow> ListWindows (Namespace uj) (Inr ws) \<in> set h"

definition suspended :: "'z lib_scheme \<Rightarrow> UpgradeJob \<Rightarrow> time \<Rightarrow> ujCall list \<Rightarrow> bool" where
  "suspended L uj now h \<longleftrightarrow> (\<exists>ws. windowsListed uj h ws \<and> (\<exists>w \<in> set ws. windowCovers L JobSelector (Labels uj) now w))"

definition notSuspended :: "'z lib_scheme \<Rightarrow> UpgradeJob \<Rightarrow> time \<Rightarrow> ujCall list \<Rightarrow> bool" where
  "notSuspended L uj now h \<longleftrightarrow> (\<exists>ws. windowsListed uj h ws \<and> (\<forall>w \<in> set ws. \<not> windowCovers L JobSelector (Labels uj) now w))"

text \<open>A pending job is started only between its two start times, expired only after the second, and
  both only when no suspension window covers the moment; it is skipped only when one does.\<close>

definition pendingVerdict :: "'z lib_scheme \<Rightarrow> UpgradeJob \<Rightarrow> ujCall list \<Rightarrow> Condition \<Rightarrow> bool" where
  "pendingVerdict L uj h c \<longleftrightarrow> Status c = ConditionTrue \<and> (\<exists>now. Now now \<in> set h \<and>
     (Type c = UpgradeJobConditionSucceeded \<and> Reason c = UpgradeJobReasonSkipped
        \<and> (StartAfter (uj_Spec uj) \<le> now \<or> StartBefore (uj_Spec uj) < now) \<and> suspended L uj now h
      \<or> Type c = UpgradeJobConditionFailed \<and> Reason c = UpgradeJobReasonExpired
        \<and> StartBefore (uj_Spec uj) < now \<and> notSuspended L uj now h
      \<or> Type c = UpgradeJobConditionStarted \<and> Reason c = UpgradeJobReasonStarted
        \<and> StartAfter (uj_Spec uj) \<le> now \<and> now \<le> StartBefore (uj_Spec uj) \<and> notSuspended L uj now h))"

definition pendingProtocol :: "'z lib_scheme \<Rightarrow> UpgradeJob \<Rightarrow> ujCall list \<Rightarrow> ujCall \<Rightarrow> bool" where
  "pendingProtocol L uj h e = (case e of
     Now _ \<Rightarrow> True
   | ListWindows ns _ \<Rightarrow> ns = Namespace uj
   | StatusUpdateUpgradeJob sent _ \<Rightarrow> (\<exists>c. statusWith L uj c sent \<and> pendingVerdict L uj h c)
   | _ \<Rightarrow> False)"

lemma suspended_mono [history_mono]: "suspended L uj now h \<Longrightarrow> suspended L uj now (h @ es)"
  by (auto simp: suspended_def windowsListed_def)

lemma notSuspended_mono [history_mono]: "notSuspended L uj now h \<Longrightarrow> notSuspended L uj now (h @ es)"
  by (auto simp: notSuspended_def windowsListed_def)

lemma pendingVerdict_mono [history_mono]:
  "pendingVerdict L uj h c \<Longrightarrow> pendingVerdict L uj (h @ es) c"
  unfolding pendingVerdict_def
  by (elim conj_forward ex_forward disj_forward; (assumption | erule history_mono | simp))

lemma pendingProtocol_status:
  "statusWith L uj c sent \<Longrightarrow> pendingVerdict L uj h c
    \<Longrightarrow> pendingProtocol L uj (h @ es) (StatusUpdateUpgradeJob sent res)"
  unfolding pendingProtocol_def by (auto dest: pendingVerdict_mono)

lemma pending_skipped:
  "Now now \<in> set h \<Longrightarrow> StartAfter (uj_Spec uj) \<le> now \<or> StartBefore (uj_Spec uj) < now \<Longrightarrow> suspended L uj now h
    \<Longrightarrow> pendingVerdict L uj h (newCondition UpgradeJobConditionSucceeded ConditionTrue UpgradeJobReasonSkipped msg)"
  unfolding pendingVerdict_def by auto

lemma pending_expired:
  "Now now \<in> set h \<Longrightarrow> StartBefore (uj_Spec uj) < now \<Longrightarrow> notSuspended L uj now h
    \<Longrightarrow> pendingVerdict L uj h (newCondition UpgradeJobConditionFailed ConditionTrue UpgradeJobReasonExpired msg)"
  unfolding pendingVerdict_def by auto

lemma pending_started:
  "Now now \<in> set h \<Longrightarrow> StartAfter (uj_Spec uj) \<le> now \<Longrightarrow> now \<le> StartBefore (uj_Spec uj) \<Longrightarrow> notSuspended L uj now h
    \<Longrightarrow> pendingVerdict L uj h (newCondition UpgradeJobConditionStarted ConditionTrue UpgradeJobReasonStarted msg)"
  unfolding pendingVerdict_def by auto

context job_api
begin

lemma pendingProtocol_return:
  assumes "pendingVerdict L uj h c" and "\<And>err h'. R (f err) h'"
  shows "follows (pendingProtocol L uj) h
    (do { (uj2, err) \<leftarrow> setConditionAndUpdate L r uj c; ret (f err) }) R"
proof (rule follows_setConditionAndReturn, goal_cases)
  case (2 now sent res)
  from pendingProtocol_status [OF 2 assms(1)] show ?case .
qed (auto simp: pendingProtocol_def assms(2))

lemma checkAndMarkSkipped_follows:
  assumes "Now now \<in> set h" and "StartAfter (uj_Spec uj) \<le> now \<or> StartBefore (uj_Spec uj) < now"
  shows "follows (pendingProtocol L uj) h (checkAndMarkSkipped L r uj now)
    (\<lambda>res h'. res = Inr False \<longrightarrow> notSuspended L uj now h')"
  unfolding checkAndMarkSkipped_def matchingUpgradeSuspensionWindow_def State_Monad.bind_assoc
    State_Monad.bind_left_identity
proof (rule follows_bind_call, goal_cases)
  case (2 listed)
  let ?h = "h @ [ListWindows (Namespace uj) listed]"
  show ?case
  proof (cases listed)
    case (Inr ws)
    then have listed': "windowsListed uj ?h ws" by (simp add: windowsListed_def)
    show ?thesis
    proof (cases "findWindow L JobSelector (Labels uj) now ws")
      case None
      with listed' have "notSuspended L uj now ?h" by (auto simp: notSuspended_def findWindow_None)
      with Inr None show ?thesis by (auto intro: follows_ret)
    next
      case (Some w)
      with listed' have "suspended L uj now ?h" by (auto simp: suspended_def dest!: findWindow_Some)
      then have "pendingVerdict L uj ?h
          (newCondition UpgradeJobConditionSucceeded ConditionTrue UpgradeJobReasonSkipped msg)" for msg
        using assms by (intro pending_skipped [of now]) auto
      with Inr Some show ?thesis
        by (simp only: sum.case option.case, intro pendingProtocol_return) (auto split: option.splits)
    qed
  qed (auto intro: follows_ret)
qed (simp add: pendingProtocol_def)

lemma reconcilePending_follows:
  "follows (pendingProtocol L uj) h (reconcilePending L r uj) (\<lambda>_ _. True)"
  unfolding reconcilePending_def
proof (intro follows_bind_call follows_if, goal_cases)
  case (2 now)
  show ?case
  proof (rule follows_bind [OF checkAndMarkSkipped_follows], goal_cases)
    case (3 res es)
    then show ?case
      by (intro follows_case_sum follows_if pendingProtocol_return pending_expired [of now])
        (use 2 in \<open>auto intro: follows_ret\<close>)
  qed (use 2 in auto)
next
  case (3 now)
  show ?case
  proof (rule follows_bind [OF checkAndMarkSkipped_follows], goal_cases)
    case (3 res es)
    then show ?case
      by (intro follows_case_sum follows_if pendingProtocol_return pending_started [of now])
        (use \<open>\<not> StartBefore (uj_Spec uj) < now\<close> \<open>\<not> now < StartAfter (uj_Spec uj)\<close> in \<open>auto intro: follows_ret\<close>)
  qed (use 3 in auto)
qed (auto simp: pendingProtocol_def intro: follows_ret)

end

section \<open>The protocol of a finished job\<close>

text \<open>A finished job runs its final hooks, cleans up its pools or pauses them after a failure, and
  gives its lock back.\<close>

definition releaseProtocol :: "'s UpgradeJobReconciler \<Rightarrow> UpgradeJob \<Rightarrow> ujCall list \<Rightarrow> ujCall \<Rightarrow> bool" where
  "releaseProtocol r uj h e = (case e of
     GetClusterVersion n _ \<Rightarrow> n = ManagedUpstreamClusterVersionName r
   | UpdateClusterVersion cv _ \<Rightarrow> (\<exists>base. cvRead h base \<and> dropsLock (lockVal uj) base cv)
   | _ \<Rightarrow> False)"

definition succeededProtocol ::
  "'z lib_scheme \<Rightarrow> 's UpgradeJobReconciler \<Rightarrow> UpgradeJob \<Rightarrow> time \<Rightarrow> ujCall list \<Rightarrow> ujCall \<Rightarrow> bool"
where
  "succeededProtocol L r uj cutoff h e \<longleftrightarrow>
     hookProtocol L uj EventSuccess noTrackingKey cutoff h e \<or> hookProtocol L uj EventFinish noTrackingKey cutoff h e
     \<or> cleanupProtocol L uj h e \<or> releaseProtocol r uj h e"

definition failedProtocol ::
  "'z lib_scheme \<Rightarrow> 's UpgradeJobReconciler \<Rightarrow> UpgradeJob \<Rightarrow> time \<Rightarrow> ujCall list \<Rightarrow> ujCall \<Rightarrow> bool"
where
  "failedProtocol L r uj cutoff h e \<longleftrightarrow>
     hookProtocol L uj EventFailure noTrackingKey cutoff h e \<or> hookProtocol L uj EventFinish noTrackingKey cutoff h e
     \<or> failureProtocol L uj h e \<or> releaseProtocol r uj h e"

lemma cleanupLock_follows: "follows (releaseProtocol r uj) h (cleanupLock r uj) (\<lambda>_ _. True)"
  unfolding cleanupLock_def
  by (intro follows_bind_call follows_case_sum follows_if follows_ret)
    (auto simp: releaseProtocol_def cvRead_def dropsLock_def lockHeld_def)

context job_api
begin

lemma finalHooks_follows:
  assumes "combine_laws L" and "jobFinished L uj" and "\<And>h e. hookProtocol L uj event key cutoff h e \<Longrightarrow> E h e"
  shows "follows E h (executeHooks L r uj event key info cutoff) (\<lambda>(uj', _) _. uj' = uj)"
  by (rule follows_mono [OF executeHooks_follows [OF assms(1)]]) (use assms(2,3) in auto)

lemma reconcileSucceeded_follows:
  assumes L: "combine_laws L" and fin: "jobFinished L uj"
  shows "follows (succeededProtocol L r uj (LastTransitionTime sc)) h (reconcileSucceeded L r uj sc) (\<lambda>_ _. True)"
  unfolding reconcileSucceeded_def
proof (rule follows_bind [OF finalHooks_follows [OF L fin]], goal_cases)
  case (2 x es)
  then obtain res where x: "x = (uj, res)" by auto
  show ?case unfolding x prod.case
  proof (rule follows_bind [OF finalHooks_follows [OF L fin]], goal_cases)
    case (2 y es')
    then obtain res' where y: "y = (uj, res')" by auto
    show ?case unfolding y prod.case
      by (rule follows_bind [OF follows_mono [OF cleanupMachineConfigPools_follows [OF L fin]]],
          (simp add: succeededProtocol_def)+,
          rule follows_bind [OF follows_mono [OF cleanupLock_follows]],
          (simp add: succeededProtocol_def)+, rule follows_ret, simp)
  qed (simp add: succeededProtocol_def)
qed (simp add: succeededProtocol_def)

lemma reconcileFailed_follows:
  assumes L: "combine_laws L" and fin: "jobFinished L uj"
  shows "follows (failedProtocol L r uj (LastTransitionTime fc)) h (reconcileFailed L r uj fc) (\<lambda>_ _. True)"
  unfolding reconcileFailed_def
proof (rule follows_bind [OF finalHooks_follows [OF L fin]], goal_cases)
  case (2 x es)
  then obtain res where x: "x = (uj, res)" by auto
  show ?case unfolding x prod.case
  proof (rule follows_bind [OF finalHooks_follows [OF L fin]], goal_cases)
    case (2 y es')
    then obtain res' where y: "y = (uj, res')" by auto
    show ?case unfolding y prod.case
      by (rule follows_bind [OF follows_mono [OF pauseMachinePoolsOnFailure_follows]],
          (simp add: failedProtocol_def)+,
          rule follows_bind [OF follows_mono [OF cleanupLock_follows]],
          (simp add: failedProtocol_def)+, rule follows_ret, simp)
  qed (simp add: failedProtocol_def)
qed (simp add: failedProtocol_def)

end

section \<open>The protocol of Reconcile\<close>

definition succeededCondition :: "'z lib_scheme \<Rightarrow> UpgradeJob \<Rightarrow> Condition option" where
  "succeededCondition L uj = conditionTrue (FindStatusCondition L (uj_Conditions uj) UpgradeJobConditionSucceeded)"

definition failedCondition :: "'z lib_scheme \<Rightarrow> UpgradeJob \<Rightarrow> Condition option" where
  "failedCondition L uj = conditionTrue (FindStatusCondition L (uj_Conditions uj) UpgradeJobConditionFailed)"

text \<open>What a job may do, by the state it was read in: finished, started or pending. A job that is not
  finished first runs its create hooks.\<close>

definition jobProtocol ::
  "'z lib_scheme \<Rightarrow> 's UpgradeJobReconciler \<Rightarrow> UpgradeJob \<Rightarrow> ujCall list \<Rightarrow> ujCall \<Rightarrow> bool"
where
  "jobProtocol L r uj h e \<longleftrightarrow> isZeroPtr (DeletionTimestamp uj) \<and> (case succeededCondition L uj of
     Some sc \<Rightarrow> succeededProtocol L r uj (LastTransitionTime sc) h e
   | None \<Rightarrow> (case failedCondition L uj of
       Some fc \<Rightarrow> failedProtocol L r uj (LastTransitionTime fc) h e
     | None \<Rightarrow> hookProtocol L uj EventCreate noTrackingKey zeroTime h e
         \<or> hooksDone L uj EventCreate noTrackingKey zeroTime h
           \<and> (if IsStatusConditionTrue L (uj_Conditions uj) UpgradeJobConditionStarted
              then startProtocol L r uj h e else pendingProtocol L uj h e)))"

text \<open>The lock of the job a request names.\<close>

definition lockOf :: "NamespacedName \<Rightarrow> string" where
  "lockOf req = nn_Namespace req @ ''/'' @ nn_Name req"

definition reconcileProtocol ::
  "'z lib_scheme \<Rightarrow> 's UpgradeJobReconciler \<Rightarrow> NamespacedName \<Rightarrow> ujCall list \<Rightarrow> ujCall \<Rightarrow> bool"
where
  "reconcileProtocol L r req h e \<longleftrightarrow> trackProtocol L req h e
     \<or> (\<exists>uj. GetUpgradeJob req (Inr uj) \<in> set h \<and> lockVal uj = lockOf req \<and> jobProtocol L r uj h e)"

text \<open>The laws of the library and the API \<open>Reconcile\<close> relies on.\<close>

locale reconcile_api = upgrade_api r + condition_laws L + combine_laws L + tracker_laws L
  for r :: "'s UpgradeJobReconciler" and L :: "'z lib_scheme"
begin

lemma conditionTrue_finished:
  "succeededCondition L uj = Some sc \<Longrightarrow> jobFinished L uj" "failedCondition L uj = Some fc \<Longrightarrow> jobFinished L uj"
  by (auto simp: succeededCondition_def failedCondition_def conditionTrue_def jobFinished_def split: option.splits)

lemma createHooks_follows:
  assumes "succeededCondition L uj = None" "failedCondition L uj = None" "isZeroPtr (DeletionTimestamp uj)"
  shows "follows (jobProtocol L r uj) h (executeHooks L r uj EventCreate noTrackingKey info zeroTime)
    (\<lambda>(uj', res) h'. res = Inr True \<longrightarrow> uj' = uj \<and> hooksDone L uj EventCreate noTrackingKey zeroTime h')"
  by (rule follows_mono [OF executeHooks_follows [OF combine_laws_axioms]])
    (use assms in \<open>auto simp: jobProtocol_def\<close>)

lemma reconcileJob_follows:
  assumes "isZeroPtr (DeletionTimestamp uj)"
  shows "follows (jobProtocol L r uj) h (reconcileJob L r uj) (\<lambda>_ _. True)"
  unfolding reconcileJob_def succeededCondition_def [symmetric] failedCondition_def [symmetric]
proof (intro follows_case_option, goal_cases)
  case 1
  show ?case
  proof (rule follows_bind [OF createHooks_follows [OF 1 assms]],
      intro follows_case_prod follows_case_sum follows_if, goal_cases)
    case (3 x es uj' cont b)
    then have "uj' = uj" "hooksDone L uj EventCreate noTrackingKey zeroTime (h @ es)" by auto
    with 1 3 assms show ?case
      by (simp only:, intro follows_mono_from [OF reconcileStartedJob_follows [OF condition_laws_axioms combine_laws_axioms]])
        (simp add: jobProtocol_def hooksDone_mono del: append_assoc)
  next
    case (4 x es uj' cont b)
    then have "uj' = uj" "hooksDone L uj EventCreate noTrackingKey zeroTime (h @ es)" by auto
    with 1 4 assms show ?case
      by (simp only:, intro follows_mono_from [OF reconcilePending_follows])
        (simp add: jobProtocol_def hooksDone_mono del: append_assoc)
  qed (auto intro: follows_ret)
next
  case (2 fc)
  then show ?case
    by (intro follows_mono [OF reconcileFailed_follows [OF combine_laws_axioms]])
      (use assms in \<open>auto simp: jobProtocol_def dest: conditionTrue_finished\<close>)
next
  case (3 sc)
  then show ?case
    by (intro follows_mono [OF reconcileSucceeded_follows [OF combine_laws_axioms]])
      (use assms in \<open>auto simp: jobProtocol_def dest: conditionTrue_finished\<close>)
qed

lemma Reconcile_follows: "follows (reconcileProtocol L r req) h (Reconcile L r req) (\<lambda>_ _. True)"
proof -
  have track: "follows (reconcileProtocol L r req) h (trackHookJobs L r req) (\<lambda>_ _. True)"
    by (rule follows_mono [OF trackHookJobs_follows [OF tracker_laws_axioms]]) (auto simp: reconcileProtocol_def)
  show ?thesis unfolding Reconcile_def
  proof (rule follows_bind [OF track], intro follows_case_option follows_bind_call follows_case_sum follows_if, goal_cases)
    case (4 x es got uj)
    have "lockVal uj = lockOf req" using get_job 4 by (simp add: lockVal_def lockOf_def)
    with 4 show ?case
      by (intro follows_mono_from [OF reconcileJob_follows]) (auto simp: reconcileProtocol_def)
  qed (auto intro: follows_ret simp: reconcileProtocol_def trackProtocol_def)
qed

end

end
