(* ===== verification/Samples.thy ===== *)
theory Samples
  imports UpgradeJob_Controller Api_Server
begin

text \<open>
  The instances at which the properties of the upgrade job controller are exercised: the laws of
  \<open>reconcile_api\<close> hold for the small API server and the reference library, and a few sample clusters.
  Nothing in the repository corresponds to it.
\<close>

section \<open>The laws hold for the small server\<close>

interpretation refReconcile: reconcile_api refServer refLib
proof unfold_locales
  fix cv cv' :: ClusterVersion
  assume "answers (c_updateClusterVersion refServer cv) (Inr cv')"
  then obtain s :: cluster where "fst (putObject cv (s_versions s)) = Inr cv'"
    unfolding answers_def refServer_def by (auto simp: case_prod_beta)
  then have "cv' = bump cv" by (rule putObject_Inr)
  then show "Annotations cv' = Annotations cv \<and> cv_Spec cv' = cv_Spec cv" by (simp add: bump_def)
qed

lemmas ref_laws = refReconcile.reconcile_api_axioms refServer.job_api_axioms
  refLib.condition_laws_axioms refLib_combine.combine_laws_axioms refLib_trackers.tracker_laws_axioms

section \<open>Sample objects\<close>

definition sampleMeta :: "string \<Rightarrow> string \<Rightarrow> ObjectMeta" where
  "sampleMeta ns n = \<lparr>Kind = ''UpgradeJob'', APIVersion = ''managedupgrade.appuio.io/v1beta1'', Name = n,
     Namespace = ns, UID = n, ResourceVersion = ''1'', Labels = Map.empty, Annotations = Map.empty,
     CreationTimestamp = 0, DeletionTimestamp = None, DeletionGracePeriodSeconds = None,
     Finalizers = [], OwnerReferences = []\<rparr>"

definition sampleSelector :: LabelSelector where
  "sampleSelector = \<lparr>ls_MatchLabels = [], ls_MatchExpressions = []\<rparr>"

definition sampleHealthCheck :: UpgradeJobHealthCheck where
  "sampleHealthCheck = \<lparr>hc_Timeout = minute, SkipDegradedOperatorsCheck = False\<rparr>"

definition sampleUpdate :: Update where
  "sampleUpdate = \<lparr>upd_Architecture = '''', upd_Version = ''4.12.2'', upd_Image = ''img'', upd_Force = False\<rparr>"

definition sampleConfig :: UpgradeJobConfig where
  "sampleConfig = \<lparr>UpgradeTimeout = 60 * minute, PreUpgradeHealthChecks = sampleHealthCheck,
     PostUpgradeHealthChecks = sampleHealthCheck, MachineConfigPools = [],
     PauseMachineConfigPoolsOnFailure = \<lparr>pf_Enabled = False, pf_Selector = sampleSelector\<rparr>\<rparr>"

definition sampleSpec :: UpgradeJobSpec where
  "sampleSpec = \<lparr>StartAfter = 0, StartBefore = 10 * minute, DesiredVersion = Some sampleUpdate,
     DesiredVersionCheckAvailability = None, Config = sampleConfig\<rparr>"

definition sampleJob :: "Condition list \<Rightarrow> UpgradeJob" where
  "sampleJob cs = ObjectMeta.extend (sampleMeta ''ns'' ''job'')
     \<lparr>uj_Spec = sampleSpec, uj_Conditions = cs, uj_HookJobTracker = []\<rparr>"

text \<open>A cluster with one job and one unlocked cluster version; the job was started and its health
  checks before the upgrade are done.\<close>

definition trueCondition :: "string \<Rightarrow> Condition" where
  "trueCondition t = \<lparr>Type = t, Status = ConditionTrue, LastTransitionTime = 0, Reason = t, Message = ''''\<rparr>"

definition sampleVersion :: ClusterVersion where
  "sampleVersion = ObjectMeta.extend (sampleMeta '''' ''version'')
     \<lparr>cv_Spec = \<lparr>ClusterID = ''id'', DesiredUpdate = None, Upstream = '''', Channel = ''stable'', Capabilities = None,
        SignatureStores = None, Overrides = None\<rparr>,
      cv_History = [], cv_AvailableUpdates = [\<lparr>rel_Version = ''4.12.2'', rel_Image = ''img'', rel_URL = '''', rel_Channels = []\<rparr>],
      cv_Conditions = []\<rparr>"

definition startedCluster :: cluster where
  "startedCluster = emptyCluster\<lparr>s_time := minute, s_versions := [sampleVersion],
     s_jobs := [sampleJob [trueCondition UpgradeJobConditionStarted, trueCondition UpgradeJobConditionPreHealthCheckDone]]\<rparr>"

definition sampleRequest :: NamespacedName where
  "sampleRequest = \<lparr>nn_Namespace = ''ns'', nn_Name = ''job''\<rparr>"

definition versionWrites :: "ujCall list \<Rightarrow> nat" where
  "versionWrites es = length (filter (\<lambda>e. case e of UpdateClusterVersion _ (Inr _) \<Rightarrow> True | _ \<Rightarrow> False) es)"

text \<open>Clusters with a pending, a succeeded and a failed job; the last two still hold their lock.\<close>

definition lockedVersion :: ClusterVersion where
  "lockedVersion = sampleVersion\<lparr>Annotations := [JobLockAnnotation \<mapsto> ''ns/job'']\<rparr>"

definition pendingCluster :: cluster where
  "pendingCluster = emptyCluster\<lparr>s_time := minute, s_versions := [sampleVersion], s_jobs := [sampleJob []]\<rparr>"

definition succeededCluster :: cluster where
  "succeededCluster = emptyCluster\<lparr>s_time := minute, s_versions := [lockedVersion],
     s_jobs := [sampleJob [trueCondition UpgradeJobConditionSucceeded]]\<rparr>"

definition samplePool :: "string \<Rightarrow> bool \<Rightarrow> (string \<rightharpoonup> string) \<Rightarrow> int \<Rightarrow> MachineConfigPool" where
  "samplePool n paused annots updated = ObjectMeta.extend ((sampleMeta '''' n)\<lparr>Annotations := annots\<rparr>)
     \<lparr>Paused = paused, MachineCount = 3, UpdatedMachineCount = updated\<rparr>"

definition sampleHookSpec :: UpgradeJobHookSpec where
  "sampleHookSpec = \<lparr>Events = [EventCreate], Run = RunNext, FailurePolicy = FailurePolicyAbort, Disruptive = False,
     PodFailurePolicySkipsUpgrade = False, hk_Selector = sampleSelector,
     Template = ObjectMeta.extend (sampleMeta '''' '''') \<lparr>jt_Spec = \<lparr>InitContainers = [], Containers = []\<rparr>\<rparr>\<rparr>"

definition sampleHook :: UpgradeJobHook where
  "sampleHook = ObjectMeta.extend (sampleMeta ''ns'' ''hook'') \<lparr>hk_Spec = sampleHookSpec, ClaimedBy = emptyClaim\<rparr>"

definition hookCluster :: cluster where
  "hookCluster = pendingCluster\<lparr>s_hooks := [sampleHook]\<rparr>"

definition createdJobs :: "ujCall list \<Rightarrow> nat" where
  "createdJobs es = length (filter (\<lambda>e. case e of CreateJob _ (Inr _) \<Rightarrow> True | _ \<Rightarrow> False) es)"

definition statusWrites :: "ujCall list \<Rightarrow> nat" where
  "statusWrites es = length (filter (\<lambda>e. case e of StatusUpdateUpgradeJob _ (Inr _) \<Rightarrow> True | _ \<Rightarrow> False) es)"

definition poolWrites :: "ujCall list \<Rightarrow> nat" where
  "poolWrites es = length (filter (\<lambda>e. case e of UpdatePool _ (Inr _) \<Rightarrow> True | _ \<Rightarrow> False) es)"

definition jobWrites :: "ujCall list \<Rightarrow> nat" where
  "jobWrites es = length (filter (\<lambda>e. case e of UpdateJob _ (Inr _) \<Rightarrow> True | _ \<Rightarrow> False) es)"

text \<open>A pending job in a suspension window, and one whose start window has passed.\<close>

definition sampleWindow :: UpgradeSuspensionWindow where
  "sampleWindow = ObjectMeta.extend (sampleMeta ''ns'' ''window'')
     \<lparr>usw_Spec = \<lparr>Start = 0, End = 5 * minute, usw_Reason = ''holidays'', ConfigSelector = Some sampleSelector,
        JobSelector = Some sampleSelector\<rparr>, MatchingConfigs = [], MatchingJobs = []\<rparr>"

definition suspendedCluster :: cluster where
  "suspendedCluster = pendingCluster\<lparr>s_windows := [sampleWindow]\<rparr>"

text \<open>A hook job that failed and is not tracked yet.\<close>

definition sampleBatchJob :: Job where
  "sampleBatchJob = ObjectMeta.extend ((sampleMeta ''ns'' ''job-hook'')\<lparr>
       Labels := jobLabels ''job'' ''hook'' EventCreate noTrackingKey, Finalizers := [UpgradeJobHookJobTrackerFinalizer]\<rparr>)
     \<lparr>job_Spec = \<lparr>InitContainers = [], Containers = []\<rparr>,
      job_Conditions = [\<lparr>jc_Type = JobFailed, jc_Status = ConditionTrue, jc_Reason = ''BackoffLimitExceeded'', jc_Message = ''''\<rparr>]\<rparr>"

definition trackedCluster :: cluster where
  "trackedCluster = hookCluster\<lparr>s_batch := [sampleBatchJob]\<rparr>"

section \<open>A quiet server\<close>

text \<open>A server that answers every read alike: there are a job and a cluster version, and no hooks,
  Kubernetes jobs, pools and windows. It accepts every update of the job and the version.\<close>

definition quietServer :: "UpgradeJob \<Rightarrow> ClusterVersion \<Rightarrow> unit UpgradeJobReconciler" where
  "quietServer uj cv = \<lparr>
     c_getUpgradeJob = (\<lambda>nn s. (Inr (uj\<lparr>Namespace := nn_Namespace nn, Name := nn_Name nn\<rparr>), s)),
     c_statusUpdateUpgradeJob = (\<lambda>sent s. (Inr (bump sent), s)),
     c_getClusterVersion = (\<lambda>n s. (Inr cv, s)),
     c_updateClusterVersion = (\<lambda>sent s. (Inr (bump sent), s)),
     c_listHooks = (\<lambda>ns s. (Inr [], s)),
     c_statusUpdateHook = (\<lambda>h s. (Inl (ApiError NotFound (Name h)), s)),
     c_listJobs = (\<lambda>ns ls s. (Inr [], s)),
     c_createJob = (\<lambda>j s. (Inl (ApiError AlreadyExists (Name j)), s)),
     c_updateJob = (\<lambda>j s. (Inl (ApiError NotFound (Name j)), s)),
     c_listPools = (\<lambda>sel s. (Inr [], s)),
     c_updatePool = (\<lambda>p s. (Inl (ApiError NotFound (Name p)), s)),
     c_listWindows = (\<lambda>ns s. (Inr [], s)),
     c_now = (\<lambda>s. (minute, s)),
     ManagedUpstreamClusterVersionName = ''version''\<rparr>"

lemma quietServer_simps [simp]:
  "c_getUpgradeJob (quietServer uj cv) nn s = (Inr (uj\<lparr>Namespace := nn_Namespace nn, Name := nn_Name nn\<rparr>), s)"
  "c_statusUpdateUpgradeJob (quietServer uj cv) sent s = (Inr (bump sent), s)"
  "c_getClusterVersion (quietServer uj cv) n s = (Inr cv, s)"
  "c_updateClusterVersion (quietServer uj cv) sent' s = (Inr (bump sent'), s)"
  "c_listPools (quietServer uj cv) sel s = (Inr [], s)"
  "ManagedUpstreamClusterVersionName (quietServer uj cv) = ''version''"
  "c_listHooks (quietServer uj cv) ns s = (Inr [], s)"
  "c_listJobs (quietServer uj cv) ns ls s = (Inr [], s)"
  "c_listWindows (quietServer uj cv) ns s = (Inr [], s)"
  "c_now (quietServer uj cv) s = (minute, s)"
  by (simp_all add: quietServer_def)

lemma quietServer_api: "reconcile_api (quietServer uj cv) refLib"
  by (intro reconcile_api.intro upgrade_api.intro job_api.intro upgrade_api_axioms.intro ref_laws)
    (auto simp: answers_def bump_def sameJob_def sameObject_def)

definition pendingJob :: UpgradeJob where
  "pendingJob = sampleJob []"

lemma pendingJob_simps [simp]:
  "Namespace pendingJob = ''ns''" "Name pendingJob = ''job''" "uj_Conditions pendingJob = []"
  "ResourceVersion pendingJob = ''1''" "uj_HookJobTracker pendingJob = []" "DeletionTimestamp pendingJob = None"
  "uj_Spec pendingJob = sampleSpec" "pendingJob\<lparr>Namespace := ''ns'', Name := ''job''\<rparr> = pendingJob"
  by (simp_all add: pendingJob_def sampleJob_def sampleMeta_def ObjectMeta.extend_def)

lemma refLib_conditions [simp]:
  "FindStatusCondition refLib [] t = None" "IsStatusConditionTrue refLib [] t = False" "Combine refLib [] = None"
  "SetStatusCondition refLib [] c = ([c], True)" "FindStatusCondition refLib [c] t = (if Type c = t then Some c else None)"
  by (simp_all add: refLib_def refFind_def conditionChanged_def)

definition startedSample :: UpgradeJob where
  "startedSample = sampleJob [trueCondition UpgradeJobConditionStarted]"

definition checkedSample :: UpgradeJob where
  "checkedSample = sampleJob [trueCondition UpgradeJobConditionStarted, trueCondition UpgradeJobConditionPreHealthCheckDone]"

lemma startedSample_simps [simp]:
  "Namespace startedSample = ''ns''" "Name startedSample = ''job''" "uj_Conditions startedSample = [trueCondition UpgradeJobConditionStarted]"
  "uj_HookJobTracker startedSample = []" "DeletionTimestamp startedSample = None" "uj_Spec startedSample = sampleSpec"
  "startedSample\<lparr>Namespace := ''ns'', Name := ''job''\<rparr> = startedSample"
  by (simp_all add: startedSample_def sampleJob_def sampleMeta_def ObjectMeta.extend_def)

lemma checkedSample_simps [simp]:
  "Namespace checkedSample = ''ns''" "Name checkedSample = ''job''"
  "uj_Conditions checkedSample = [trueCondition UpgradeJobConditionStarted, trueCondition UpgradeJobConditionPreHealthCheckDone]"
  "uj_HookJobTracker checkedSample = []" "DeletionTimestamp checkedSample = None" "uj_Spec checkedSample = sampleSpec"
  "checkedSample\<lparr>Namespace := ''ns'', Name := ''job''\<rparr> = checkedSample"
  by (simp_all add: checkedSample_def sampleJob_def sampleMeta_def ObjectMeta.extend_def)

lemma trueCondition_simps [simp]: "Type (trueCondition t) = t" "Status (trueCondition t) = ConditionTrue"
  by (simp_all add: trueCondition_def)

lemma sampleVersion_simps [simp]:
  "Annotations sampleVersion = Map.empty" "ResourceVersion sampleVersion = ''1''"
  "DesiredUpdate (cv_Spec sampleVersion) = None"
  by (simp_all add: sampleVersion_def sampleMeta_def ObjectMeta.extend_def)

lemma lockedVersion_simps [simp]:
  "Annotations lockedVersion = [JobLockAnnotation \<mapsto> ''ns/job'']" "ResourceVersion lockedVersion = ''1''"
  "DesiredUpdate (cv_Spec lockedVersion) = None"
  "FindAvailableUpdate lockedVersion ''img'' ''4.12.2'' \<noteq> None"
  by (simp_all add: lockedVersion_def FindAvailableUpdate_None)
    (simp add: sampleVersion_def ObjectMeta.extend_def sampleMeta_def)

lemma refLib_conditions_Cons [simp]:
  "FindStatusCondition refLib (c # cs) t = (if Type c = t then Some c else FindStatusCondition refLib cs t)"
  "IsStatusConditionTrue refLib (c # cs) t = (if Type c = t then Status c = ConditionTrue else IsStatusConditionTrue refLib cs t)"
  "SetStatusCondition refLib cs c = (refSetCondition cs c, conditionChanged (FindStatusCondition refLib cs (Type c)) c)"
  by (simp_all add: refLib_def refFind_def)

lemma bump_simps [simp]: "Annotations (bump x) = Annotations x" "uj_Conditions (bump j) = uj_Conditions j" "uj_Spec (bump j) = uj_Spec j"
  "cv_Spec (bump v) = cv_Spec v"
  by (simp_all add: bump_def)

lemmas run_evaluation = callsOf_def Reconcile_def trackHookJobs_def sampleRequest_def setNew_def setEqual_def isZeroPtr_def
  reconcileJob_def conditionTrue_def executeHooks_def emptyOutcome_def hookVerdict_def reconcileStartedJob_def
  reconcilePending_def checkAndMarkSkipped_def matchingUpgradeSuspensionWindow_def
  timeSinceStartAfter_def tryLockClusterVersion_def lockVal_def upgradeLocked_def pauseUnpauseMachineConfigPools_def
  runHealthCheck_def conditionChanged_def sampleSpec_def sampleConfig_def minute_def second_def timeSub_def
  minDuration_def maxDuration_def setConditionAndUpdate_def setStatusCondition_def Let_def

end
