(* ===== verification/Hook_Environment.thy ===== *)
theory Hook_Environment
  imports UpgradeJob_Controller Samples
begin

text \<open>
  The environment of a hook job: the names and values \<open>hookEnvMap\<close> makes of the event, the upgrade job and the metadata, and
  what every container of a job that \<open>executeHooks\<close> creates is given.
\<close>

section \<open>Names\<close>

definition validEnvName :: "string \<Rightarrow> bool" where
  "validEnvName s \<longleftrightarrow> list_all envVarAllowed s"

lemma envVarAllowed_underscore [simp]: "envVarAllowed (CHR ''_'')"
  by (simp add: envVarAllowed_def)

lemma validEnvName_clean [simp]: "validEnvName (cleanEnvVarName s)"
  by (auto simp: validEnvName_def cleanEnvVarName_def list_all_iff)

lemma validEnvName_append [simp]: "validEnvName (s @ t) \<longleftrightarrow> validEnvName s \<and> validEnvName t"
  by (simp add: validEnvName_def)

lemma validEnvName_fmtPrefix [simp]: "validEnvName (fmtPrefix s) = validEnvName s"
  by (auto simp: fmtPrefix_def validEnvName_def)

lemma envVarAllowed_digit: "n < 10 \<Longrightarrow> envVarAllowed (char_of (48 + n :: nat))"
  by (simp add: envVarAllowed_def)

lemma validEnvName_natString [simp]: "validEnvName (natString n)"
proof (induction n rule: less_induct)
  case (less n)
  show ?case
    using less [of "n div 10"] envVarAllowed_digit [of n] envVarAllowed_digit [of "n mod 10"]
    by (subst natString.simps) (simp add: validEnvName_def)
qed

text \<open>Flattening keeps the keys distinct.\<close>

lemma flatten_distinct:
  "distinct (map fst target) \<Longrightarrow> distinct (map fst (flattenInto prefix v target))"
  "distinct (map fst target) \<Longrightarrow> distinct (map fst (flattenObj prefix ob target))"
  "distinct (map fst target) \<Longrightarrow> distinct (map fst (flattenArr prefix i vs target))"
  by (induction prefix v target and prefix ob target and prefix i vs target
      rule: flattenInto_flattenObj_flattenArr.induct) (simp_all add: distinct_mapUpdate)

text \<open>A leaf of a JSON value and the name it is flattened to.\<close>

inductive leaf :: "string \<Rightarrow> json \<Rightarrow> string \<Rightarrow> json \<Rightarrow> bool" where
  leaf_null: "leaf p JNull p JNull"
| leaf_bool: "leaf p (JBool b) p (JBool b)"
| leaf_num: "leaf p (JNum n) p (JNum n)"
| leaf_str: "leaf p (JStr s) p (JStr s)"
| leaf_obj: "(k, v) \<in> set ob \<Longrightarrow> leaf (fmtPrefix p @ cleanEnvVarName k) v q x \<Longrightarrow> leaf p (JObj ob) q x"
| leaf_arr: "i < length vs \<Longrightarrow> leaf (fmtPrefix p @ natString i) (vs ! i) q x \<Longrightarrow> leaf p (JArr vs) q x"

inductive_simps leaf_simps [simp]:
  "leaf p JNull q x" "leaf p (JBool b) q x" "leaf p (JNum n) q x" "leaf p (JStr s) q x"
  "leaf p (JObj ob) q x" "leaf p (JArr vs) q x"

lemma arr_leaf_Suc:
  "(\<exists>j < length (v # vs). leaf (fmtPrefix p @ natString (i + j)) ((v # vs) ! j) q x) \<longleftrightarrow>
     leaf (fmtPrefix p @ natString i) v q x
     \<or> (\<exists>j < length vs. leaf (fmtPrefix p @ natString (Suc i + j)) (vs ! j) q x)"
  by (auto simp: less_Suc_eq_0_disj)

text \<open>Every key of the result was there before or is the name of a leaf, and every leaf has a key.\<close>

lemma flatten_names:
  "k \<in> fst ` set (flattenInto prefix v target) \<longleftrightarrow>
     k \<in> fst ` set target \<or> (\<exists>x. leaf prefix v k x)"
  "k \<in> fst ` set (flattenObj prefix ob target) \<longleftrightarrow>
     k \<in> fst ` set target \<or> (\<exists>x m v. (m, v) \<in> set ob \<and> leaf (fmtPrefix prefix @ cleanEnvVarName m) v k x)"
  "k \<in> fst ` set (flattenArr prefix i vs target) \<longleftrightarrow>
     k \<in> fst ` set target
     \<or> (\<exists>x. \<exists>j < length vs. leaf (fmtPrefix prefix @ natString (i + j)) (vs ! j) k x)"
proof (induction prefix v target and prefix ob target and prefix i vs target
    rule: flattenInto_flattenObj_flattenArr.induct)
  case (1 prefix ob target)
  then show ?case unfolding flattenInto.simps leaf_simps by blast
next
  case (2 prefix ob target)
  then show ?case by auto
next
  case (5 prefix m v ob target)
  then show ?case by (simp only: flattenObj.simps list.set insert_iff prod.inject) blast
next
  case (7 prefix i v vs target)
  then show ?case unfolding arr_leaf_Suc flattenArr.simps by blast
qed auto

text \<open>Flattening an allowed prefix only gives names of allowed characters.\<close>

lemma leaf_valid: "leaf p v q x \<Longrightarrow> validEnvName p \<Longrightarrow> validEnvName q"
  by (induction rule: leaf.induct) auto

lemma hookEnvMap_keys:
  "k \<in> fst ` set (hookEnvMap ev uj meta) \<longleftrightarrow> k \<in> {''EVENT'', ''JOB'', ''META''}
     \<or> (\<exists>x. leaf ''EVENT'' (JObj ev) k x \<or> leaf ''JOB'' (JObj uj) k x \<or> leaf ''META'' (JObj meta) k x)"
  unfolding hookEnvMap_def flatten_names(1) by (auto simp del: leaf_simps)

lemma validEnvName_roots [simp]:
  "validEnvName ''EVENT''" "validEnvName ''JOB''" "validEnvName ''META''"
  by (simp_all add: validEnvName_def envVarAllowed_def)

section \<open>Values\<close>

text \<open>The values a variable stands for: one of the three objects, or one of their leaves. A name of a leaf is longer than
  that of its object, so the objects keep their names for themselves.\<close>

definition hookValue ::
  "(string \<times> json) list \<Rightarrow> (string \<times> json) list \<Rightarrow> (string \<times> json) list \<Rightarrow> string \<Rightarrow> json \<Rightarrow> bool"
where
  "hookValue ev uj meta k v \<longleftrightarrow> (k, v) \<in> {(''EVENT'', JObj ev), (''JOB'', JObj uj), (''META'', JObj meta)}
     \<or> leaf ''EVENT'' (JObj ev) k v \<or> leaf ''JOB'' (JObj uj) k v \<or> leaf ''META'' (JObj meta) k v"

lemma set_mapUpdate: "set (mapUpdate k v m) \<subseteq> insert (k, v) (set m)"
  by (induction k v m rule: mapUpdate.induct) auto

lemma flatten_values:
  "(k, x) \<in> set (flattenInto prefix v target) \<Longrightarrow> (k, x) \<in> set target \<or> leaf prefix v k x"
  "(k, x) \<in> set (flattenObj prefix ob target) \<Longrightarrow>
     (k, x) \<in> set target \<or> (\<exists>m v. (m, v) \<in> set ob \<and> leaf (fmtPrefix prefix @ cleanEnvVarName m) v k x)"
  "(k, x) \<in> set (flattenArr prefix i vs target) \<Longrightarrow>
     (k, x) \<in> set target \<or> (\<exists>j < length vs. leaf (fmtPrefix prefix @ natString (i + j)) (vs ! j) k x)"
proof (induction prefix v target and prefix ob target and prefix i vs target
    rule: flattenInto_flattenObj_flattenArr.induct)
  case (5 prefix m v ob target)
  then show ?case by (simp only: flattenObj.simps list.set insert_iff prod.inject) blast
next
  case (7 prefix i v vs target)
  then show ?case unfolding arr_leaf_Suc flattenArr.simps by blast
qed (auto dest!: subsetD [OF set_mapUpdate])

lemma hookEnvMap_values: "(k, x) \<in> set (hookEnvMap ev uj meta) \<Longrightarrow> hookValue ev uj meta k x"
  unfolding hookEnvMap_def hookValue_def by (auto simp del: leaf_simps flattenInto.simps dest!: flatten_values(1))

lemma hookEnvMap_names: "k \<in> fst ` set (hookEnvMap ev uj meta) \<longleftrightarrow> (\<exists>v. hookValue ev uj meta k v)"
  unfolding hookEnvMap_keys hookValue_def by (auto simp del: leaf_simps)

lemma hookEnvMap_distinct: "distinct (map fst (hookEnvMap ev uj meta))"
  unfolding hookEnvMap_def by (intro flatten_distinct(1)) simp

lemma hookValue_valid: "hookValue ev uj meta k v \<Longrightarrow> validEnvName k"
  unfolding hookValue_def by (auto simp del: leaf_simps dest: leaf_valid)

lemma leaf_prefix: "leaf p v q x \<Longrightarrow> \<exists>t. q = p @ t"
  by (induction rule: leaf.induct) (auto simp: fmtPrefix_def split: if_splits)

lemma leaf_longer: "leaf p (JObj ob) q x \<Longrightarrow> p \<noteq> '''' \<Longrightarrow> \<exists>t. q = p @ CHR ''_'' # t"
  by (auto simp: fmtPrefix_def dest!: leaf_prefix)

lemma hookValue_root:
  "hookValue ev uj meta ''EVENT'' v \<longleftrightarrow> v = JObj ev" "hookValue ev uj meta ''JOB'' v \<longleftrightarrow> v = JObj uj"
  "hookValue ev uj meta ''META'' v \<longleftrightarrow> v = JObj meta"
  unfolding hookValue_def by (auto simp del: leaf_simps dest!: leaf_longer)

text \<open>Two keys that differ only in characters that are replaced share a name: the second value takes the place of the first,
  and in the code the order of a Go map decides which one that is.\<close>

lemma names_collide:
  "flattenInto ''JOB'' (JObj [(''a-b'', JStr ''x''), (''a_b'', JStr ''y'')]) [] = [(''JOB_a_b'', JStr ''y'')]"
  "flattenInto ''JOB'' (JObj [(''a_b'', JStr ''y''), (''a-b'', JStr ''x'')]) [] = [(''JOB_a_b'', JStr ''x'')]"
  by code_simp+

section \<open>The variables\<close>

lemma set_marshalEnv: "x \<in> set (marshalEnv L m) \<longleftrightarrow> (\<exists>v. (env_Name x, v) \<in> set m \<and> MarshalJSON L v = Inr (env_Value x))"
proof (induction L m rule: marshalEnv.induct)
  case (2 L k v m)
  then show ?case by (cases x) (auto split: sum.split)
qed simp

lemma names_marshalEnv: "set (map env_Name (marshalEnv L m)) \<subseteq> fst ` set m"
  by (auto simp: set_marshalEnv image_iff) force

lemma distinct_marshalEnv: "distinct (map fst m) \<Longrightarrow> distinct (map env_Name (marshalEnv L m))"
proof (induction L m rule: marshalEnv.induct)
  case (2 L k v m)
  then show ?case using names_marshalEnv [of L m] by (auto split: sum.split)
qed simp

text \<open>The environment for an event, a normalised job and the metadata.\<close>

definition hookEnvironment ::
  "'z lib_scheme \<Rightarrow> (string \<times> json) list \<Rightarrow> (string \<times> json) list \<Rightarrow> (string \<times> json) list \<Rightarrow> EnvVar list \<Rightarrow> bool"
where
  "hookEnvironment L ev uj meta envs \<longleftrightarrow>
     sorted (map env_Name envs) \<and> distinct (map env_Name envs) \<and> (\<forall>x \<in> set envs. list_all envVarAllowed (env_Name x))
     \<and> (\<forall>x \<in> set envs. \<exists>v. hookValue ev uj meta (env_Name x) v \<and> MarshalJSON L v = Inr (env_Value x))
     \<and> (\<forall>k. (\<exists>v. hookValue ev uj meta k v) \<and> (\<forall>v. hookValue ev uj meta k v \<longrightarrow> (\<exists>t. MarshalJSON L v = Inr t))
          \<longrightarrow> k \<in> env_Name ` set envs)"

lemma weak_order_compareEnv: "weak_order compareEnv"
  by (rule weak_order_key [of _ env_Name]) (auto simp: compareEnv_def strCompare_def)

lemma sortEnv_environment:
  assumes "sort_func (SortEnv L)"
  shows "hookEnvironment L ev uj meta (SortEnv L compareEnv (marshalEnv L (hookEnvMap ev uj meta)))"
proof -
  let ?m = "hookEnvMap ev uj meta"
  let ?envs = "SortEnv L compareEnv (marshalEnv L ?m)"
  have set: "set ?envs = set (marshalEnv L ?m)" and perm: "mset ?envs = mset (marshalEnv L ?m)"
    by (rule sort_func.set_sort [OF assms], rule sort_func.mset_sort [OF assms])
  have "sorted (map env_Name ?envs)"
    using sort_func.sorted_sort [OF assms weak_order_compareEnv, of "marshalEnv L ?m"]
    by (simp add: compareEnv_def strCompare_le_0 sorted_map)
  moreover have "distinct (map env_Name ?envs)"
    using distinct_marshalEnv [OF hookEnvMap_distinct, of L ev uj meta] perm
    by (metis mset_eq_imp_distinct_iff mset_map)
  moreover have var: "\<exists>v. hookValue ev uj meta (env_Name x) v \<and> MarshalJSON L v = Inr (env_Value x)" if "x \<in> set ?envs" for x
    using that unfolding set set_marshalEnv by (auto dest: hookEnvMap_values)
  moreover have "k \<in> env_Name ` set ?envs"
    if "hookValue ev uj meta k v" "\<forall>v. hookValue ev uj meta k v \<longrightarrow> (\<exists>t. MarshalJSON L v = Inr t)" for k v
  proof -
    from that(1) hookEnvMap_names [of k ev uj meta] obtain w where w: "(k, w) \<in> set ?m" by force
    with that(2) obtain t where "MarshalJSON L w = Inr t" by (auto dest: hookEnvMap_values)
    with w have "\<lparr>env_Name = k, env_Value = t\<rparr> \<in> set ?envs" unfolding set set_marshalEnv by auto
    then show ?thesis by force
  qed
  ultimately show ?thesis
    unfolding hookEnvironment_def using hookValue_valid unfolding validEnvName_def by blast
qed

section \<open>The containers of a hook job\<close>

text \<open>The calls of \<open>executeHooks\<close>: a job is created for one of the hooks that were claimed for the event, which are all
  matching ones the job may run; each container and each init container of it is that of the template of the hook, with the
  same variables after its own.\<close>

definition environmentGiven ::
  "'z lib_scheme \<Rightarrow> UpgradeJob \<Rightarrow> UpgradeEvent \<Rightarrow> (string \<times> string) list \<Rightarrow> UpgradeJobHook list \<Rightarrow> Job \<Rightarrow> bool"
where
  "environmentGiven L uj event info hooks job \<longleftrightarrow> (\<exists>hook \<in> set hooks. \<exists>n envs. NormalizeUpgradeJob L uj = Inr n
     \<and> hookEnvironment L (normalizedEvent info event) n
         [(''matchesDisruptiveHooks'', JBool (\<exists>x \<in> set hooks. Disruptive (hk_Spec x)))] envs
     \<and> InitContainers (job_Spec job) = map (\<lambda>c. c\<lparr>Env := Env c @ envs\<rparr>) (InitContainers (jt_Spec (Template (hk_Spec hook))))
     \<and> Containers (job_Spec job) = map (\<lambda>c. c\<lparr>Env := Env c @ envs\<rparr>) (Containers (jt_Spec (Template (hk_Spec hook)))))"

definition environmentProtocol ::
  "'z lib_scheme \<Rightarrow> UpgradeJob \<Rightarrow> UpgradeEvent \<Rightarrow> (string \<times> string) list \<Rightarrow> time \<Rightarrow> ujCall list \<Rightarrow> ujCall \<Rightarrow> bool"
where
  "environmentProtocol L uj event info cutoffTime h e \<longleftrightarrow> (case e of
     CreateJob job _ \<Rightarrow> (\<exists>items hooks. ListHooks (Namespace uj) (Inr items) \<in> set h
       \<and> (\<forall>x \<in> set hooks. claimedIn L uj event cutoffTime h x)
       \<and> (\<forall>orig \<in> set items. hookMatches L uj event cutoffTime orig \<and> WouldExecute orig uj \<longrightarrow> hookKept uj h hooks orig)
       \<and> environmentGiven L uj event info hooks job)
   | _ \<Rightarrow> True)"

definition hooksClaimed ::
  "'z lib_scheme \<Rightarrow> UpgradeJob \<Rightarrow> UpgradeEvent \<Rightarrow> time \<Rightarrow> UpgradeJobHook list \<Rightarrow> ujCall list \<Rightarrow> bool"
where
  "hooksClaimed L uj event cutoffTime hooks h \<longleftrightarrow> (\<exists>items. ListHooks (Namespace uj) (Inr items) \<in> set h
     \<and> (\<forall>x \<in> set hooks. claimedIn L uj event cutoffTime h x)
     \<and> (\<forall>orig \<in> set items. hookMatches L uj event cutoffTime orig \<and> WouldExecute orig uj \<longrightarrow> hookKept uj h hooks orig))"

lemma hooksClaimed_mono: "hooksClaimed L uj event cutoffTime hooks h \<Longrightarrow> hooksClaimed L uj event cutoffTime hooks (h @ es)"
  unfolding hooksClaimed_def by (fastforce intro: history_mono)

definition noCreate :: "ujCall \<Rightarrow> bool" where
  "noCreate e \<longleftrightarrow> (\<forall>job res. e \<noteq> CreateJob job res)"

lemma noCreate_environment: "noCreate e \<Longrightarrow> environmentProtocol L uj event info cutoffTime h e"
  by (auto simp: environmentProtocol_def noCreate_def split: ujCall.split)

lemma follows_noCreate:
  assumes "follows E h m R" and "emits noCreate m (\<lambda>_. True)"
  shows "follows (environmentProtocol L uj event info cutoffTime) h m R"
  using spec_conj [OF assms(1) [unfolded follows_def] assms(2) [unfolded emits_def]] unfolding follows_def
  by (rule spec_mono) (auto intro!: allowed_all noCreate_environment simp: list_all_iff)

lemma claimHooks_noCreate: "emits noCreate (claimHooks L r uj event cutoffTime items hooks) (\<lambda>_. True)"
  by (induction items arbitrary: hooks)
    (auto intro!: emits_ret emits_rules simp: noCreate_def split: sum.split prod.split)

lemma hookVerdict_noCreate: "emits noCreate (hookVerdict L r uj event a) (\<lambda>_. True)"
  unfolding hookVerdict_def setConditionAndUpdate_def setStatusCondition_def Let_def
  by (auto intro!: emits_ret emits_rules simp: noCreate_def split: option.split prod.split)

lemma createHookJob_environment:
  assumes "sort_func (SortEnv L)" and "hook \<in> set hooks" and "hooksClaimed L uj event cutoffTime hooks h"
  shows "follows (environmentProtocol L uj event info cutoffTime) h
    (createHookJob L r hook uj event key info \<lparr>MatchesDisruptiveHooks = list_ex (\<lambda>h. Disruptive (hk_Spec h)) hooks\<rparr>)
    (\<lambda>_ h'. \<exists>es. h' = h @ es)"
proof -
  have "environmentProtocol L uj event info cutoffTime h (CreateJob job res)"
    if "NormalizeUpgradeJob L uj = Inr n" and "envs = SortEnv L compareEnv (marshalEnv L (hookEnvMap (normalizedEvent info event) n
         (normalizedMeta \<lparr>MatchesDisruptiveHooks = list_ex (\<lambda>h. Disruptive (hk_Spec h)) hooks\<rparr>)))"
      and "job_Spec job = \<lparr>InitContainers = map (addEnv envs) (InitContainers (jt_Spec (Template (hk_Spec hook)))),
        Containers = map (addEnv envs) (Containers (jt_Spec (Template (hk_Spec hook))))\<rparr>" for job res n envs
  proof -
    have "hookEnvironment L (normalizedEvent info event) n
         [(''matchesDisruptiveHooks'', JBool (\<exists>x \<in> set hooks. Disruptive (hk_Spec x)))] envs"
      using sortEnv_environment [OF assms(1)] unfolding that(2) normalizedMeta_def by (simp add: list_ex_iff)
    with that(1,3) assms(2) have "environmentGiven L uj event info hooks job"
      unfolding environmentGiven_def addEnv_def [abs_def] by (intro bexI [of _ hook] exI [of _ n] exI [of _ envs]) simp_all
    with assms(3) show ?thesis unfolding environmentProtocol_def hooksClaimed_def by auto
  qed
  then show ?thesis unfolding createHookJob_def Let_def
    by (intro follows_case_sum follows_bind_call) (auto intro!: follows_ret)
qed

lemma runHooks_environment:
  assumes "sort_func (SortEnv L)" and "set hooks' \<subseteq> set hooks" and "hooksClaimed L uj event cutoffTime hooks h"
  shows "follows (environmentProtocol L uj event info cutoffTime) h
    (runHooks L r uj event key info \<lparr>MatchesDisruptiveHooks = list_ex (\<lambda>h. Disruptive (hk_Spec h)) hooks\<rparr> hooks' a) (\<lambda>_ _. True)"
  using assms(2,3)
proof (induction hooks' arbitrary: h a)
  case (Cons hook hooks')
  have job: "follows (environmentProtocol L uj event info cutoffTime) h (jobForUpgradeJobAndHook L r uj hook event key info
      \<lparr>MatchesDisruptiveHooks = list_ex (\<lambda>h. Disruptive (hk_Spec h)) hooks\<rparr>) (\<lambda>_ h'. \<exists>es. h' = h @ es)"
    unfolding jobForUpgradeJobAndHook_def Let_def
    using Cons.prems
    by (intro follows_bind_call follows_case_sum follows_if follows_bind [OF createHookJob_environment [OF assms(1)]])
      (auto intro!: follows_ret hooksClaimed_mono simp: environmentProtocol_def)
  show ?case unfolding runHooks.simps
    by (rule follows_bind [OF job]) (use Cons in \<open>auto intro!: Cons.IH hooksClaimed_mono\<close>)
qed (simp add: follows_ret)

lemma executeHooks_environment_follows:
  assumes "sort_func (SortEnv L)"
  shows "follows (environmentProtocol L uj event info cutoffTime) h
    (executeHooks L r uj event key info cutoffTime) (\<lambda>_ _. True)"
  unfolding executeHooks_def
proof (rule follows_bind_call, goal_cases)
  case (2 res)
  then show ?case
  proof (intro follows_case_sum, goal_cases)
    case (2 items)
    let ?h = "h @ [ListHooks (Namespace uj) res]"
    have listed: "ListHooks (Namespace uj) (Inr items) \<in> set ?h" using 2 by simp
    from follows_noCreate [OF claimHooks_follows [OF order_refl this, of "[]" L event cutoffTime] claimHooks_noCreate]
    show ?case
    proof (rule follows_bind, goal_cases)
      case 1 then show ?case by simp
    next
      case (2 claimed es)
      then show ?case
      proof (intro follows_case_sum, goal_cases)
        case (2 hooks)
        then have "hooksClaimed L uj event cutoffTime hooks (?h @ es)"
          unfolding hooksClaimed_def using listed by (intro exI [of _ items]) auto
        from runHooks_environment [OF assms order_refl this] show ?case
          by (rule follows_bind) (intro emits_follows [OF hookVerdict_noCreate noCreate_environment])
      qed (auto intro: follows_ret)
    qed
  qed (auto intro: follows_ret)
qed (simp add: environmentProtocol_def)

text \<open>C40: what a hook job is told. Every job that \<open>executeHooks\<close> creates has the containers of the template of a claimed hook,
  each with the same variables after its own; they are sorted by name, with different names of letters, digits and underscores;
  every variable has the JSON text of the event, of the upgrade job, of the metadata, or of a leaf of one of them that has
  this name; every such name whose values have a JSON text is there; and the metadata says whether
  one of the claimed hooks of the event is disruptive. Leaves whose keys differ only in the characters
  that are replaced share a variable.\<close>

theorem executeHooks_environment:
  assumes "sort_func (SortEnv L)"
  shows "allowed (environmentProtocol L uj event info cutoffTime) [] (callsOf (executeHooks L r uj event key info cutoffTime) s)"
  by (rule conjunct1 [OF follows_run [OF executeHooks_environment_follows [OF assms]]])

definition containerHook :: UpgradeJobHook where
  "containerHook = sampleHook\<lparr>hk_Spec := sampleHookSpec\<lparr>Template := (Template sampleHookSpec)\<lparr>jt_Spec :=
     \<lparr>InitContainers = [], Containers = [\<lparr>ct_Name = ''main'', Env = [\<lparr>env_Name = ''OWN'', env_Value = ''1''\<rparr>]\<rparr>]\<rparr>\<rparr>\<rparr>\<rparr>"

theorem executeHooks_environment_witness:
  "map (\<lambda>j. map (\<lambda>c. map env_Name (Env c)) (Containers (job_Spec j)))
     (s_batch (storeOf (executeHooks refLib refServer (sampleJob []) EventCreate noTrackingKey (eventInfoWithReason '''') zeroTime)
        (hookCluster\<lparr>s_hooks := [containerHook]\<rparr>)))
     = [[[''OWN'', ''EVENT'', ''EVENT_name'', ''EVENT_reason'', ''JOB'', ''JOB_metadata_name'', ''JOB_metadata_namespace'', ''META'',
          ''META_matchesDisruptiveHooks'']]]
   \<and> allowed (environmentProtocol refLib (sampleJob []) EventCreate (eventInfoWithReason '''') zeroTime) []
      (callsOf (executeHooks refLib refServer (sampleJob []) EventCreate noTrackingKey (eventInfoWithReason '''') zeroTime)
        (hookCluster\<lparr>s_hooks := [containerHook]\<rparr>))"
  by (rule conjI, code_simp, rule executeHooks_environment)
    (use sortBy.sort_func_axioms in \<open>simp add: refLib_def\<close>)

end
