(* ===== verification/UpgradeJob_Properties.thy ===== *)
theory UpgradeJob_Properties
  imports Samples
begin

text \<open>
  The properties of the upgrade job controller, stated for every run of a handler: for every library
  and API server that keep the laws of \<open>reconcile_api\<close>, from every store, with every failure of a call
  and every change by others between two calls. Each property is followed by a witness at the small
  API server of \<open>Api_Server\<close>.
\<close>

section \<open>The lock on the cluster version\<close>

text \<open>A write of the cluster version starts from an object this run was given and takes a free lock,
  gives the own lock back, or sets the desired update under the own lock.\<close>

definition lockWrite :: "string \<Rightarrow> ClusterVersion \<Rightarrow> ClusterVersion \<Rightarrow> bool" where
  "lockWrite lv base cv \<longleftrightarrow> takesLock lv base cv \<or> dropsLock lv base cv \<or> (\<exists>dv. setsDesired lv dv base cv)"

definition lockProtocol :: "string \<Rightarrow> ujCall list \<Rightarrow> ujCall \<Rightarrow> bool" where
  "lockProtocol lv h e = (case e of
     UpdateClusterVersion cv _ \<Rightarrow> (\<exists>base. cvRead h base \<and> lockWrite lv base cv)
   | _ \<Rightarrow> True)"

lemmas protocol_defs = hookProtocol_def trackProtocol_def pauseProtocol_def cleanupProtocol_def
  failureProtocol_def pendingProtocol_def releaseProtocol_def startProtocol_def

lemma no_version_write [simp]:
  "\<not> hookProtocol L uj event key t h (UpdateClusterVersion cv res)"
  "\<not> trackProtocol L req h (UpdateClusterVersion cv res)"
  "\<not> pauseProtocol L uj h (UpdateClusterVersion cv res)"
  "\<not> cleanupProtocol L uj h (UpdateClusterVersion cv res)"
  "\<not> failureProtocol L uj h (UpdateClusterVersion cv res)"
  "\<not> pendingProtocol L uj h (UpdateClusterVersion cv res)"
  by (simp_all add: protocol_defs)

text \<open>What \<open>Reconcile\<close> may write to the cluster version.\<close>

definition startedJob :: "'z lib_scheme \<Rightarrow> UpgradeJob \<Rightarrow> ujCall list \<Rightarrow> bool" where
  "startedJob L uj h \<longleftrightarrow> succeededCondition L uj = None \<and> failedCondition L uj = None
     \<and> IsStatusConditionTrue L (uj_Conditions uj) UpgradeJobConditionStarted
     \<and> hooksDone L uj EventCreate noTrackingKey zeroTime h \<and> hooksDone L uj EventStart noTrackingKey zeroTime h
     \<and> inTime uj h"

lemma reconcile_version_write:
  assumes "reconcileProtocol L r req h (UpdateClusterVersion cv res)"
  obtains uj base where "GetUpgradeJob req (Inr uj) \<in> set h" "lockVal uj = lockOf req" "cvRead h base"
    "(succeededCondition L uj \<noteq> None \<or> failedCondition L uj \<noteq> None) \<and> dropsLock (lockOf req) base cv
     \<or> startedJob L uj h \<and> takesLock (lockOf req) base cv
     \<or> startedJob L uj h \<and> (\<exists>dv. setsDesired (lockOf req) dv base cv \<and> upgradeReady L uj h base dv)"
  using assms unfolding reconcileProtocol_def jobProtocol_def startedJob_def
  by (fastforce simp: succeededProtocol_def failedProtocol_def releaseProtocol_def startProtocol_def
      split: option.splits if_splits)

lemma Reconcile_allowed:
  assumes "reconcile_api r L" and "\<And>h e. reconcileProtocol L r req h e \<Longrightarrow> P h e"
  shows "allowed P [] (callsOf (Reconcile L r req) s)"
  using follows_run [OF reconcile_api.Reconcile_follows [OF assms(1)]] assms(2) by (blast intro: allowed_mono)

lemma Reconcile_lock_allowed:
  assumes "reconcile_api r L"
  shows "allowed (lockProtocol (lockOf req)) [] (callsOf (Reconcile L r req) s)"
proof (rule Reconcile_allowed [OF assms])
  show "lockProtocol (lockOf req) h e" if "reconcileProtocol L r req h e" for h e
    using that by (cases e) (auto simp: lockProtocol_def lockWrite_def elim!: reconcile_version_write)
qed

text \<open>C9: the lock discipline. Whatever the API answers, \<open>Reconcile\<close> only writes the cluster version to
  take a lock nobody holds, to give back the lock of the reconciled job, or to set the desired update
  while that job holds the lock; it never writes over the lock of another job.\<close>

theorem Reconcile_lock_discipline:
  assumes "reconcile_api r L"
  shows "allowed (lockProtocol (lockOf req)) [] (callsOf (Reconcile L r req) s)"
  by (rule Reconcile_lock_allowed [OF assms])

theorem Reconcile_lock_discipline_witness:
  "versionWrites (callsOf (Reconcile refLib refServer sampleRequest) startedCluster) = 2
   \<and> allowed (lockProtocol (lockOf sampleRequest)) [] (callsOf (Reconcile refLib refServer sampleRequest) startedCluster)"
  by (rule conjI, code_simp, rule Reconcile_lock_discipline [OF ref_laws(1)])

lemma lock_keeps_spec: "takesLock lv base cv \<Longrightarrow> cv_Spec cv = cv_Spec base" "dropsLock lv base cv \<Longrightarrow> cv_Spec cv = cv_Spec base"
  by (auto simp: takesLock_def dropsLock_def)

text \<open>C10: an upgrade is started under control only. The desired update of the cluster version is set
  only by a job that was read as started and neither succeeded nor failed, within its timeout, after
  its create and start hooks are done, while the cluster version carries its lock, after the health
  checks before the upgrade succeeded and, unless the check is disabled, while the update is
  available; and it is set to the version the job asks for.\<close>

theorem Reconcile_starts_upgrade:
  assumes "reconcile_api r L"
  shows "allowed (\<lambda>h e. case e of
     UpdateClusterVersion cv _ \<Rightarrow> (\<exists>uj base. GetUpgradeJob req (Inr uj) \<in> set h \<and> cvRead h base
       \<and> (cv_Spec cv = cv_Spec base
          \<or> startedJob L uj h \<and> (\<exists>dv. setsDesired (lockOf req) dv base cv \<and> upgradeReady L uj h base dv)))
   | _ \<Rightarrow> True) [] (callsOf (Reconcile L r req) s)" (is "allowed ?P _ _")
proof (rule Reconcile_allowed [OF assms])
  show "?P h e" if "reconcileProtocol L r req h e" for h e
  proof (cases e)
    case (UpdateClusterVersion cv res)
    from that [unfolded this] show ?thesis unfolding UpdateClusterVersion ujCall.case
      by (rule reconcile_version_write) (blast dest: lock_keeps_spec)
  qed simp_all
qed

theorem Reconcile_starts_upgrade_witness:
  "map (map_option upd_Version) (map (DesiredUpdate \<circ> cv_Spec) (s_versions
     (storeOf (Reconcile refLib refServer sampleRequest) startedCluster))) = [Some ''4.12.2'']
   \<and> allowed (\<lambda>h e. case e of
     UpdateClusterVersion cv _ \<Rightarrow> (\<exists>uj base. GetUpgradeJob sampleRequest (Inr uj) \<in> set h \<and> cvRead h base
       \<and> (cv_Spec cv = cv_Spec base
          \<or> startedJob refLib uj h \<and> (\<exists>dv. setsDesired (lockOf sampleRequest) dv base cv
              \<and> upgradeReady refLib uj h base dv)))
   | _ \<Rightarrow> True) [] (callsOf (Reconcile refLib refServer sampleRequest) startedCluster)"
  by (rule conjI, code_simp, rule Reconcile_starts_upgrade [OF ref_laws(1)])

section \<open>The conditions of the job\<close>

text \<open>Why a condition is set.\<close>

definition unfinished :: "'z lib_scheme \<Rightarrow> UpgradeJob \<Rightarrow> bool" where
  "unfinished L uj \<longleftrightarrow> succeededCondition L uj = None \<and> failedCondition L uj = None"

definition poolsExpired :: "'z lib_scheme \<Rightarrow> UpgradeJob \<Rightarrow> ujCall list \<Rightarrow> bool" where
  "poolsExpired L uj h \<longleftrightarrow> (\<exists>ps mcp d. selectedPool L uj h ps mcp d \<and> poolExpired ps mcp d)"

definition hookVerdictAny :: "'z lib_scheme \<Rightarrow> UpgradeJob \<Rightarrow> ujCall list \<Rightarrow> Condition \<Rightarrow> bool" where
  "hookVerdictAny L uj h c \<longleftrightarrow>
     (\<exists>uj' event key t. sameObject uj uj' \<and> hookVerdictCause L uj' event key t h c)"

definition conditionCause :: "'z lib_scheme \<Rightarrow> UpgradeJob \<Rightarrow> ujCall list \<Rightarrow> Condition \<Rightarrow> bool" where
  "conditionCause L uj h c \<longleftrightarrow> Type c = UpgradeJobConditionMachineConfigPoolsPaused
     \<or> unfinished L uj \<and> (hookVerdictAny L uj h c \<or> startVerdict L uj h c \<or> pendingVerdict L uj h c
         \<or> Type c = UpgradeJobConditionFailed \<and> Status c = ConditionTrue
           \<and> Reason c = UpgradeJobReasonUnpausingPoolsExpired \<and> poolsExpired L uj h)"

text \<open>The job sent is a version of the job read, with its verdict, and one more condition set, for a cause.\<close>

definition justified :: "'z lib_scheme \<Rightarrow> UpgradeJob \<Rightarrow> ujCall list \<Rightarrow> UpgradeJob \<Rightarrow> bool" where
  "justified L uj h sent \<longleftrightarrow> (\<exists>uj' c. sameVerdict L uj uj' \<and> statusWith L uj' c sent \<and> conditionCause L uj h c)"

lemma justifiedI: "sameVerdict L uj uj' \<Longrightarrow> statusWith L uj' c sent \<Longrightarrow> conditionCause L uj h c \<Longrightarrow> justified L uj h sent"
  unfolding justified_def by blast

lemma hookProtocol_status:
  "hookProtocol L uj' event key t h (StatusUpdateUpgradeJob sent res) \<longleftrightarrow>
     (\<exists>c. statusWith L uj' c sent \<and> hookVerdictCause L uj' event key t h c)"
  by (simp add: hookProtocol_def)

lemma no_final_verdict:
  "\<not> hookProtocol L uj EventSuccess key t h (StatusUpdateUpgradeJob sent res)"
  "\<not> hookProtocol L uj EventFailure key t h (StatusUpdateUpgradeJob sent res)"
  "\<not> hookProtocol L uj EventFinish key t h (StatusUpdateUpgradeJob sent res)"
  "jobFinished L uj \<Longrightarrow> \<not> hookProtocol L uj event key t h (StatusUpdateUpgradeJob sent res)"
  by (simp_all add: hookProtocol_status hookVerdictCause_def InfluencesOutcome_def CanSkipUpdate_def
      eventsInfluencingOutcome_def eventsAllowingSkip_def)

lemma finished_of_conditions:
  "succeededCondition L uj = Some c \<Longrightarrow> jobFinished L uj" "failedCondition L uj = Some c \<Longrightarrow> jobFinished L uj"
  by (auto simp: jobFinished_def succeededCondition_def failedCondition_def conditionTrue_def split: option.splits)

lemma justified_hook:
  assumes "unfinished L uj" and "sameVerdict L uj uj'"
    and "hookProtocol L uj' event key t h (StatusUpdateUpgradeJob sent res)"
  shows "justified L uj h sent"
proof -
  from assms(3) obtain c where "statusWith L uj' c sent" "hookVerdictCause L uj' event key t h c"
    by (auto simp: hookProtocol_status)
  then show ?thesis using assms(1,2) sameVerdict_object [OF assms(2)]
    by (intro justifiedI) (auto simp: conditionCause_def hookVerdictAny_def)
qed

lemma justified_start:
  assumes un: "unfinished L uj" and "startProtocol L r uj h (StatusUpdateUpgradeJob sent res)"
  shows "justified L uj h sent"
proof -
  from assms(2) consider
      (verdict) uj' c where "sameVerdict L uj uj'" "statusWith L uj' c sent" "startVerdict L uj h c"
    | (pools) c where "statusWith L uj c sent" "Type c = UpgradeJobConditionMachineConfigPoolsPaused"
    | (expired) c where "statusWith L uj c sent" "Type c = UpgradeJobConditionFailed" "Status c = ConditionTrue"
        "Reason c = UpgradeJobReasonUnpausingPoolsExpired" "poolsExpired L uj h"
    | (hook) uj' event key where "sameVerdict L uj uj'"
        "hookProtocol L uj' event key zeroTime h (StatusUpdateUpgradeJob sent res)"
    unfolding startProtocol_def pauseProtocol_def poolsExpired_def ujCall.case using sameVerdict_refl by metis
  then show ?thesis
  proof cases
    case verdict
    then show ?thesis using un by (intro justifiedI [OF verdict(1,2)]) (simp add: conditionCause_def)
  next
    case pools
    then show ?thesis by (intro justifiedI [OF sameVerdict_refl pools(1)]) (simp add: conditionCause_def)
  next
    case expired
    then show ?thesis using un by (intro justifiedI [OF sameVerdict_refl expired(1)]) (simp add: conditionCause_def)
  qed (rule justified_hook [OF un])
qed

lemma justified_pending:
  "unfinished L uj \<Longrightarrow> pendingProtocol L uj h (StatusUpdateUpgradeJob sent res) \<Longrightarrow> justified L uj h sent"
  by (auto simp: pendingProtocol_def conditionCause_def intro!: justifiedI [OF sameVerdict_refl])

lemma jobProtocol_status:
  assumes "jobProtocol L r uj h (StatusUpdateUpgradeJob sent res)"
  shows "justified L uj h sent"
proof (cases "unfinished L uj")
  case True
  with assms show ?thesis unfolding jobProtocol_def
    by (auto simp: unfinished_def split: if_splits
        intro: justified_pending [OF True] justified_hook [OF True sameVerdict_refl] justified_start [OF True])
next
  case False
  then have fin: "jobFinished L uj" by (auto simp: unfinished_def dest: finished_of_conditions)
  have "\<exists>c. statusWith L uj c sent \<and> Type c = UpgradeJobConditionMachineConfigPoolsPaused"
    using assms False unfolding jobProtocol_def succeededProtocol_def failedProtocol_def
    by (auto simp: no_final_verdict(1-3) no_final_verdict(4) [OF fin] cleanupProtocol_def failureProtocol_def
        releaseProtocol_def unfinished_def split: option.splits)
  then show ?thesis by (auto simp: conditionCause_def intro: justifiedI [OF sameVerdict_refl])
qed

lemma reconcile_status_write:
  assumes "reconcileProtocol L r req h (StatusUpdateUpgradeJob sent res)"
  obtains uj where "GetUpgradeJob req (Inr uj) \<in> set h"
    "sent = uj\<lparr>uj_HookJobTracker := uj_HookJobTracker sent\<rparr> \<or> justified L uj h sent"
  using assms unfolding reconcileProtocol_def by (auto simp: trackProtocol_def dest!: jobProtocol_status)

text \<open>The causes by condition. A hook can only skip or fail the job by one of its finished jobs.\<close>

definition hookSkips :: "'z lib_scheme \<Rightarrow> UpgradeJob \<Rightarrow> ujCall list \<Rightarrow> bool" where
  "hookSkips L uj h \<longleftrightarrow> (\<exists>uj' event key t. sameObject uj uj' \<and> CanSkipUpdate event \<and> hookCaused L uj' event key t h requestsSkip)"


definition windowSkips :: "'z lib_scheme \<Rightarrow> UpgradeJob \<Rightarrow> ujCall list \<Rightarrow> bool" where
  "windowSkips L uj h \<longleftrightarrow> (\<exists>now. Now now \<in> set h \<and> suspended L uj now h)"


definition startsInWindow :: "'z lib_scheme \<Rightarrow> UpgradeJob \<Rightarrow> ujCall list \<Rightarrow> bool" where
  "startsInWindow L uj h \<longleftrightarrow> (\<exists>now. Now now \<in> set h \<and> StartAfter (uj_Spec uj) \<le> now
     \<and> now \<le> StartBefore (uj_Spec uj) \<and> notSuspended L uj now h)"

definition succeedsFor :: "'z lib_scheme \<Rightarrow> UpgradeJob \<Rightarrow> ujCall list \<Rightarrow> string \<Rightarrow> bool" where
  "succeedsFor L uj h rsn \<longleftrightarrow> unfinished L uj \<and>
     (rsn = UpgradeJobReasonSucceeded \<and> successCause L uj h
      \<or> rsn = UpgradeJobReasonSkipped \<and> windowSkips L uj h
      \<or> rsn = UpgradeJobReasonHookRequestedSkip \<and> hookSkips L uj h)"


lemma cause_Succeeded:
  assumes "conditionCause L uj h c" and "Type c = UpgradeJobConditionSucceeded"
  shows "Status c = ConditionTrue \<and> succeedsFor L uj h (Reason c)"
proof -
  have "hookVerdictAny L uj h c \<Longrightarrow> Status c = ConditionTrue \<and> Reason c = UpgradeJobReasonHookRequestedSkip \<and> hookSkips L uj h"
    using assms(2) by (auto simp: hookVerdictAny_def hookVerdictCause_def hookSkips_def)
  moreover have "startVerdict L uj h c \<Longrightarrow> Status c = ConditionTrue \<and> Reason c = UpgradeJobReasonSucceeded \<and> successCause L uj h"
    using assms(2) by (simp add: startVerdict_def)
  moreover have "pendingVerdict L uj h c \<Longrightarrow> Status c = ConditionTrue \<and> Reason c = UpgradeJobReasonSkipped \<and> windowSkips L uj h"
    using assms(2) by (auto simp: pendingVerdict_def windowSkips_def)
  ultimately show ?thesis using assms unfolding conditionCause_def succeedsFor_def by auto
qed


lemma cause_Started:
  assumes "conditionCause L uj h c" and "Type c = UpgradeJobConditionStarted"
  shows "Status c = ConditionTrue \<and> unfinished L uj \<and> startsInWindow L uj h"
proof -
  have "\<not> hookVerdictAny L uj h c" "\<not> startVerdict L uj h c"
    using assms(2) by (simp_all add: hookVerdictAny_def hookVerdictCause_def startVerdict_def)
  moreover have "pendingVerdict L uj h c \<Longrightarrow> Status c = ConditionTrue \<and> startsInWindow L uj h"
    using assms(2) by (auto simp: pendingVerdict_def startsInWindow_def)
  ultimately show ?thesis using assms unfolding conditionCause_def by auto
qed

text \<open>The status updates of a run: new trackers, or one condition set on a version of the job that has the verdict of
  the job read. When this condition has the type \<open>t\<close>, \<open>P\<close> holds of it; otherwise the condition of type \<open>t\<close> is still
  the one read.\<close>

definition statusProtocol ::
  "'z lib_scheme \<Rightarrow> NamespacedName \<Rightarrow> string \<Rightarrow> (UpgradeJob \<Rightarrow> ujCall list \<Rightarrow> Condition \<Rightarrow> bool) \<Rightarrow> ujCall list \<Rightarrow> ujCall \<Rightarrow> bool"
where
  "statusProtocol L req t P h e = (case e of
     StatusUpdateUpgradeJob sent _ \<Rightarrow> (\<exists>uj. GetUpgradeJob req (Inr uj) \<in> set h \<and>
       (sent = uj\<lparr>uj_HookJobTracker := uj_HookJobTracker sent\<rparr>
        \<or> (\<exists>uj' c. sameVerdict L uj uj' \<and> statusWith L uj' c sent
             \<and> (if Type c = t then P uj h c else viewOf L sent t = viewOf L uj t))))
   | _ \<Rightarrow> True)"

lemma Reconcile_status:
  assumes "reconcile_api r L" and "t \<in> verdictTypes"
    and "\<And>uj h c. conditionCause L uj h c \<Longrightarrow> Type c = t \<Longrightarrow> P uj h c"
  shows "allowed (statusProtocol L req t P) [] (callsOf (Reconcile L r req) s)"
proof (rule Reconcile_allowed [OF assms(1)])
  have laws: "condition_laws L" using assms(1) by (simp add: reconcile_api_def)
  show "statusProtocol L req t P h e" if "reconcileProtocol L r req h e" for h e
  proof (cases e)
    case (StatusUpdateUpgradeJob sent res)
    from that [unfolded this] obtain uj where uj: "GetUpgradeJob req (Inr uj) \<in> set h"
      "sent = uj\<lparr>uj_HookJobTracker := uj_HookJobTracker sent\<rparr> \<or> justified L uj h sent"
      by (rule reconcile_status_write)
    have "if Type c = t then P uj h c else viewOf L sent t = viewOf L uj t"
      if "sameVerdict L uj uj'" "statusWith L uj' c sent" "conditionCause L uj h c" for uj' c
      using that assms(2,3) condition_laws.view_statusWith [OF laws that(2)] by (simp add: sameVerdict_def)
    with uj show ?thesis unfolding statusProtocol_def justified_def StatusUpdateUpgradeJob ujCall.case by blast
  qed (simp_all add: statusProtocol_def)
qed

text \<open>C11: a job is marked succeeded only if it was read unfinished and for one of three reasons: the
  upgrade is done (the cluster version has the desired update and the completion is stored, or no
  update was asked for), both health checks succeeded, the hooks of the event are done and every
  machine config pool is up to date; a suspension window covers the present; or a hook asked to skip
  the upgrade. Every other status that is written shows the condition \<^verbatim>\<open>Succeeded\<close> as the job read does.\<close>

theorem Reconcile_success_justified:
  assumes "reconcile_api r L"
  shows "allowed (statusProtocol L req UpgradeJobConditionSucceeded
      (\<lambda>uj h c. Status c = ConditionTrue \<and> succeedsFor L uj h (Reason c))) [] (callsOf (Reconcile L r req) s)"
  by (rule Reconcile_status [OF assms _ cause_Succeeded]) (simp_all add: verdictTypes_def)

text \<open>A started job whose upgrade is completed and verified, and a started job that is out of time.\<close>

definition doneCluster :: cluster where
  "doneCluster = startedCluster\<lparr>s_versions := [lockedVersion\<lparr>
       cv_Spec := (cv_Spec lockedVersion)\<lparr>DesiredUpdate := Some sampleUpdate\<rparr>,
       cv_History := [\<lparr>uh_State = CompletedUpdate, uh_Version = upd_Version sampleUpdate, uh_Image = upd_Image sampleUpdate\<rparr>]\<rparr>],
     s_jobs := [sampleJob (map trueCondition [UpgradeJobConditionStarted, UpgradeJobConditionPreHealthCheckDone,
         UpgradeJobConditionUpgradeCompleted, UpgradeJobConditionPostHealthCheckDone]
       @ [newCondition UpgradeJobConditionPaused ConditionFalse UpgradeJobReasonDelaySet '''',
          newCondition UpgradeJobConditionMachineConfigPoolsPaused ConditionFalse UpgradeJobReasonNoManagedPools ''''])]\<rparr>"


definition verdicts :: "ujCall list \<Rightarrow> (string \<times> string) list" where
  "verdicts es = concat (map (\<lambda>e. case e of StatusUpdateUpgradeJob sent (Inr _) \<Rightarrow>
       map (\<lambda>c. (Type c, Reason c)) (filter (\<lambda>c. Type c \<in> {UpgradeJobConditionSucceeded, UpgradeJobConditionFailed})
         (uj_Conditions sent))
     | _ \<Rightarrow> []) es)"

theorem Reconcile_success_justified_witness:
  "verdicts (callsOf (Reconcile refLib refServer sampleRequest) doneCluster)
      = [(UpgradeJobConditionSucceeded, UpgradeJobReasonSucceeded)]
   \<and> allowed (statusProtocol refLib sampleRequest UpgradeJobConditionSucceeded
      (\<lambda>uj h c. Status c = ConditionTrue \<and> succeedsFor refLib uj h (Reason c))) []
      (callsOf (Reconcile refLib refServer sampleRequest) doneCluster)"
  by (rule conjI, code_simp, rule Reconcile_success_justified [OF ref_laws(1)])



text \<open>C13: a job is marked started only at a time between its \<open>StartAfter\<close> and its \<open>StartBefore\<close> that no
  suspension window of its namespace with a matching selector covers.\<close>

theorem Reconcile_start_in_window:
  assumes "reconcile_api r L"
  shows "allowed (statusProtocol L req UpgradeJobConditionStarted
      (\<lambda>uj h c. Status c = ConditionTrue \<and> unfinished L uj \<and> startsInWindow L uj h)) [] (callsOf (Reconcile L r req) s)"
  by (rule Reconcile_status [OF assms _ cause_Started]) (simp_all add: verdictTypes_def)

theorem Reconcile_start_in_window_witness:
  "statusWrites (callsOf (Reconcile refLib refServer sampleRequest) pendingCluster) = 1
   \<and> allowed (statusProtocol refLib sampleRequest UpgradeJobConditionStarted
      (\<lambda>uj h c. Status c = ConditionTrue \<and> unfinished refLib uj \<and> startsInWindow refLib uj h)) []
      (callsOf (Reconcile refLib refServer sampleRequest) pendingCluster)"
  by (rule conjI, code_simp, rule Reconcile_start_in_window [OF ref_laws(1)])

section \<open>Finished and waiting jobs\<close>

definition finishedProtocol :: "'z lib_scheme \<Rightarrow> UpgradeJob \<Rightarrow> ujCall list \<Rightarrow> ujCall \<Rightarrow> bool" where
  "finishedProtocol L uj h e = (case e of
     StatusUpdateUpgradeJob sent _ \<Rightarrow>
       (\<exists>c. statusWith L uj c sent \<and> Type c = UpgradeJobConditionMachineConfigPoolsPaused)
   | UpdateClusterVersion cv _ \<Rightarrow> (\<exists>base. cvRead h base \<and> dropsLock (lockVal uj) base cv)
   | _ \<Rightarrow> True)"

lemma jobProtocol_finished:
  assumes "\<not> unfinished L uj" and "jobProtocol L r uj h e"
  shows "finishedProtocol L uj h e"
proof -
  have fin: "jobFinished L uj" using assms(1) by (auto simp: unfinished_def dest: finished_of_conditions)
  show ?thesis
    using assms unfolding jobProtocol_def succeededProtocol_def failedProtocol_def finishedProtocol_def
    by (cases e) (auto simp: no_final_verdict(1-3) no_final_verdict(4) [OF fin] cleanupProtocol_def
        failureProtocol_def releaseProtocol_def unfinished_def split: option.splits)
qed

text \<open>C15: a finished job stays as it is. Reconciling a job that succeeded or failed never touches one of
  its conditions except the note that pools were paused after a failure, and writes the cluster version
  only to give back the lock of this job.\<close>

theorem finished_job_stable:
  assumes "reconcile_api r L" and "isZeroPtr (DeletionTimestamp uj)" and "\<not> unfinished L uj"
  shows "allowed (finishedProtocol L uj) [] (callsOf (reconcileJob L r uj) s)"
  using follows_run [OF reconcile_api.reconcileJob_follows [OF assms(1,2)]] jobProtocol_finished [OF assms(3)]
  by (blast intro: allowed_mono)

theorem finished_job_stable_witness:
  "versionWrites (callsOf (reconcileJob refLib refServer (sampleJob [trueCondition UpgradeJobConditionSucceeded])) succeededCluster) = 1
   \<and> allowed (finishedProtocol refLib (sampleJob [trueCondition UpgradeJobConditionSucceeded])) []
      (callsOf (reconcileJob refLib refServer (sampleJob [trueCondition UpgradeJobConditionSucceeded])) succeededCluster)"
  by (rule conjI, code_simp, rule finished_job_stable [OF ref_laws(1)]; code_simp)

text \<open>Before its start time a pending job does nothing but look at the clock, and asks to be looked
  at again after the positive time that is left.\<close>

theorem reconcilePending_waits:
  assumes "c_now r s = (now, s')" and "now < StartAfter (uj_Spec uj)" and "now \<le> StartBefore (uj_Spec uj)"
  shows "resultOf (reconcilePending L r uj) s
      = Inr \<lparr>Requeue = True, RequeueAfter = timeSub (StartAfter (uj_Spec uj)) now\<rparr>
    \<and> callsOf (reconcilePending L r uj) s = [Now now] \<and> 0 < timeSub (StartAfter (uj_Spec uj)) now"
  using assms by (simp add: resultOf_def callsOf_def reconcilePending_def timeSub_pos_iff)

theorem reconcilePending_waits_witness:
  "resultOf (reconcilePending refLib refServer ((sampleJob [])\<lparr>uj_Spec := sampleSpec\<lparr>StartAfter := 5\<rparr>\<rparr>)) (emptyCluster\<lparr>s_time := 2\<rparr>)
     = Inr \<lparr>Requeue = True, RequeueAfter = 3\<rparr>"
  using reconcilePending_waits [of refServer "emptyCluster\<lparr>s_time := 2\<rparr>" 2 "emptyCluster\<lparr>s_time := 2\<rparr>"
      "(sampleJob [])\<lparr>uj_Spec := sampleSpec\<lparr>StartAfter := 5\<rparr>\<rparr>" refLib]
  by (simp add: refServer_def sampleJob_def sampleSpec_def ObjectMeta.extend_def minute_def second_def
      timeSub_def minDuration_def maxDuration_def)

text \<open>Giving the lock back. The lock is removed when the cluster version carries the lock of the job
  and nothing is written otherwise; the error of a failed read or write is returned.\<close>

theorem cleanupLock_spec:
  assumes "c_getClusterVersion r (ManagedUpstreamClusterVersionName r) s = (got, s1)"
  shows "case got of
      Inl e \<Rightarrow> resultOf (cleanupLock r uj) s = Some (Errorf ''failed to get cluster version'' e) \<and> storeOf (cleanupLock r uj) s = s1
    | Inr cv \<Rightarrow>
       if Annotations cv JobLockAnnotation = Some (lockVal uj)
       then let (res, s2) = c_updateClusterVersion r (cv\<lparr>Annotations := (Annotations cv)(JobLockAnnotation := None)\<rparr>) s1 in
         resultOf (cleanupLock r uj) s = map_option (Errorf ''failed to unlock cluster version'') (errOf res)
         \<and> storeOf (cleanupLock r uj) s = s2
       else resultOf (cleanupLock r uj) s = None \<and> storeOf (cleanupLock r uj) s = s1"
  using assms
  by (auto simp: resultOf_def storeOf_def cleanupLock_def Let_def split: sum.splits prod.splits)

theorem cleanupLock_spec_witness:
  "resultOf (cleanupLock refServer (sampleJob [])) succeededCluster = None
   \<and> map (\<lambda>cv. Annotations cv JobLockAnnotation) (s_versions (storeOf (cleanupLock refServer (sampleJob [])) succeededCluster)) = [None]"
  using cleanupLock_spec [of refServer succeededCluster "Inr lockedVersion" succeededCluster "sampleJob []"]
  by (simp add: refServer_def succeededCluster_def emptyCluster_def lockedVersion_def sampleVersion_def sampleMeta_def
      ObjectMeta.extend_def lockVal_def sampleJob_def sameName_def bump_def Let_def)

section \<open>Hooks\<close>

text \<open>C16: what \<open>executeHooks\<close> does. It claims a hook for this job only when the hook is free; it creates a
  Kubernetes job only for a matching hook it may run and only when neither a job nor a tracker exists
  for the same hook, event and key, so a hook runs at most once per event; and it decides the outcome
  of the upgrade job only by a finished hook job and only at an event that may decide it.\<close>

theorem executeHooks_protocol:
  assumes "job_api r" and "combine_laws L"
  shows "allowed (hookProtocol L uj event key cutoffTime) []
    (callsOf (executeHooks L r uj event key info cutoffTime) s)"
  using follows_run [OF job_api.executeHooks_follows [OF assms]] by blast

theorem executeHooks_protocol_witness:
  "createdJobs (callsOf (executeHooks refLib refServer (sampleJob []) EventCreate noTrackingKey (eventInfoWithReason '''') zeroTime) hookCluster) = 1
   \<and> allowed (hookProtocol refLib (sampleJob []) EventCreate noTrackingKey zeroTime) []
      (callsOf (executeHooks refLib refServer (sampleJob []) EventCreate noTrackingKey (eventInfoWithReason '''') zeroTime) hookCluster)"
  by (rule conjI, code_simp, rule executeHooks_protocol [OF ref_laws(2,4)])

text \<open>C17: the upgrade goes on after an event only when every hook that matches it and that the job may
  run has a job or tracker, all of them are finished, and none of them aborts the upgrade or asks to
  skip it while the event may still decide that; the job is unchanged then. The labels and the
  specification of the job never change.\<close>

theorem executeHooks_result:
  assumes "job_api r" and "combine_laws L"
  shows "case resultOf (executeHooks L r uj event key info cutoffTime) s of
    (uj', res) \<Rightarrow> sameObject uj uj' \<and> (jobFinished L uj \<longrightarrow> uj' = uj) \<and>
      (res = Inr True \<longrightarrow> uj' = uj \<and> hooksDone L uj event key cutoffTime
         (callsOf (executeHooks L r uj event key info cutoffTime) s))"
  using follows_run [OF job_api.executeHooks_follows [OF assms], of uj event key cutoffTime info s]
  by (simp add: case_prod_beta)

theorem executeHooks_result_witness:
  "snd (resultOf (executeHooks refLib refServer (sampleJob []) EventCreate noTrackingKey (eventInfoWithReason '''') zeroTime) pendingCluster) = Inr True
   \<and> hooksDone refLib (sampleJob []) EventCreate noTrackingKey zeroTime
      (callsOf (executeHooks refLib refServer (sampleJob []) EventCreate noTrackingKey (eventInfoWithReason '''') zeroTime) pendingCluster)"
proof -
  have "snd (resultOf (executeHooks refLib refServer (sampleJob []) EventCreate noTrackingKey (eventInfoWithReason '''') zeroTime) pendingCluster) = Inr True"
    by code_simp
  with executeHooks_result [OF ref_laws(2,4), of "sampleJob []" EventCreate noTrackingKey zeroTime "eventInfoWithReason ''''" pendingCluster]
  show ?thesis by (auto split: prod.splits)
qed

text \<open>C18: while the upgrade job exists, tracking never loses the outcome of a hook job. \<open>trackHookJobs\<close> stores the
  trackers of the listed jobs together with the completed trackers of before, and takes its finalizer off a
  Kubernetes job only after the API server has confirmed that the outcome of that finished job is stored, or after it
  answered that the upgrade job is gone, when there is nothing left to store it in.\<close>

theorem trackHookJobs_protocol:
  assumes "tracker_laws L"
  shows "allowed (trackProtocol L req) [] (callsOf (trackHookJobs L r req) s)"
  by (rule conjunct1 [OF follows_run [OF trackHookJobs_follows [OF assms]]])

theorem trackHookJobs_protocol_witness:
  "jobWrites (callsOf (trackHookJobs refLib refServer sampleRequest) trackedCluster) = 1
   \<and> statusWrites (callsOf (trackHookJobs refLib refServer sampleRequest) trackedCluster) = 1
   \<and> allowed (trackProtocol refLib sampleRequest) [] (callsOf (trackHookJobs refLib refServer sampleRequest) trackedCluster)"
  by (rule conjI, code_simp, rule conjI, code_simp, rule trackHookJobs_protocol [OF ref_laws(5)])

section \<open>Machine config pools\<close>

text \<open>Pausing pools for their delay. A pool is only written to change whether it is paused: to paused
  before the minimal delay after the start of the job, to unpaused from then on and before the maximal
  delay, after the unpause hooks of this pool are done; it then carries the lock of the job. The job
  fails only for a pool that is still paused when the maximal delay is over.\<close>

theorem pauseUnpause_protocol:
  assumes "job_api r" and "combine_laws L" and "condition_laws L"
  shows "allowed (pauseProtocol L uj) [] (callsOf (pauseUnpauseMachineConfigPools L r uj) s)"
  by (rule conjunct1 [OF follows_run [OF job_api.pauseUnpauseMachineConfigPools_follows [OF assms]]])

definition delayedJob :: "Condition list \<Rightarrow> UpgradeJob" where
  "delayedJob cs = (sampleJob cs)\<lparr>uj_Spec := sampleSpec\<lparr>Config := sampleConfig\<lparr>MachineConfigPools :=
     [\<lparr>MatchLabels = Some sampleSelector, DelayUpgrade = \<lparr>DelayMin = 60 * minute, DelayMax = 120 * minute\<rparr>\<rparr>]\<rparr>\<rparr>\<rparr>"

definition poolCluster :: "bool \<Rightarrow> (string \<rightharpoonup> string) \<Rightarrow> cluster" where
  "poolCluster paused annots = emptyCluster\<lparr>s_time := minute, s_jobs := [delayedJob []],
     s_pools := [samplePool ''worker'' paused annots 1]\<rparr>"

theorem pauseUnpause_protocol_witness:
  "map (\<lambda>p. (Paused p, Annotations p JobLockAnnotation))
      (s_pools (storeOf (pauseUnpauseMachineConfigPools refLib refServer (delayedJob [])) (poolCluster False Map.empty)))
     = [(True, Some ''ns/job'')]
   \<and> allowed (pauseProtocol refLib (delayedJob [])) []
      (callsOf (pauseUnpauseMachineConfigPools refLib refServer (delayedJob [])) (poolCluster False Map.empty))"
  by (rule conjI, code_simp, rule pauseUnpause_protocol [OF ref_laws(2,4,3)])

text \<open>Cleaning up after a success. Only pools that carry the lock of this job are written, to take
  the lock away and to unpause them; pools of other jobs are left alone.\<close>

theorem cleanupPools_protocol:
  assumes "job_api r" and "combine_laws L" and "jobFinished L uj"
  shows "allowed (cleanupProtocol L uj) [] (callsOf (cleanupMachineConfigPools L r uj) s)"
  by (rule conjunct1 [OF follows_run [OF job_api.cleanupMachineConfigPools_follows [OF assms]]])

theorem cleanupPools_protocol_witness:
  "map (\<lambda>p. (Paused p, Annotations p JobLockAnnotation)) (s_pools (storeOf (cleanupMachineConfigPools refLib refServer
       (delayedJob [trueCondition UpgradeJobConditionSucceeded])) (poolCluster True [JobLockAnnotation \<mapsto> ''ns/job''])))
     = [(False, None)]
   \<and> allowed (cleanupProtocol refLib (delayedJob [trueCondition UpgradeJobConditionSucceeded])) []
      (callsOf (cleanupMachineConfigPools refLib refServer (delayedJob [trueCondition UpgradeJobConditionSucceeded]))
        (poolCluster True [JobLockAnnotation \<mapsto> ''ns/job'']))"
proof -
  have "jobFinished refLib (delayedJob [trueCondition UpgradeJobConditionSucceeded])" by code_simp
  then show ?thesis by (intro conjI, code_simp) (rule cleanupPools_protocol [OF ref_laws(2,4)])
qed

text \<open>After a failure only pools that are not paused and still have machines to update are written,
  to pause them, and only when the job asks for it; the job then records that its pools were paused.\<close>

theorem pauseOnFailure_protocol:
  "allowed (failureProtocol L uj) [] (callsOf (pauseMachinePoolsOnFailure L r uj) s)"
  by (rule conjunct1 [OF follows_run [OF pauseMachinePoolsOnFailure_follows]])

text \<open>The three ways a pool is written.\<close>

definition flipsPool :: "'z lib_scheme \<Rightarrow> UpgradeJob \<Rightarrow> ujCall list \<Rightarrow> MachineConfigPool \<Rightarrow> bool" where
  "flipsPool L uj h p \<longleftrightarrow> (\<exists>ps mcp d. selectedPool L uj h ps mcp d \<and> Paused mcp \<noteq> Paused p
     \<and> p = mcp\<lparr>Annotations := (Annotations mcp)(JobLockAnnotation \<mapsto> lockVal uj), Paused := d < DelayMin (DelayUpgrade ps)\<rparr>
     \<and> \<not> poolExpired ps mcp d
     \<and> (Paused mcp \<longrightarrow> hooksDone L uj EventMachineConfigPoolUnpause (Name mcp) zeroTime h))"

definition releasesPool :: "UpgradeJob \<Rightarrow> ujCall list \<Rightarrow> MachineConfigPool \<Rightarrow> bool" where
  "releasesPool uj h p \<longleftrightarrow> (\<exists>mcps mcp. ListPools None (Inr mcps) \<in> set h \<and> mcp \<in> set mcps
     \<and> Annotations mcp JobLockAnnotation = Some (lockVal uj)
     \<and> p = mcp\<lparr>Annotations := (Annotations mcp)(JobLockAnnotation := None), Paused := False\<rparr>)"

definition stopsPool :: "'z lib_scheme \<Rightarrow> UpgradeJob \<Rightarrow> ujCall list \<Rightarrow> MachineConfigPool \<Rightarrow> bool" where
  "stopsPool L uj h p \<longleftrightarrow> (let pf = PauseMachineConfigPoolsOnFailure (Config (uj_Spec uj)) in pf_Enabled pf
     \<and> (\<exists>sel mcps mcp. LabelSelectorAsSelector L (Some (pf_Selector pf)) = Inr sel
          \<and> ListPools (Some sel) (Inr mcps) \<in> set h \<and> mcp \<in> set mcps \<and> \<not> Paused mcp
          \<and> MachineCount mcp \<noteq> UpdatedMachineCount mcp \<and> p = mcp\<lparr>Paused := True\<rparr>))"

definition poolWritten :: "'z lib_scheme \<Rightarrow> NamespacedName \<Rightarrow> UpgradeJob \<Rightarrow> ujCall list \<Rightarrow> MachineConfigPool \<Rightarrow> bool" where
  "poolWritten L req uj h p \<longleftrightarrow>
     startedJob L uj h \<and> (\<exists>cv. cvRead h cv \<and> lockHeld (lockOf req) cv) \<and> flipsPool L uj h p
     \<or> succeededCondition L uj \<noteq> None \<and> releasesPool uj h p
     \<or> succeededCondition L uj = None \<and> failedCondition L uj \<noteq> None \<and> stopsPool L uj h p"

lemma pool_writes:
  "\<not> hookProtocol L uj event key t h (UpdatePool p res)" "\<not> trackProtocol L req h (UpdatePool p res)"
  "\<not> pendingProtocol L uj h (UpdatePool p res)" "\<not> releaseProtocol r uj h (UpdatePool p res)"
  "pauseProtocol L uj h (UpdatePool p res) = flipsPool L uj h p"
  "cleanupProtocol L uj h (UpdatePool p res) = releasesPool uj h p"
  "failureProtocol L uj h (UpdatePool p res) = stopsPool L uj h p"
  "startProtocol L r uj h (UpdatePool p res) = (underLock L uj h \<and> flipsPool L uj h p)"
  by (auto simp: protocol_defs flipsPool_def releasesPool_def stopsPool_def Let_def)

lemma reconcile_pool_write:
  assumes "reconcileProtocol L r req h (UpdatePool p res)"
  shows "\<exists>uj. GetUpgradeJob req (Inr uj) \<in> set h \<and> lockVal uj = lockOf req \<and> poolWritten L req uj h p"
proof -
  from assms obtain uj where uj: "GetUpgradeJob req (Inr uj) \<in> set h" "lockVal uj = lockOf req"
    and "jobProtocol L r uj h (UpdatePool p res)" by (auto simp: reconcileProtocol_def pool_writes)
  then have "poolWritten L req uj h p"
    unfolding jobProtocol_def poolWritten_def startedJob_def
    by (auto simp: pool_writes succeededProtocol_def failedProtocol_def underLock_def split: option.splits if_splits)
  with uj show ?thesis by blast
qed

text \<open>C14: what \<open>Reconcile\<close> does to the pools. A pool is written in three ways only. A started job that is in time,
  whose create and start hooks are done and whose lock the cluster version carries, flips a pool one of its
  specifications selects: to paused before the minimal delay, to unpaused after it and before the maximal delay,
  once the unpause hooks of this pool are done. A succeeded job unpauses the pools that carry its lock and takes the
  lock off. A failed job that asks for it pauses selected pools that still have machines to update.\<close>

theorem Reconcile_pool_writes:
  assumes "reconcile_api r L"
  shows "allowed (\<lambda>h e. case e of
     UpdatePool p _ \<Rightarrow> (\<exists>uj. GetUpgradeJob req (Inr uj) \<in> set h \<and> lockVal uj = lockOf req \<and> poolWritten L req uj h p)
   | _ \<Rightarrow> True) [] (callsOf (Reconcile L r req) s)" (is "allowed ?P _ _")
proof (rule Reconcile_allowed [OF assms])
  show "?P h e" if "reconcileProtocol L r req h e" for h e
    using that by (cases e) (simp_all add: reconcile_pool_write)
qed

definition delayedCluster :: cluster where
  "delayedCluster = emptyCluster\<lparr>s_time := minute, s_jobs := [delayedJob [trueCondition UpgradeJobConditionStarted]],
     s_versions := [sampleVersion], s_pools := [samplePool ''worker'' False Map.empty 1]\<rparr>"

theorem Reconcile_pool_writes_witness:
  "poolWrites (callsOf (Reconcile refLib refServer sampleRequest) delayedCluster) = 1
   \<and> allowed (\<lambda>h e. case e of
       UpdatePool p _ \<Rightarrow> (\<exists>uj. GetUpgradeJob sampleRequest (Inr uj) \<in> set h \<and> lockVal uj = lockOf sampleRequest
         \<and> poolWritten refLib sampleRequest uj h p)
     | _ \<Rightarrow> True) [] (callsOf (Reconcile refLib refServer sampleRequest) delayedCluster)"
  by (rule conjI, code_simp, rule Reconcile_pool_writes [OF ref_laws(1)])

text \<open>C28: when a paused upgrade is looked at again: at the earliest of the minimal and maximal delays of its
  pools and of its timeout that is not over; when all are over there is no such time, and the caller
  returns an error.\<close>

theorem nextTimedReconcile_spec:
  assumes "sort_func (SortTimes L)" and "c_now r s = (now, s1)"
  shows "resultOf (nextTimedReconcile L r uj) s =
    (let times = {t \<in> set (possibleTimes uj). now \<le> t} in
     if times = {} then noRequeue else \<lparr>Requeue = True, RequeueAfter = timeSub (Min times) now\<rparr>)"
  using firstNotPast_sorted [OF sorted_times [OF assms(1)], of now "possibleTimes uj"]
    sort_func.set_sort [OF assms(1), of timeSub "possibleTimes uj"] assms(2)
  by (auto simp: nextTimedReconcile_def resultOf_def Let_def)

theorem nextTimedReconcile_spec_witness:
  "resultOf (nextTimedReconcile refLib refServer (delayedJob [])) (poolCluster True Map.empty)
     = \<lparr>Requeue = True, RequeueAfter = 59 * minute\<rparr>"
proof -
  have times: "{t \<in> set (possibleTimes (delayedJob [])). minute \<le> t} = {60 * minute, 120 * minute}"
    by (auto simp: possibleTimes_def delayedJob_def sampleJob_def sampleSpec_def sampleConfig_def ObjectMeta.extend_def
        sampleMeta_def minute_def second_def)
  have "resultOf (nextTimedReconcile refLib refServer (delayedJob [])) (poolCluster True Map.empty) =
    (let times = {t \<in> set (possibleTimes (delayedJob [])). minute \<le> t} in
     if times = {} then noRequeue else \<lparr>Requeue = True, RequeueAfter = timeSub (Min times) minute\<rparr>)"
    by (rule nextTimedReconcile_spec)
      (use sortBy.sort_func_axioms in \<open>simp_all add: refLib_def refServer_def poolCluster_def emptyCluster_def\<close>)
  then show ?thesis unfolding times
    by (simp add: timeSub_def minDuration_def maxDuration_def minute_def second_def)
qed

section \<open>Locks and claims\<close>

text \<open>The lock names its job. For a cluster version locked by a job whose namespace and name contain no
  slash, as Kubernetes names do, the watch of the cluster version finds exactly this job.\<close>

theorem lock_names_job:
  assumes "CHR ''/'' \<notin> set (Namespace uj)" and "CHR ''/'' \<notin> set (Name uj)"
  shows "upgradeJobNameFromLockedClusterVersion (cv\<lparr>Annotations := (Annotations cv)(JobLockAnnotation \<mapsto> lockVal uj)\<rparr>)
    = (True, \<lparr>nn_Namespace = Namespace uj, nn_Name = Name uj\<rparr>)"
  using assms splitOn_append [OF assms(1), of "Name uj"] splitOn_no_sep [OF assms(2)]
  by (simp add: upgradeJobNameFromLockedClusterVersion_def annotation_def lockVal_def)

theorem lock_names_job_witness:
  "upgradeJobNameFromLockedClusterVersion (sampleVersion\<lparr>Annotations := (Annotations sampleVersion)(JobLockAnnotation \<mapsto> lockVal (sampleJob []))\<rparr>)
     = (True, sampleRequest)"
  using lock_names_job [of "sampleJob []" sampleVersion]
  by (simp add: sampleJob_def sampleMeta_def ObjectMeta.extend_def sampleRequest_def)

text \<open>A hook that runs for the next job only has one owner. Once it is claimed it stays with its claimer,
  whatever jobs claim it afterwards, and the only job that can still execute it is its claimer.\<close>

theorem claimed_hook_keeps_owner:
  assumes "GetRun (hk_Spec hook) = RunNext" and "ClaimedBy hook = buildClaimReference owner"
    and "buildClaimReference owner \<noteq> emptyClaim" and "\<forall>c \<in> set claimers. buildClaimReference c \<noteq> emptyClaim"
  shows "ClaimedBy (foldl (\<lambda>h c. fst (Claim h c)) hook claimers) = buildClaimReference owner
    \<and> (WouldExecute hook other \<longleftrightarrow> buildClaimReference other = buildClaimReference owner)"
proof -
  let ?qs = "map buildClaimReference claimers"
  have "hookHolder (foldl (\<lambda>v q. fst (fst (Claim v (claimerOf q)), fst (snd (Claim v (claimerOf q))))) hook ?qs)
      = Some (buildClaimReference owner)"
    by (rule hook_claim.claims_keep_holder) (use assms in \<open>auto simp: hookHolder_def\<close>)
  moreover have "foldl (\<lambda>v c. fst (Claim v (claimerOf (buildClaimReference c)))) hook claimers
      = foldl (\<lambda>v c. fst (Claim v c)) hook claimers"
    by (intro foldl_cong refl arg_cong [where f = fst] Claim_reference) simp
  ultimately have "ClaimedBy (foldl (\<lambda>h c. fst (Claim h c)) hook claimers) = buildClaimReference owner"
    by (auto simp: hookHolder_def foldl_map split: if_splits)
  with assms show ?thesis by (auto simp: WouldExecute_def)
qed

theorem claimed_hook_keeps_owner_witness:
  "ClaimedBy (foldl (\<lambda>h c. fst (Claim h c)) (sampleHook\<lparr>ClaimedBy := buildClaimReference (sampleJob [])\<rparr>)
     [(sampleJob [])\<lparr>Name := ''other''\<rparr>]) = buildClaimReference (sampleJob [])"
  by (rule conjunct1 [OF claimed_hook_keeps_owner [where other = "sampleJob []"]])
    (simp_all add: sampleHook_def sampleHookSpec_def GetRun_def sampleMeta_def sampleJob_def ObjectMeta.extend_def
      buildClaimReference_def emptyClaim_def)

end
