(* ===== verification/UpgradeConfig_Controller.thy ===== *)
theory UpgradeConfig_Controller
  imports Suspension Schedule ClusterVersion_Pkg
begin

text \<open>
  \<^verbatim>\<open>controllers/upgradeconfig_controller.go\<close>: an upgrade config creates upgrade jobs along its schedule, some time
  before they start, keeps its status, and deletes old successful jobs.
\<close>

section \<open>The reconciler\<close>

datatype ucCall =
    GetUpgradeConfig NamespacedName "error + UpgradeConfig"
  | StatusUpdateUpgradeConfig UpgradeConfig "error + UpgradeConfig"
  | ListUpgradeJobs string "error + UpgradeJob list"
  | CreateUpgradeJob UpgradeJob "error + UpgradeJob"
  | DeleteUpgradeJob UpgradeJob "error option"
  | ReadClusterVersion string "error + ClusterVersion"
  | ListSuspensionWindows string "error + UpgradeSuspensionWindow list"
  | RecordEvent string string
  | ReadClock time

text \<open>The embedded \<^verbatim>\<open>client.Client\<close>, the \<^verbatim>\<open>Recorder\<close> and the \<^verbatim>\<open>Clock\<close> as functions on the store.\<close>

record 's UpgradeConfigReconciler =
  uc_getConfig :: "NamespacedName \<Rightarrow> 's \<Rightarrow> (error + UpgradeConfig) \<times> 's"
  uc_statusUpdate :: "UpgradeConfig \<Rightarrow> 's \<Rightarrow> (error + UpgradeConfig) \<times> 's"
  uc_listJobs :: "string \<Rightarrow> 's \<Rightarrow> (error + UpgradeJob list) \<times> 's"
  uc_createJob :: "UpgradeJob \<Rightarrow> 's \<Rightarrow> (error + UpgradeJob) \<times> 's"
  uc_deleteJob :: "UpgradeJob \<Rightarrow> 's \<Rightarrow> error option \<times> 's"
  uc_getVersion :: "string \<Rightarrow> 's \<Rightarrow> (error + ClusterVersion) \<times> 's"
  uc_listWindows :: "string \<Rightarrow> 's \<Rightarrow> (error + UpgradeSuspensionWindow list) \<times> 's"
  uc_recordEvent :: "string \<Rightarrow> string \<Rightarrow> 's \<Rightarrow> unit \<times> 's"
  uc_now :: "'s \<Rightarrow> time \<times> 's"
  uc_ManagedUpstreamClusterVersionName :: string

type_synonym ('s, 'a) uc_io = "('s, ucCall, 'a) io"

text \<open>The zone database and the parser of cron expressions, which are not part of the repository.\<close>

record cron_lib =
  LocalZone :: location
  LoadLocation :: "string \<Rightarrow> error + location"
  ParseStandard :: "string \<Rightarrow> error + (location \<Rightarrow> time \<Rightarrow> time)"

abbreviation EventReasonUpgradeConfigSuspended :: string where
  "EventReasonUpgradeConfigSuspended \<equiv> ''UpgradeConfigSuspended''"
abbreviation EventReasonUpgradeConfigSuspendedBySuspensionWindow :: string where
  "EventReasonUpgradeConfigSuspendedBySuspensionWindow \<equiv> ''UpgradeConfigSuspendedBySuspensionWindow''"

section \<open>The jobs of a config\<close>

text \<open>\<^verbatim>\<open>metav1.IsControlledBy\<close>.\<close>

definition IsControlledBy :: "'z lib_scheme \<Rightarrow> 'x ObjectMeta_scheme \<Rightarrow> 'y ObjectMeta_scheme \<Rightarrow> bool" where
  "IsControlledBy L obj owner = (case GetControllerOf L (OwnerReferences obj) of
     None \<Rightarrow> False
   | Some ref \<Rightarrow> or_UID ref = UID owner)"

fun filterControlledJobs :: "'z lib_scheme \<Rightarrow> UpgradeConfig \<Rightarrow> UpgradeJob list \<Rightarrow> UpgradeJob list" where
  "filterControlledJobs L uc [] = []"
| "filterControlledJobs L uc (job # jobs) =
     (if IsControlledBy L job uc then job # filterControlledJobs L uc jobs
      else filterControlledJobs L uc jobs)"

fun latestLoop :: "UpgradeJob option \<Rightarrow> UpgradeJob list \<Rightarrow> UpgradeJob option" where
  "latestLoop latest [] = latest"
| "latestLoop latest (job # jobs) = latestLoop
     (case latest of
        None \<Rightarrow> Some job
      | Some l \<Rightarrow> if StartAfter (uj_Spec job) > StartAfter (uj_Spec l) then Some job else latest) jobs"

definition latestScheduledJob :: "UpgradeJob list \<Rightarrow> UpgradeJob option" where
  "latestScheduledJob jobs = latestLoop None jobs"

definition getControlledJobs ::
  "'z lib_scheme \<Rightarrow> 's UpgradeConfigReconciler \<Rightarrow> UpgradeConfig \<Rightarrow> ('s, error + UpgradeJob list) uc_io"
where
  "getControlledJobs L r uc = do {
     jobs \<leftarrow> call (ListUpgradeJobs (Namespace uc)) (uc_listJobs r (Namespace uc));
     ret (case jobs of
       Inl e \<Rightarrow> Inl e
     | Inr items \<Rightarrow> Inr (filterControlledJobs L uc items))
   }"

text \<open>The config variable is updated in place, also when the API refuses the update.\<close>

definition setLastScheduledUpgrade ::
  "'s UpgradeConfigReconciler \<Rightarrow> UpgradeConfig \<Rightarrow> time \<Rightarrow> ('s, UpgradeConfig \<times> error option) uc_io"
where
  "setLastScheduledUpgrade r uc t = do {
     let uc = uc\<lparr>LastScheduledUpgrade := Some t\<rparr>;
     res \<leftarrow> call (StatusUpdateUpgradeConfig uc) (uc_statusUpdate r uc);
     ret (okOr uc res, errOf res)
   }"

definition matchingConfigWindow ::
  "'z lib_scheme \<Rightarrow> 's UpgradeConfigReconciler \<Rightarrow> UpgradeConfig \<Rightarrow> time
     \<Rightarrow> ('s, error + UpgradeSuspensionWindow option) uc_io"
where
  "matchingConfigWindow L r ucw t = do {
     allWindows \<leftarrow> call (ListSuspensionWindows (Namespace ucw)) (uc_listWindows r (Namespace ucw));
     ret (case allWindows of
       Inl e \<Rightarrow> Inl (Errorf ''failed to list hooks'' e)
     | Inr items \<Rightarrow> Inr (findWindow L ConfigSelector (Labels ucw) t items))
   }"

section \<open>createJob\<close>

text \<open>\<^verbatim>\<open>strconv.FormatInt(n, 10)\<close>, of an \<^verbatim>\<open>int64\<close>, which has at most 19 digits, and
  \<^verbatim>\<open>strings.ReplaceAll(s, ".", "-")\<close>.\<close>

fun formatDigits :: "nat \<Rightarrow> int \<Rightarrow> string" where
  "formatDigits 0 n = []"
| "formatDigits (Suc k) n =
     (if n < 10 then [char_of (48 + n)] else formatDigits k (n div 10) @ [char_of (48 + n mod 10)])"

definition formatInt :: "int \<Rightarrow> string" where
  "formatInt i = (if i < 0 then ''-'' @ formatDigits 19 (- i) else formatDigits 19 i)"

definition dotsToDashes :: "string \<Rightarrow> string" where
  "dotsToDashes s = map (\<lambda>c. if c = CHR ''.'' then CHR ''-'' else c) s"

definition scheduledJob :: "UpgradeConfig \<Rightarrow> Release option \<Rightarrow> time \<Rightarrow> OwnerReference list \<Rightarrow> UpgradeJob" where
  "scheduledJob uc latestUpdate nextRun owners =
     (let dv = map_option (\<lambda>u. \<lparr>upd_Architecture = '''', upd_Version = rel_Version u,
                 upd_Image = rel_Image u, upd_Force = False\<rparr>) latestUpdate;
          vn = (case latestUpdate of
                  None \<Rightarrow> ''noop-''
                | Some u \<Rightarrow> dotsToDashes (rel_Version u) @ ''-'')
      in \<lparr>Kind = '''', APIVersion = '''',
          Name = Name uc @ ''-'' @ vn @ formatInt (nextRun div second),
          Namespace = Namespace uc, UID = '''', ResourceVersion = '''',
          Labels = jtm_Labels (JobTemplate (uc_Spec uc)),
          Annotations = jtm_Annotations (JobTemplate (uc_Spec uc)),
          CreationTimestamp = zeroTime, DeletionTimestamp = None, DeletionGracePeriodSeconds = None,
          Finalizers = [], OwnerReferences = owners,
          uj_Spec = \<lparr>StartAfter = nextRun, StartBefore = nextRun + MaxUpgradeStartDelay (uc_Spec uc),
            DesiredVersion = dv, DesiredVersionCheckAvailability = None,
            Config = jtm_Config (JobTemplate (uc_Spec uc))\<rparr>,
          uj_Conditions = [], uj_HookJobTracker = []\<rparr>)"

definition createJob ::
  "'z lib_scheme \<Rightarrow> 's UpgradeConfigReconciler \<Rightarrow> UpgradeConfig \<Rightarrow> Release option \<Rightarrow> time
     \<Rightarrow> ('s, error option) uc_io"
where
  "createJob L r uc latestUpdate nextRun =
     (case SetControllerReference L (ObjectMeta.truncate uc) [] of
        Inl e \<Rightarrow> ret (Some (Errorf ''could not set controller reference'' e))
      | Inr owners \<Rightarrow> do {
          let newJob = scheduledJob uc latestUpdate nextRun owners;
          res \<leftarrow> call (CreateUpgradeJob newJob) (uc_createJob r newJob);
          ret (case res of
            Inl e \<Rightarrow> Some (Errorf ''could not create job'' e)
          | Inr _ \<Rightarrow> None)
        })"

section \<open>scheduleJob\<close>

text \<open>The search for a run whose scheduling window is not over (label \<^verbatim>\<open>findNextRun\<close>), with the
  attempts left after this one: the 101st attempt is the last.\<close>

datatype RunSearch = NotYet duration | InWindow time

definition createJobWindow :: "UpgradeConfigSpec \<Rightarrow> time \<Rightarrow> time" where
  "createJobWindow cfg nextRun = nextRun + wrap64 (- PinVersionWindow cfg)"

fun findNextRun :: "UpgradeConfigSpec \<Rightarrow> Schedule \<Rightarrow> location \<Rightarrow> time \<Rightarrow> nat \<Rightarrow> time \<Rightarrow> error + RunSearch" where
  "findNextRun cfg sched loc now left nextRun = (case Next sched loc nextRun of
     Inl e \<Rightarrow> Inl (Errorf ''could not find next run'' e)
   | Inr nextRun \<Rightarrow>
      let nextCreateJobWindow = createJobWindow cfg nextRun in
      if now < nextCreateJobWindow then Inr (NotYet (timeSub nextCreateJobWindow now))
      else if now > nextCreateJobWindow + MaxSchedulingDelay cfg
      then (case left of
         0 \<Rightarrow> Inl (ErrorString (''could not find next scheduling window after 101 attempts. ''
               @ ''Most likely missed too many schedules''))
       | Suc left \<Rightarrow> findNextRun cfg sched loc now left nextRun)
      else Inr (InWindow nextRun))"

declare findNextRun.simps [simp del]

text \<open>From the scheduling window on (lines 172--199).\<close>

definition scheduleRun ::
  "'z lib_scheme \<Rightarrow> 's UpgradeConfigReconciler \<Rightarrow> UpgradeConfig \<Rightarrow> time \<Rightarrow> time
     \<Rightarrow> ('s, UpgradeConfig \<times> duration \<times> error option) uc_io"
where
  "scheduleRun L r uc now nextRun = do {
     got \<leftarrow> call (ReadClusterVersion (uc_ManagedUpstreamClusterVersionName r))
       (uc_getVersion r (uc_ManagedUpstreamClusterVersionName r));
     case got of
       Inl e \<Rightarrow> ret (uc, 0, Some (Errorf ''could not get cluster version'' e))
     | Inr cv \<Rightarrow>
        if Suspend (ScheduleSpec (uc_Spec uc)) then do {
          _ \<leftarrow> call (\<lambda>_. RecordEvent EventReasonUpgradeConfigSuspended
                 ''Upgrade scheduling is suspended by .spec.schedule.suspend'')
            (uc_recordEvent r EventReasonUpgradeConfigSuspended
               ''Upgrade scheduling is suspended by .spec.schedule.suspend'');
          (uc, err) \<leftarrow> setLastScheduledUpgrade r uc nextRun;
          ret (uc, 0, err)
        }
        else do {
          found \<leftarrow> matchingConfigWindow L r uc now;
          case found of
            Inl e \<Rightarrow> ret (uc, 0, Some (Errorf ''could not search matching upgrade suspension window'' e))
          | Inr (Some window) \<Rightarrow> do {
             let msg = ''Upgrade scheduling is suspended by UpgradeSuspensionWindow '' @ Name window
                   @ '': '' @ usw_Reason (usw_Spec window);
             _ \<leftarrow> call (\<lambda>_. RecordEvent EventReasonUpgradeConfigSuspendedBySuspensionWindow msg)
               (uc_recordEvent r EventReasonUpgradeConfigSuspendedBySuspensionWindow msg);
             (uc, err) \<leftarrow> setLastScheduledUpgrade r uc nextRun;
             ret (uc, 0, err)
          }
          | Inr None \<Rightarrow> do {
             err \<leftarrow> createJob L r uc (LatestAvailableUpdate L cv) nextRun;
             case err of
               Some e \<Rightarrow> ret (uc, 0, Some (Errorf ''could not create job'' e))
             | None \<Rightarrow> do {
                (uc, err) \<leftarrow> setLastScheduledUpgrade r uc nextRun;
                ret (uc, 0, err)
             }
          }
        }
   }"

definition jobCompleted :: "'z lib_scheme \<Rightarrow> UpgradeJob \<Rightarrow> bool" where
  "jobCompleted L job \<longleftrightarrow> IsStatusConditionTrue L (uj_Conditions job) UpgradeJobConditionSucceeded
     \<or> IsStatusConditionTrue L (uj_Conditions job) UpgradeJobConditionFailed"

definition searchRun ::
  "'z lib_scheme \<Rightarrow> 's UpgradeConfigReconciler \<Rightarrow> UpgradeConfig \<Rightarrow> Schedule \<Rightarrow> location \<Rightarrow> time \<Rightarrow> time
     \<Rightarrow> ('s, UpgradeConfig \<times> duration \<times> error option) uc_io"
where
  "searchRun L r uc sched loc now earliestTimestamp =
     (case findNextRun (uc_Spec uc) sched loc now 100 earliestTimestamp of
        Inl e \<Rightarrow> ret (uc, 0, Some e)
      | Inr (NotYet d) \<Rightarrow> ret (uc, d, None)
      | Inr (InWindow nextRun) \<Rightarrow> scheduleRun L r uc now nextRun)"

definition scheduleJob ::
  "'z lib_scheme \<Rightarrow> 's UpgradeConfigReconciler \<Rightarrow> UpgradeConfig \<Rightarrow> Schedule \<Rightarrow> location
     \<Rightarrow> ('s, UpgradeConfig \<times> duration \<times> error option) uc_io"
where
  "scheduleJob L r uc sched loc = do {
     jobs \<leftarrow> getControlledJobs L r uc;
     case jobs of
       Inl e \<Rightarrow> ret (uc, 0, Some (Errorf ''could not get controlled jobs'' e))
     | Inr jobs \<Rightarrow> do {
        now \<leftarrow> call ReadClock (uc_now r);
        case latestScheduledJob jobs of
          None \<Rightarrow> searchRun L r uc sched loc now
            (case LastScheduledUpgrade uc of None \<Rightarrow> CreationTimestamp uc | Some t \<Rightarrow> t)
        | Some latestJob \<Rightarrow>
           if (case LastScheduledUpgrade uc of
                 None \<Rightarrow> True | Some t \<Rightarrow> StartAfter (uj_Spec latestJob) > t)
           then do {
             (uc, err) \<leftarrow> setLastScheduledUpgrade r uc (StartAfter (uj_Spec latestJob));
             ret (uc, 0, err)
           }
           else if StartAfter (uj_Spec latestJob) > now then ret (uc, 0, None)
           else if \<not> jobCompleted L latestJob then ret (uc, 0, None)
           else searchRun L r uc sched loc now (StartAfter (uj_Spec latestJob))
     }
   }"

section \<open>updateNextPossibleSchedulesStatus\<close>

definition updateNextPossibleSchedulesStatus ::
  "'s UpgradeConfigReconciler \<Rightarrow> UpgradeConfig \<Rightarrow> Schedule \<Rightarrow> location
     \<Rightarrow> ('s, UpgradeConfig \<times> duration \<times> error option) uc_io"
where
  "updateNextPossibleSchedulesStatus r uc sched loc = do {
     now \<leftarrow> call ReadClock (uc_now r);
     case NextN sched loc now 10 of
       ([], Some e) \<Rightarrow> ret (uc, 0, Some e)
     | (np, _) \<Rightarrow> do {
         let uc = uc\<lparr>NextPossibleSchedules := np\<rparr>;
         res \<leftarrow> call (StatusUpdateUpgradeConfig uc) (uc_statusUpdate r uc);
         ret (okOr uc res, timeSub (hd np) now, errOf res)
       }
   }"

section \<open>cleanupSuccessfulJobs\<close>

text \<open>\<^verbatim>\<open>time.Time.Compare\<close>.\<close>

definition timeCompare :: "time \<Rightarrow> time \<Rightarrow> int" where
  "timeCompare t u = (if t < u then -1 else if t > u then 1 else 0)"

definition newestFirst :: "UpgradeJob \<Rightarrow> UpgradeJob \<Rightarrow> int" where
  "newestFirst a b = timeCompare (StartAfter (uj_Spec b)) (StartAfter (uj_Spec a))"

fun filterSuccessful :: "'z lib_scheme \<Rightarrow> UpgradeJob list \<Rightarrow> UpgradeJob list" where
  "filterSuccessful L [] = []"
| "filterSuccessful L (job # jobs) =
     (if IsStatusConditionTrue L (uj_Conditions job) UpgradeJobConditionSucceeded
      then job # filterSuccessful L jobs else filterSuccessful L jobs)"

fun deleteJobs ::
  "'s UpgradeConfigReconciler \<Rightarrow> UpgradeJob list \<Rightarrow> error option list \<Rightarrow> ('s, error option list) uc_io"
where
  "deleteJobs r [] delErrs = ret delErrs"
| "deleteJobs r (job # jobs) delErrs = do {
     err \<leftarrow> call (DeleteUpgradeJob job) (uc_deleteJob r job);
     deleteJobs r jobs (delErrs @ [err])
   }"

text \<open>From the jobs found on (lines 210--233).\<close>

definition deleteSurplus ::
  "'z lib_scheme \<Rightarrow> 's UpgradeConfigReconciler \<Rightarrow> UpgradeConfig \<Rightarrow> UpgradeJob list \<Rightarrow> ('s, error option) uc_io"
where
  "deleteSurplus L r uc jobs = do {
     let successfulJobs = SortUpgradeJobs L newestFirst (filterSuccessful L jobs);
     let limit = GetSuccessfulJobsHistoryLimit (uc_Spec uc);
     delErrs \<leftarrow> (if limit > 0 \<and> int (length successfulJobs) > limit
                 then deleteJobs r (drop (nat limit) successfulJobs) []
                 else ret []);
     ret (case Combine L delErrs of
       Some e \<Rightarrow> Some (Errorf ''could not delete jobs'' e)
     | None \<Rightarrow> None)
   }"

definition cleanupSuccessfulJobs ::
  "'z lib_scheme \<Rightarrow> 's UpgradeConfigReconciler \<Rightarrow> UpgradeConfig \<Rightarrow> ('s, error option) uc_io"
where
  "cleanupSuccessfulJobs L r uc = do {
     jobs \<leftarrow> getControlledJobs L r uc;
     case jobs of
       Inl e \<Rightarrow> ret (Some (Errorf ''could not get controlled jobs'' e))
     | Inr jobs \<Rightarrow> deleteSurplus L r uc jobs
   }"

section \<open>Reconcile\<close>

definition soonestRequeue :: "duration \<Rightarrow> duration \<Rightarrow> duration" where
  "soonestRequeue jobSchedRequeue statusRequeue =
     (let n = maxDuration;
          n = (if jobSchedRequeue > 0 \<and> jobSchedRequeue < n then jobSchedRequeue else n);
          n = (if statusRequeue > 0 \<and> statusRequeue < n then statusRequeue else n)
      in if n = maxDuration then minute else n)"

definition scheduleAndCleanUp ::
  "'z lib_scheme \<Rightarrow> 's UpgradeConfigReconciler \<Rightarrow> UpgradeConfig \<Rightarrow> Schedule \<Rightarrow> location \<Rightarrow> ('s, error + Result) uc_io"
where
  "scheduleAndCleanUp L r uc sched loc = do {
     (uc, jobSchedRequeue, schedErr) \<leftarrow> scheduleJob L r uc sched loc;
     (uc, statusRequeue, stErr) \<leftarrow> updateNextPossibleSchedulesStatus r uc sched loc;
     cleanupErr \<leftarrow> cleanupSuccessfulJobs L r uc;
     ret (case Combine L [schedErr, stErr, cleanupErr] of
       Some e \<Rightarrow> Inl e
     | None \<Rightarrow> Inr \<lparr>Requeue = False, RequeueAfter = soonestRequeue jobSchedRequeue statusRequeue\<rparr>)
   }"

definition ReconcileConfig ::
  "'z lib_scheme \<Rightarrow> 'c cron_lib_scheme \<Rightarrow> 's UpgradeConfigReconciler \<Rightarrow> NamespacedName \<Rightarrow> ('s, error + Result) uc_io"
where
  "ReconcileConfig L C r req = do {
     got \<leftarrow> call (GetUpgradeConfig req) (uc_getConfig r req);
     case got of
       Inl e \<Rightarrow> ret (case IgnoreNotFound L e of None \<Rightarrow> Inr noRequeue | Some e \<Rightarrow> Inl e)
     | Inr uc \<Rightarrow>
        if \<not> isZeroPtr (DeletionTimestamp uc) then ret (Inr noRequeue)
        else (case (if Location (ScheduleSpec (uc_Spec uc)) = '''' then Inr (LocalZone C)
                    else LoadLocation C (Location (ScheduleSpec (uc_Spec uc)))) of
          Inl e \<Rightarrow> ret (Inl (Errorf ''could not load location'' e))
        | Inr loc \<Rightarrow> (case ParseStandard C (Cron (ScheduleSpec (uc_Spec uc))) of
            Inl e \<Rightarrow> ret (Inl e)
          | Inr s \<Rightarrow> scheduleAndCleanUp L r uc
              \<lparr>CronNext = s, sc_IsoWeek = IsoWeek (ScheduleSpec (uc_Spec uc))\<rparr> loc))
   }"


section \<open>The jobs looked at\<close>

lemma filterControlledJobs_filter: "filterControlledJobs L uc jobs = filter (\<lambda>job. IsControlledBy L job uc) jobs"
  by (induction jobs) auto

lemma filterSuccessful_filter:
  "filterSuccessful L jobs = filter (\<lambda>job. IsStatusConditionTrue L (uj_Conditions job) UpgradeJobConditionSucceeded) jobs"
  by (induction jobs) auto

lemma latestLoop_max:
  "latestLoop latest jobs = Some l \<Longrightarrow>
     (l \<in> set jobs \<or> latest = Some l)
     \<and> (\<forall>job \<in> set jobs \<union> set_option latest. StartAfter (uj_Spec job) \<le> StartAfter (uj_Spec l))"
  by (induction jobs arbitrary: latest) (fastforce split: option.splits if_splits)+

lemma latestLoop_None: "latestLoop latest jobs = None \<longleftrightarrow> latest = None \<and> jobs = []"
  by (induction jobs arbitrary: latest) (auto split: option.splits)

lemma latestScheduledJob_Some:
  "latestScheduledJob jobs = Some l \<Longrightarrow>
     l \<in> set jobs \<and> (\<forall>job \<in> set jobs. StartAfter (uj_Spec job) \<le> StartAfter (uj_Spec l))"
  using latestLoop_max [of None jobs l] by (simp add: latestScheduledJob_def)

lemma latestScheduledJob_None: "latestScheduledJob jobs = None \<longleftrightarrow> jobs = []"
  by (simp add: latestScheduledJob_def latestLoop_None)

section \<open>The search for a run\<close>

text \<open>The \<open>k\<close>-th run after a time, if the schedule has it.\<close>

fun runNo :: "Schedule \<Rightarrow> location \<Rightarrow> nat \<Rightarrow> time \<Rightarrow> time option" where
  "runNo sched loc 0 t = Some t"
| "runNo sched loc (Suc k) t = (case Next sched loc t of
     Inl _ \<Rightarrow> None
   | Inr u \<Rightarrow> runNo sched loc k u)"

text \<open>When a job for a run may be created: from the pinning of its version on, for the scheduling delay.\<close>

definition windowOpen :: "UpgradeConfigSpec \<Rightarrow> time \<Rightarrow> time \<Rightarrow> bool" where
  "windowOpen cfg now run \<longleftrightarrow> createJobWindow cfg run \<le> now \<and> now \<le> createJobWindow cfg run + MaxSchedulingDelay cfg"

definition windowOver :: "UpgradeConfigSpec \<Rightarrow> time \<Rightarrow> time \<Rightarrow> bool" where
  "windowOver cfg now run \<longleftrightarrow> createJobWindow cfg run \<le> now \<and> createJobWindow cfg run + MaxSchedulingDelay cfg < now"

text \<open>The first run after \<open>t\<close> whose window is not over, found with \<open>left\<close> more attempts.\<close>

definition firstRun ::
  "UpgradeConfigSpec \<Rightarrow> Schedule \<Rightarrow> location \<Rightarrow> time \<Rightarrow> nat \<Rightarrow> time \<Rightarrow> time \<Rightarrow> bool"
where
  "firstRun cfg sched loc now left t run \<longleftrightarrow> (\<exists>k \<le> left. runNo sched loc (Suc k) t = Some run
     \<and> \<not> windowOver cfg now run
     \<and> (\<forall>j < k. \<exists>v. runNo sched loc (Suc j) t = Some v \<and> windowOver cfg now v))"

lemma firstRun_step:
  assumes "Next sched loc t = Inr u"
  shows "firstRun cfg sched loc now left t run \<longleftrightarrow>
    (if windowOver cfg now u then \<exists>left'. left = Suc left' \<and> firstRun cfg sched loc now left' u run else run = u)"
proof (cases "windowOver cfg now u")
  case True
  have "firstRun cfg sched loc now left t run \<longleftrightarrow> (\<exists>k < Suc left. runNo sched loc k u = Some run
     \<and> \<not> windowOver cfg now run \<and> (\<forall>j < k. \<exists>v. runNo sched loc j u = Some v \<and> windowOver cfg now v))"
    using assms by (auto simp: firstRun_def less_Suc_eq_le)
  also have "\<dots> \<longleftrightarrow> (\<exists>k < left. runNo sched loc (Suc k) u = Some run
     \<and> \<not> windowOver cfg now run \<and> (\<forall>j < k. \<exists>v. runNo sched loc (Suc j) u = Some v \<and> windowOver cfg now v))"
    using True by (auto simp: Ex_less_Suc2 All_less_Suc2 simp del: runNo.simps(2))
  finally show ?thesis using True by (cases left) (auto simp: firstRun_def less_Suc_eq_le)
next
  case False
  have "firstRun cfg sched loc now left t run \<longleftrightarrow> (\<exists>k \<le> left. runNo sched loc k u = Some run
     \<and> \<not> windowOver cfg now run \<and> (\<forall>j < k. \<exists>v. runNo sched loc j u = Some v \<and> windowOver cfg now v))"
    using assms by (simp add: firstRun_def)
  also have "\<dots> \<longleftrightarrow> run = u"
  proof
    assume "\<exists>k \<le> left. runNo sched loc k u = Some run \<and> \<not> windowOver cfg now run
      \<and> (\<forall>j < k. \<exists>v. runNo sched loc j u = Some v \<and> windowOver cfg now v)"
    then obtain k where k: "runNo sched loc k u = Some run"
      "\<forall>j < k. \<exists>v. runNo sched loc j u = Some v \<and> windowOver cfg now v" by blast
    with False have "k = 0" by (metis not_gr_zero option.inject runNo.simps(1))
    with k show "run = u" by simp
  qed (use False in \<open>auto intro: exI [of _ 0]\<close>)
  finally show ?thesis using False by simp
qed

lemma findNextRun_open:
  "findNextRun cfg sched loc now left t = Inr (InWindow run) \<longleftrightarrow>
     firstRun cfg sched loc now left t run \<and> windowOpen cfg now run"
proof (induction left arbitrary: t)
  case 0
  show ?case by (subst findNextRun.simps)
    (auto simp: Let_def firstRun_step windowOver_def windowOpen_def firstRun_def split: sum.splits)
next
  case (Suc left)
  show ?case
  proof (cases "Next sched loc t")
    case (Inl e)
    then show ?thesis by (subst findNextRun.simps) (simp add: firstRun_def)
  next
    case (Inr u)
    then show ?thesis by (subst findNextRun.simps)
      (auto simp: Suc Let_def firstRun_step [OF Inr] windowOver_def windowOpen_def)
  qed
qed

lemma findNextRun_wait:
  "findNextRun cfg sched loc now left t = Inr (NotYet d) \<longleftrightarrow>
     (\<exists>run. firstRun cfg sched loc now left t run \<and> now < createJobWindow cfg run
        \<and> d = timeSub (createJobWindow cfg run) now)"
proof (induction left arbitrary: t)
  case 0
  show ?case by (subst findNextRun.simps)
    (auto simp: Let_def firstRun_step windowOver_def firstRun_def split: sum.splits)
next
  case (Suc left)
  show ?case
  proof (cases "Next sched loc t")
    case (Inl e)
    then show ?thesis by (subst findNextRun.simps) (simp add: firstRun_def)
  next
    case (Inr u)
    then show ?thesis by (subst findNextRun.simps)
      (auto simp: Suc Let_def firstRun_step [OF Inr] windowOver_def)
  qed
qed

context cron_progress
begin

lemma runNo_later: "runNo s loc (Suc k) t = Some u \<Longrightarrow> t < u"
proof (induction k arbitrary: t)
  case (Suc k)
  then obtain v where "Next s loc t = Inr v" "runNo s loc (Suc k) v = Some u"
    by (auto split: sum.splits)
  with Suc.IH [of v] next_run.next_later [of t v] show ?case by simp
qed (auto split: sum.splits intro: next_run.next_later)

lemma firstRun_later: "firstRun cfg s loc now left t run \<Longrightarrow> t < run"
  by (auto simp: firstRun_def simp del: runNo.simps intro: runNo_later)

end


section \<open>The protocol of scheduleJob\<close>

text \<open>The runs come after the latest job of the config, which is completed and has started; without
  a job, after the last scheduled upgrade or the creation of the config.\<close>

definition searchedFrom :: "'z lib_scheme \<Rightarrow> UpgradeConfig \<Rightarrow> UpgradeJob list \<Rightarrow> time \<Rightarrow> time \<Rightarrow> bool" where
  "searchedFrom L uc jobs now t \<longleftrightarrow> (case latestScheduledJob (filterControlledJobs L uc jobs) of
     None \<Rightarrow> t = (case LastScheduledUpgrade uc of None \<Rightarrow> CreationTimestamp uc | Some u \<Rightarrow> u)
   | Some l \<Rightarrow> t = StartAfter (uj_Spec l) \<and> t \<le> now \<and> jobCompleted L l
       \<and> (\<exists>u. LastScheduledUpgrade uc = Some u \<and> t \<le> u))"

text \<open>A run for which a job is due now.\<close>

definition dueRun ::
  "'z lib_scheme \<Rightarrow> UpgradeConfig \<Rightarrow> Schedule \<Rightarrow> location \<Rightarrow> ucCall list \<Rightarrow> time \<Rightarrow> time \<Rightarrow> bool"
where
  "dueRun L uc sched loc h now run \<longleftrightarrow> ReadClock now \<in> set h \<and> windowOpen (uc_Spec uc) now run
     \<and> (\<exists>jobs t. ListUpgradeJobs (Namespace uc) (Inr jobs) \<in> set h \<and> searchedFrom L uc jobs now t
          \<and> firstRun (uc_Spec uc) sched loc now 100 t run)"

definition windowsAt :: "UpgradeConfig \<Rightarrow> ucCall list \<Rightarrow> UpgradeSuspensionWindow list \<Rightarrow> bool" where
  "windowsAt uc h ws \<longleftrightarrow> ListSuspensionWindows (Namespace uc) (Inr ws) \<in> set h"

text \<open>Why no job is created for a due run.\<close>

definition runSuspended :: "'z lib_scheme \<Rightarrow> UpgradeConfig \<Rightarrow> ucCall list \<Rightarrow> time \<Rightarrow> bool" where
  "runSuspended L uc h now \<longleftrightarrow> Suspend (ScheduleSpec (uc_Spec uc))
     \<or> (\<exists>ws. windowsAt uc h ws \<and> (\<exists>w \<in> set ws. windowCovers L ConfigSelector (Labels uc) now w))"

definition runActive :: "'z lib_scheme \<Rightarrow> UpgradeConfig \<Rightarrow> ucCall list \<Rightarrow> time \<Rightarrow> bool" where
  "runActive L uc h now \<longleftrightarrow> \<not> Suspend (ScheduleSpec (uc_Spec uc))
     \<and> (\<exists>ws. windowsAt uc h ws \<and> (\<forall>w \<in> set ws. \<not> windowCovers L ConfigSelector (Labels uc) now w))"

definition scheduleProtocol ::
  "'z lib_scheme \<Rightarrow> 's UpgradeConfigReconciler \<Rightarrow> UpgradeConfig \<Rightarrow> Schedule \<Rightarrow> location
     \<Rightarrow> ucCall list \<Rightarrow> ucCall \<Rightarrow> bool"
where
  "scheduleProtocol L r uc sched loc h e \<longleftrightarrow> (case e of
     CreateUpgradeJob job _ \<Rightarrow> (\<exists>now run cv owners. dueRun L uc sched loc h now run \<and> runActive L uc h now
       \<and> ReadClusterVersion (uc_ManagedUpstreamClusterVersionName r) (Inr cv) \<in> set h
       \<and> SetControllerReference L (ObjectMeta.truncate uc) [] = Inr owners
       \<and> job = scheduledJob uc (LatestAvailableUpdate L cv) run owners)
   | StatusUpdateUpgradeConfig sent _ \<Rightarrow> (\<exists>t. sent = uc\<lparr>LastScheduledUpgrade := Some t\<rparr>
       \<and> ((\<exists>jobs l. ListUpgradeJobs (Namespace uc) (Inr jobs) \<in> set h \<and> l \<in> set (filterControlledJobs L uc jobs)
            \<and> t = StartAfter (uj_Spec l) \<and> (\<forall>u. LastScheduledUpgrade uc = Some u \<longrightarrow> u < t))
         \<or> (\<exists>now. dueRun L uc sched loc h now t
              \<and> (runSuspended L uc h now
                 \<or> (\<exists>job res. CreateUpgradeJob job (Inr res) \<in> set h \<and> StartAfter (uj_Spec job) = t)))))
   | DeleteUpgradeJob _ _ \<Rightarrow> False
   | GetUpgradeConfig _ _ \<Rightarrow> False
   | RecordEvent rsn msg \<Rightarrow> (\<exists>now run. dueRun L uc sched loc h now run \<and> runSuspended L uc h now)
   | _ \<Rightarrow> True)"

lemma dueRun_mono: "dueRun L uc sched loc h now run \<Longrightarrow> dueRun L uc sched loc (h @ es) now run"
  unfolding dueRun_def by auto

lemma runSuspended_mono: "runSuspended L uc h now \<Longrightarrow> runSuspended L uc (h @ es) now"
  by (auto simp: runSuspended_def windowsAt_def)

lemma StartAfter_scheduledJob [simp]: "StartAfter (uj_Spec (scheduledJob uc u run owners)) = run"
  by (simp add: scheduledJob_def Let_def)

lemma follows_setLastScheduledUpgrade:
  assumes "\<And>res. E h (StatusUpdateUpgradeConfig (uc\<lparr>LastScheduledUpgrade := Some t\<rparr>) res)"
  shows "follows E h (do { (uc, err) \<leftarrow> setLastScheduledUpgrade r uc t; ret (uc, 0, err) }) (\<lambda>_ _. True)"
  unfolding setLastScheduledUpgrade_def Let_def State_Monad.bind_assoc State_Monad.bind_left_identity
  by (auto intro!: emits_rules assms)

lemma statusDue:
  assumes "dueRun L uc sched loc h now run"
    and "runSuspended L uc h now \<or> (\<exists>job res. CreateUpgradeJob job (Inr res) \<in> set h \<and> StartAfter (uj_Spec job) = run)"
  shows "scheduleProtocol L r uc sched loc h (StatusUpdateUpgradeConfig (uc\<lparr>LastScheduledUpgrade := Some run\<rparr>) res)"
  unfolding scheduleProtocol_def ucCall.case using assms by blast

lemma recordDue:
  "dueRun L uc sched loc h now run \<Longrightarrow> runSuspended L uc h now \<Longrightarrow>
    scheduleProtocol L r uc sched loc h (RecordEvent rsn msg)"
  unfolding scheduleProtocol_def ucCall.case by blast

lemma recordAndSkip_follows:
  assumes "dueRun L uc sched loc h now run" and "runSuspended L uc h now"
  shows "follows (scheduleProtocol L r uc sched loc) h (do {
      _ \<leftarrow> call (\<lambda>_. RecordEvent rsn msg) g;
      (uc, err) \<leftarrow> setLastScheduledUpgrade r uc run;
      ret (uc, 0, err) }) (\<lambda>_ _. True)"
  by (intro follows_bind_call follows_setLastScheduledUpgrade recordDue [OF assms]
      statusDue [OF dueRun_mono [OF assms(1)]] disjI1 runSuspended_mono [OF assms(2)])

lemma createAndSet_follows:
  assumes due: "dueRun L uc sched loc h now run" and active: "runActive L uc h now"
    and cv: "ReadClusterVersion (uc_ManagedUpstreamClusterVersionName r) (Inr cv) \<in> set h"
  shows "follows (scheduleProtocol L r uc sched loc) h (do {
      err \<leftarrow> createJob L r uc (LatestAvailableUpdate L cv) run;
      case err of
        Some e \<Rightarrow> ret (uc, 0, Some (Errorf msg e))
      | None \<Rightarrow> do { (uc, err) \<leftarrow> setLastScheduledUpgrade r uc run; ret (uc, 0, err) } }) (\<lambda>_ _. True)"
  unfolding createJob_def
proof (cases "SetControllerReference L (ObjectMeta.truncate uc) []")
  case (Inr owners)
  let ?job = "scheduledJob uc (LatestAvailableUpdate L cv) run owners"
  have create: "scheduleProtocol L r uc sched loc h (CreateUpgradeJob ?job res)" for res
    unfolding scheduleProtocol_def ucCall.case using due active cv Inr by blast
  have "scheduleProtocol L r uc sched loc (h @ [CreateUpgradeJob ?job (Inr x)])
      (StatusUpdateUpgradeConfig (uc\<lparr>LastScheduledUpgrade := Some run\<rparr>) res)" for x res
    by (rule statusDue [OF dueRun_mono [OF due]]) (auto intro: exI [of _ ?job])
  then show "follows (scheduleProtocol L r uc sched loc) h (State_Monad.bind
      (case SetControllerReference L (ObjectMeta.truncate uc) [] of
         Inl e \<Rightarrow> ret (Some (Errorf ''could not set controller reference'' e))
       | Inr owners \<Rightarrow> do {
           let newJob = scheduledJob uc (LatestAvailableUpdate L cv) run owners;
           res \<leftarrow> call (CreateUpgradeJob newJob) (uc_createJob r newJob);
           ret (case res of Inl e \<Rightarrow> Some (Errorf ''could not create job'' e) | Inr _ \<Rightarrow> None)
         })
      (\<lambda>err. case err of
        Some e \<Rightarrow> ret (uc, 0, Some (Errorf msg e))
      | None \<Rightarrow> do { (uc, err) \<leftarrow> setLastScheduledUpgrade r uc run; ret (uc, 0, err) })) (\<lambda>_ _. True)"
    using create
    by (auto simp: Inr State_Monad.bind_assoc Let_def split: sum.splits
        intro!: follows_bind_call follows_setLastScheduledUpgrade follows_ret)
qed (auto intro: follows_ret)


lemma scheduleWindow_follows:
  assumes due: "dueRun L uc sched loc h now run" and "\<not> Suspend (ScheduleSpec (uc_Spec uc))"
    and cv: "ReadClusterVersion (uc_ManagedUpstreamClusterVersionName r) (Inr cv) \<in> set h"
    and ws: "ListSuspensionWindows (Namespace uc) (Inr ws) \<in> set h"
  shows "follows (scheduleProtocol L r uc sched loc) h
    (case findWindow L ConfigSelector (Labels uc) now ws of
       Some window \<Rightarrow> do {
          _ \<leftarrow> call (\<lambda>_. RecordEvent rsn (msg window)) (g window);
          (uc, err) \<leftarrow> setLastScheduledUpgrade r uc run;
          ret (uc, 0, err)
       }
     | None \<Rightarrow> do {
          err \<leftarrow> createJob L r uc (LatestAvailableUpdate L cv) run;
          case err of
            Some e \<Rightarrow> ret (uc, 0, Some (Errorf msg2 e))
          | None \<Rightarrow> do { (uc, err) \<leftarrow> setLastScheduledUpgrade r uc run; ret (uc, 0, err) }
       }) (\<lambda>_ _. True)"
proof (cases "findWindow L ConfigSelector (Labels uc) now ws")
  case None
  with assms(2) ws have "runActive L uc h now" by (auto simp: runActive_def windowsAt_def findWindow_None)
  from createAndSet_follows [OF due this cv] None show ?thesis by simp
next
  case (Some w)
  with ws have "runSuspended L uc h now" by (auto simp: runSuspended_def windowsAt_def dest!: findWindow_Some)
  from recordAndSkip_follows [OF due this] Some show ?thesis by simp
qed

lemma scheduleRun_follows:
  assumes due: "dueRun L uc sched loc h now run"
  shows "follows (scheduleProtocol L r uc sched loc) h (scheduleRun L r uc now run) (\<lambda>_ _. True)"
  unfolding scheduleRun_def matchingConfigWindow_def State_Monad.bind_assoc State_Monad.bind_left_identity
proof (intro follows_bind_call follows_case_sum, goal_cases)
  case (3 got cv)
  let ?h = "h @ [ReadClusterVersion (uc_ManagedUpstreamClusterVersionName r) got]"
  note due' = dueRun_mono [OF due]
  show ?case
  proof (rule follows_if, goal_cases)
    case 1
    then show ?case by (intro recordAndSkip_follows [OF due']) (simp add: runSuspended_def)
  next
    case 2
    show ?case
    proof (rule follows_bind_call, goal_cases)
      case (2 wl)
      show ?case
      proof (cases wl)
        case (Inr ws)
        let ?h' = "?h @ [ListSuspensionWindows (Namespace uc) wl]"
        have "ReadClusterVersion (uc_ManagedUpstreamClusterVersionName r) (Inr cv) \<in> set ?h'"
          "ListSuspensionWindows (Namespace uc) (Inr ws) \<in> set ?h'" using 3 Inr by simp_all
        from scheduleWindow_follows [OF dueRun_mono [OF due'] \<open>\<not> Suspend _\<close> this]
        show ?thesis unfolding Inr sum.case Let_def .
      qed (auto intro: follows_ret)
    qed (simp add: scheduleProtocol_def)
  qed
qed (auto simp: scheduleProtocol_def intro: follows_ret)

lemma searchRun_follows:
  assumes "ReadClock now \<in> set h" and "ListUpgradeJobs (Namespace uc) (Inr jobs) \<in> set h"
    and "searchedFrom L uc jobs now t"
  shows "follows (scheduleProtocol L r uc sched loc) h (searchRun L r uc sched loc now t) (\<lambda>_ _. True)"
proof (cases "findNextRun (uc_Spec uc) sched loc now 100 t")
  case (Inr search)
  show ?thesis
  proof (cases search)
    case (InWindow run)
    with Inr have "firstRun (uc_Spec uc) sched loc now 100 t run" "windowOpen (uc_Spec uc) now run"
      by (simp_all add: findNextRun_open)
    with assms have "dueRun L uc sched loc h now run" unfolding dueRun_def by blast
    from scheduleRun_follows [OF this] Inr InWindow show ?thesis by (simp add: searchRun_def)
  qed (use Inr in \<open>auto simp: searchRun_def intro: follows_ret\<close>)
qed (auto simp: searchRun_def intro: follows_ret)

lemma statusCatchUp:
  assumes "ListUpgradeJobs (Namespace uc) (Inr jobs) \<in> set h" and "l \<in> set (filterControlledJobs L uc jobs)"
    and "\<forall>u. LastScheduledUpgrade uc = Some u \<longrightarrow> u < StartAfter (uj_Spec l)"
  shows "scheduleProtocol L r uc sched loc h
    (StatusUpdateUpgradeConfig (uc\<lparr>LastScheduledUpgrade := Some (StartAfter (uj_Spec l))\<rparr>) res)"
  unfolding scheduleProtocol_def ucCall.case using assms by blast

lemma scheduleJob_follows:
  "follows (scheduleProtocol L r uc sched loc) h (scheduleJob L r uc sched loc) (\<lambda>_ _. True)"
  unfolding scheduleJob_def getControlledJobs_def State_Monad.bind_assoc State_Monad.bind_left_identity
proof (intro follows_bind_call, goal_cases)
  case (2 jl)
  show ?case
  proof (cases jl)
    case (Inr jobs)
    let ?h = "\<lambda>now. (h @ [ListUpgradeJobs (Namespace uc) jl]) @ [ReadClock now]"
    let ?latest = "latestScheduledJob (filterControlledJobs L uc jobs)"
    have listed: "ListUpgradeJobs (Namespace uc) (Inr jobs) \<in> set (?h now)" "ReadClock now \<in> set (?h now)" for now
      using Inr by simp_all
    show ?thesis unfolding Inr sum.case
    proof (intro follows_bind_call follows_case_option follows_if, goal_cases)
      case (2 now)
      show ?case
        by (rule searchRun_follows [OF listed(2,1), unfolded Inr]) (use 2 in \<open>simp add: searchedFrom_def\<close>)
    next
      case (3 now l)
      then show ?case
        using latestScheduledJob_Some [of "filterControlledJobs L uc jobs" l]
        by (intro follows_setLastScheduledUpgrade statusCatchUp [OF listed(1) [unfolded Inr]])
          (auto split: option.splits)
    next
      case (6 now l)
      show ?case
        by (rule searchRun_follows [OF listed(2,1), unfolded Inr])
          (use 6 in \<open>auto simp: searchedFrom_def split: option.splits\<close>)
    qed (auto simp: scheduleProtocol_def intro: follows_ret)
  qed (auto intro: follows_ret)
qed (simp add: scheduleProtocol_def)

section \<open>Numbers in names\<close>

lemma parseDigits_append: "parseDigits a (xs @ ys) = Option.bind (parseDigits a xs) (\<lambda>b. parseDigits b ys)"
  by (induction xs arbitrary: a) (auto split: option.splits)

lemma digitValue_digit: "0 \<le> d \<Longrightarrow> d < 10 \<Longrightarrow> digitValue (char_of (48 + d)) = Some d"
  by (simp add: Let_def)

lemma parseDigits_formatDigits:
  "0 \<le> n \<Longrightarrow> n < 10 ^ k \<Longrightarrow> parseDigits 0 (formatDigits k n) = Some n"
proof (induction k arbitrary: n)
  case (Suc k)
  then have "n div 10 < 10 ^ k" by (simp add: div_less_iff_less_mult)
  with Suc have "\<not> n < 10 \<Longrightarrow> parseDigits 0 (formatDigits k (n div 10)) = Some (n div 10)" by simp
  with Suc.prems digitValue_digit [of n] digitValue_digit [of "n mod 10"] show ?case
    by (auto simp: parseDigits_append simp del: digitValue.simps)
qed simp

lemma formatDigits_first:
  "k \<noteq> 0 \<Longrightarrow> 0 \<le> n \<Longrightarrow> n < 10 ^ k \<Longrightarrow> \<exists>c cs. formatDigits k n = c # cs \<and> digitValue c \<noteq> None"
proof (induction k arbitrary: n)
  case (Suc k)
  show ?case
  proof (cases "n < 10")
    case True
    with Suc.prems digitValue_digit [of n] show ?thesis by simp
  next
    case False
    with Suc.prems have "k \<noteq> 0" "n div 10 < 10 ^ k" by (auto simp: div_less_iff_less_mult intro!: gr0I)
    with Suc.IH [of "n div 10"] Suc.prems False show ?thesis
      by (auto simp del: digitValue.simps simp: pos_imp_zdiv_nonneg_iff)
  qed
qed simp

lemma parseInt_formatInt:
  assumes "int64 n"
  shows "parseInt (formatInt n) = Some n"
proof -
  let ?m = "\<bar>n\<bar>"
  have m: "0 \<le> ?m" "?m < 10 ^ 19" using assms by (auto simp: int64_def minDuration_def maxDuration_def)
  obtain c cs where f: "formatDigits 19 ?m = c # cs" "digitValue c \<noteq> None"
    using formatDigits_first [OF _ m] by auto
  have "parseUint (formatDigits 19 ?m) = Some ?m"
    using parseDigits_formatDigits [OF m] f by (simp add: parseUint_def)
  moreover have "c \<noteq> CHR ''-''" "c \<noteq> CHR ''+''" using f(2) by auto
  ultimately show ?thesis using f assms
    by (cases "n < 0") (simp_all add: formatInt_def parseInt_def)
qed

section \<open>Old jobs\<close>

lemma weak_order_newestFirst: "weak_order newestFirst"
  by (rule weak_order_key [of _ "\<lambda>j. - StartAfter (uj_Spec j)"]) (auto simp: newestFirst_def timeCompare_def)

lemma newestFirst_le: "newestFirst a b \<le> 0 \<longleftrightarrow> StartAfter (uj_Spec b) \<le> StartAfter (uj_Spec a)"
  by (auto simp: newestFirst_def timeCompare_def)

definition deletions :: "ucCall list \<Rightarrow> UpgradeJob list" where
  "deletions es = List.map_filter (\<lambda>e. case e of DeleteUpgradeJob job _ \<Rightarrow> Some job | _ \<Rightarrow> None) es"

lemma deletions_simps [simp]:
  "deletions [] = []" "deletions (DeleteUpgradeJob j res # es) = j # deletions es"
  "deletions (ListUpgradeJobs ns res2 # es) = deletions es"
  "deletions (es @ es') = deletions es @ deletions es'"
  by (simp_all add: deletions_def List.map_filter_def)

lemma spec_deleteJobs:
  "spec (deleteJobs r jobs errs) (\<lambda>out es. deletions es = jobs)"
proof (induction jobs arbitrary: errs)
  case (Cons job jobs)
  show ?case unfolding deleteJobs.simps
    by (rule spec_bind_call) (auto intro: spec_mono [OF Cons])
qed (simp add: spec_ret)

text \<open>The jobs a clean-up removes, given the jobs of the config that succeeded.\<close>

definition surplusJobs :: "'z lib_scheme \<Rightarrow> int \<Rightarrow> UpgradeJob list \<Rightarrow> UpgradeJob list" where
  "surplusJobs L limit jobs = (if limit > 0 then drop (nat limit) (SortUpgradeJobs L newestFirst jobs) else [])"

lemma surplusJobs_spec:
  assumes "sort_func (SortUpgradeJobs L)"
  shows "\<exists>kept. mset jobs = mset kept + mset (surplusJobs L limit jobs)
    \<and> length kept = (if limit > 0 then min (nat limit) (length jobs) else length jobs)
    \<and> (\<forall>k \<in> set kept. \<forall>d \<in> set (surplusJobs L limit jobs). StartAfter (uj_Spec d) \<le> StartAfter (uj_Spec k))"
proof (cases "limit > 0")
  case True
  let ?sorted = "SortUpgradeJobs L newestFirst jobs"
  have "mset jobs = mset (take (nat limit) ?sorted) + mset (drop (nat limit) ?sorted)"
    using sort_func.mset_sort [OF assms, of newestFirst jobs]
    by (metis append_take_drop_id mset_append)
  with sort_func.sort_take_drop [OF assms weak_order_newestFirst] sort_func.length_sort [OF assms] True
  show ?thesis
    by (intro exI [of _ "take (nat limit) ?sorted"]) (auto simp: surplusJobs_def newestFirst_le min.commute)
qed (auto simp: surplusJobs_def intro: exI [of _ jobs])

lemma spec_deleteSurplus:
  assumes "sort_func (SortUpgradeJobs L)"
  shows "spec (deleteSurplus L r uc jobs) (\<lambda>err es. deletions es =
    surplusJobs L (GetSuccessfulJobsHistoryLimit (uc_Spec uc)) (filterSuccessful L jobs))"
  unfolding deleteSurplus_def Let_def
proof (rule spec_bind [where \<Phi> = "\<lambda>_ es. deletions es =
    surplusJobs L (GetSuccessfulJobsHistoryLimit (uc_Spec uc)) (filterSuccessful L jobs)"], goal_cases)
  case 1
  show ?case using sort_func.length_sort [OF assms]
    by (auto simp: surplusJobs_def spec_ret nat_le_iff intro: spec_mono [OF spec_deleteJobs])
qed (simp add: spec_ret)

lemma deletions_cleanup:
  assumes "sort_func (SortUpgradeJobs L)" and "uc_listJobs r (Namespace uc) s = (jl, s1)"
  shows "deletions (callsOf (cleanupSuccessfulJobs L r uc) s) = (case jl of
      Inl e \<Rightarrow> []
    | Inr jobs \<Rightarrow> surplusJobs L (GetSuccessfulJobsHistoryLimit (uc_Spec uc))
        (filterSuccessful L (filterControlledJobs L uc jobs)))"
proof -
  let ?f = "\<lambda>jl. case (case jl of Inl e \<Rightarrow> Inl e | Inr items \<Rightarrow> Inr (filterControlledJobs L uc items)) of
       Inl e \<Rightarrow> ret (Some (Errorf ''could not get controlled jobs'' e))
     | Inr jobs \<Rightarrow> deleteSurplus L r uc jobs"
  let ?list = "uc_listJobs r (Namespace uc)"
  have "spec (?f (fst (?list s))) (\<lambda>_ es. deletions es = (case jl of Inl e \<Rightarrow> []
     | Inr jobs \<Rightarrow> surplusJobs L (GetSuccessfulJobsHistoryLimit (uc_Spec uc))
        (filterSuccessful L (filterControlledJobs L uc jobs))))"
    using spec_deleteSurplus [OF assms(1)] by (cases jl) (auto simp: assms(2) spec_ret)
  from spec_bind_first [where f = ?f and g = ?list and ev = "ListUpgradeJobs (Namespace uc)", OF this]
  show ?thesis unfolding cleanupSuccessfulJobs_def getControlledJobs_def State_Monad.bind_assoc
      State_Monad.bind_left_identity by auto
qed

end
