(* ===== verification/UpgradeConfig_Properties.thy ===== *)
theory UpgradeConfig_Properties
  imports UpgradeConfig_Controller Samples
begin

text \<open>
  The properties of the upgrade config controller, and a small server at which their hypotheses are
  discharged: a store with one config, a list of jobs, windows, the cluster version and a clock that
  stands still.
\<close>

section \<open>A small server\<close>

record configStore =
  cs_time :: time
  cs_config :: UpgradeConfig
  cs_jobs :: "UpgradeJob list"
  cs_version :: ClusterVersion
  cs_windows :: "UpgradeSuspensionWindow list"
  cs_events :: "string list"

definition refConfigServer :: "configStore UpgradeConfigReconciler" where
  "refConfigServer = \<lparr>
     uc_getConfig = (\<lambda>nn s. (if Namespace (cs_config s) = nn_Namespace nn \<and> Name (cs_config s) = nn_Name nn
       then Inr (cs_config s) else Inl (ApiError NotFound (nn_Name nn)), s)),
     uc_statusUpdate = (\<lambda>uc s. (Inr uc, s\<lparr>cs_config := uc\<rparr>)),
     uc_listJobs = (\<lambda>ns s. (Inr (inNamespace ns (cs_jobs s)), s)),
     uc_createJob = (\<lambda>job s. case createObject job (cs_jobs s) of (res, jobs) \<Rightarrow> (res, s\<lparr>cs_jobs := jobs\<rparr>)),
     uc_deleteJob = (\<lambda>job s. (None, s\<lparr>cs_jobs := filter (\<lambda>j. \<not> sameName j job) (cs_jobs s)\<rparr>)),
     uc_getVersion = (\<lambda>n s. (Inr (cs_version s), s)),
     uc_listWindows = (\<lambda>ns s. (Inr (inNamespace ns (cs_windows s)), s)),
     uc_recordEvent = (\<lambda>rsn msg s. ((), s\<lparr>cs_events := rsn # cs_events s\<rparr>)),
     uc_now = (\<lambda>s. (cs_time s, s)),
     uc_ManagedUpstreamClusterVersionName = ''version''\<rparr>"

definition refCron :: cron_lib where
  "refCron = \<lparr>LocalZone = (\<lambda>_. 0), LoadLocation = (\<lambda>_. Inr (\<lambda>_. 0)),
     ParseStandard = (\<lambda>_. Inr (CronNext dailySchedule))\<rparr>"

definition sampleUpgradeConfig :: UpgradeConfig where
  "sampleUpgradeConfig = ObjectMeta.extend (sampleMeta ''ns'' ''config'')
     \<lparr>uc_Spec = \<lparr>ScheduleSpec = \<lparr>Cron = ''@daily'', IsoWeek = '''', Location = '''', Suspend = False\<rparr>,
        PinVersionWindow = 60 * minute, MaxSchedulingDelay = 60 * minute, MaxUpgradeStartDelay = 60 * minute,
        SuccessfulJobsHistoryLimit = Some 1,
        JobTemplate = \<lparr>jtm_Labels = Map.empty, jtm_Annotations = Map.empty, jtm_Config = sampleConfig\<rparr>\<rparr>,
      LastScheduledUpgrade = None, NextPossibleSchedules = []\<rparr>"

definition ownedJob :: "string \<Rightarrow> time \<Rightarrow> Condition list \<Rightarrow> UpgradeJob" where
  "ownedJob n start cs = (sampleJob cs)\<lparr>Name := n,
     OwnerReferences := [\<lparr>or_APIVersion = '''', or_Kind = ''UpgradeConfig'', or_Name = ''config'',
       or_UID = ''config'', or_Controller = Some True\<rparr>],
     uj_Spec := sampleSpec\<lparr>StartAfter := start\<rparr>\<rparr>"

definition sampleStore :: configStore where
  "sampleStore = \<lparr>cs_time = day - 30 * minute, cs_config = sampleUpgradeConfig, cs_jobs = [], cs_version = sampleVersion,
     cs_windows = [], cs_events = []\<rparr>"

definition createdUpgradeJobs :: "ucCall list \<Rightarrow> UpgradeJob list" where
  "createdUpgradeJobs es = List.map_filter (\<lambda>e. case e of CreateUpgradeJob job (Inr _) \<Rightarrow> Some job | _ \<Rightarrow> None) es"

section \<open>Scheduling\<close>

text \<open>C23: the search for a run. \<open>findNextRun\<close> finds the first run after the given time whose
  scheduling window is not over, among the next \<open>left + 1\<close> runs: when its window is open the run is
  returned, and when it is not open yet the time until it opens. Otherwise it returns an error, so
  the loop of the code always ends.\<close>

theorem findNextRun_spec:
  "case findNextRun cfg sched loc now left t of
     Inr (InWindow run) \<Rightarrow> firstRun cfg sched loc now left t run \<and> windowOpen cfg now run
   | Inr (NotYet d) \<Rightarrow> 0 < d \<and> (\<exists>run. firstRun cfg sched loc now left t run
       \<and> now < createJobWindow cfg run \<and> d = timeSub (createJobWindow cfg run) now)
   | Inl e \<Rightarrow> \<not> (\<exists>run. firstRun cfg sched loc now left t run)"
proof (cases "findNextRun cfg sched loc now left t")
  case (Inl e)
  have "\<not> firstRun cfg sched loc now left t run" for run
  proof
    assume first: "firstRun cfg sched loc now left t run"
    then have "\<not> windowOver cfg now run" by (auto simp: firstRun_def)
    then have "windowOpen cfg now run \<or> now < createJobWindow cfg run"
      by (auto simp: windowOver_def windowOpen_def)
    with first Inl findNextRun_open [of cfg sched loc now left t run] findNextRun_wait [of cfg sched loc now left t]
    show False by auto
  qed
  with Inl show ?thesis by simp
next
  case (Inr search)
  show ?thesis
  proof (cases search)
    case (NotYet d)
    with Inr findNextRun_wait [of cfg sched loc now left t d] obtain run
      where "firstRun cfg sched loc now left t run" "now < createJobWindow cfg run"
        "d = timeSub (createJobWindow cfg run) now" by auto
    with Inr NotYet show ?thesis by (auto simp: timeSub_pos_iff)
  next
    case (InWindow run)
    with Inr findNextRun_open [of cfg sched loc now left t run] show ?thesis by simp
  qed
qed

text \<open>C19: what \<open>scheduleJob\<close> does. A job is created only for a run that is due now - the first run,
  after the latest job of the config, whose scheduling window is not over, and that window is open -
  when the latest job is completed, the schedule is not suspended and no suspension window covers
  the time; the job is the one the template describes, with the latest available update. The last
  scheduled upgrade is moved only to catch up with a job that exists or to a due run that was
  suspended or for which a job was just created.\<close>

theorem scheduleJob_protocol:
  "allowed (scheduleProtocol L r uc sched loc) [] (callsOf (scheduleJob L r uc sched loc) s)"
  by (rule conjunct1 [OF follows_run [OF scheduleJob_follows]])

text \<open>Given a schedule that moves forward, a created job starts after all jobs of the config.\<close>

definition freshProtocol :: "'z lib_scheme \<Rightarrow> UpgradeConfig \<Rightarrow> ucCall list \<Rightarrow> ucCall \<Rightarrow> bool" where
  "freshProtocol L uc h e \<longleftrightarrow> (case e of
     CreateUpgradeJob job _ \<Rightarrow> (\<exists>jobs. ListUpgradeJobs (Namespace uc) (Inr jobs) \<in> set h
       \<and> (\<forall>j \<in> set jobs. IsControlledBy L j uc \<longrightarrow> StartAfter (uj_Spec j) < StartAfter (uj_Spec job)))
   | _ \<Rightarrow> True)"

lemma searchedFrom_latest:
  assumes "searchedFrom L uc jobs now t" and "j \<in> set jobs" and "IsControlledBy L j uc"
  shows "StartAfter (uj_Spec j) \<le> t"
proof -
  have j: "j \<in> set (filterControlledJobs L uc jobs)" using assms(2,3) by (simp add: filterControlledJobs_filter)
  then obtain l where l: "latestScheduledJob (filterControlledJobs L uc jobs) = Some l"
    using latestScheduledJob_None [of "filterControlledJobs L uc jobs"] by fastforce
  with assms(1) have "t = StartAfter (uj_Spec l)" by (simp add: searchedFrom_def)
  with latestScheduledJob_Some [OF l] j show ?thesis by simp
qed

lemma scheduleProtocol_fresh:
  assumes "cron_progress sched loc" and "scheduleProtocol L r uc sched loc h e"
  shows "freshProtocol L uc h e"
proof (cases e)
  case (CreateUpgradeJob job res)
  with assms(2) obtain now run jobs t where "ListUpgradeJobs (Namespace uc) (Inr jobs) \<in> set h"
    and start: "searchedFrom L uc jobs now t" and "firstRun (uc_Spec uc) sched loc now 100 t run"
    and "StartAfter (uj_Spec job) = run"
    unfolding scheduleProtocol_def dueRun_def by auto
  moreover from cron_progress.firstRun_later [OF assms(1) this(3)] have "t < run" .
  ultimately show ?thesis using CreateUpgradeJob searchedFrom_latest [OF start]
    by (fastforce simp: freshProtocol_def)
qed (auto simp: freshProtocol_def)

text \<open>C20: no run gets a second job: a job is created only to start strictly later than every
  job the config already has.\<close>

theorem scheduleJob_fresh:
  assumes "cron_progress sched loc"
  shows "allowed (freshProtocol L uc) [] (callsOf (scheduleJob L r uc sched loc) s)"
  using conjunct1 [OF follows_run [OF scheduleJob_follows]] scheduleProtocol_fresh [OF assms]
  by (rule allowed_mono)

theorem scheduleJob_fresh_witness:
  "map (\<lambda>j. StartAfter (uj_Spec j)) (createdUpgradeJobs (callsOf (scheduleJob refLib refConfigServer sampleUpgradeConfig
      dailySchedule (\<lambda>_. 0)) sampleStore)) = [day]
   \<and> allowed (freshProtocol refLib sampleUpgradeConfig) []
      (callsOf (scheduleJob refLib refConfigServer sampleUpgradeConfig dailySchedule (\<lambda>_. 0)) sampleStore)"
  by (rule conjI, code_simp, rule scheduleJob_fresh [OF daily.cron_progress_axioms])

text \<open>A run that was suspended is taken up again: the search starts at the latest job even when the
  last scheduled upgrade is later. Here the run at \<open>day\<close> was suspended, which the status records, and
  a job for the same run is created once the suspension ends within the scheduling window.\<close>

definition resumedStore :: configStore where
  "resumedStore = sampleStore\<lparr>cs_jobs := [ownedJob ''old'' 0 [trueCondition UpgradeJobConditionSucceeded]],
     cs_config := sampleUpgradeConfig\<lparr>LastScheduledUpgrade := Some day\<rparr>\<rparr>"

lemma suspended_run_resumed:
  "LastScheduledUpgrade (cs_config resumedStore) = Some day
   \<and> map (\<lambda>j. StartAfter (uj_Spec j)) (createdUpgradeJobs (callsOf (scheduleJob refLib refConfigServer
       (cs_config resumedStore) dailySchedule (\<lambda>_. 0)) resumedStore)) = [day]"
  by code_simp

text \<open>C32: the name of a created job names its run. Two runs of a config for the same version get the
  same job name only within the same second, because the decimal number in the name reads back as
  the second of the run.\<close>

theorem scheduledJob_name:
  assumes "int64 (run div second)" and "int64 (run2 div second)"
  shows "parseInt (formatInt (run div second)) = Some (run div second)
    \<and> (Name (scheduledJob uc u run owners) = Name (scheduledJob uc u run2 owners2)
        \<longleftrightarrow> run div second = run2 div second)"
proof -
  note rd = parseInt_formatInt [OF assms(1)] parseInt_formatInt [OF assms(2)]
  have "formatInt (run div second) = formatInt (run2 div second) \<longleftrightarrow> run div second = run2 div second"
    by (metis rd option.inject)
  with rd(1) show ?thesis by (simp add: scheduledJob_def Let_def)
qed

theorem scheduledJob_name_witness:
  "Name (scheduledJob sampleUpgradeConfig None day []) = ''config-noop-86400''
   \<and> Name (scheduledJob sampleUpgradeConfig None day []) \<noteq> Name (scheduledJob sampleUpgradeConfig None 0 [])"
  using scheduledJob_name [of day 0 sampleUpgradeConfig None "[]" "[]"]
  by (intro conjI, code_simp) (simp add: int64_def day_def second_def minDuration_def maxDuration_def)

section \<open>Status, old jobs and requeueing\<close>

text \<open>C25: the clean-up of old jobs. With a limit above zero exactly the surplus is deleted: as many of the
  successful jobs of the config are kept as the limit allows, all deleted ones are at most as
  recent as every kept one, and no other job is touched. Without a limit nothing is deleted.\<close>

theorem cleanupSuccessfulJobs_surplus:
  assumes "sort_func (SortUpgradeJobs L)" and "uc_listJobs r (Namespace uc) s = (Inr jobs, s1)"
  shows "let ok = filterSuccessful L (filterControlledJobs L uc jobs);
      limit = GetSuccessfulJobsHistoryLimit (uc_Spec uc);
      deleted = deletions (callsOf (cleanupSuccessfulJobs L r uc) s) in
    \<exists>kept. mset ok = mset kept + mset deleted
      \<and> length kept = (if limit > 0 then min (nat limit) (length ok) else length ok)
      \<and> (\<forall>k \<in> set kept. \<forall>d \<in> set deleted. StartAfter (uj_Spec d) \<le> StartAfter (uj_Spec k))"
  unfolding Let_def deletions_cleanup [OF assms] sum.case by (rule surplusJobs_spec [OF assms(1)])

definition cleanupStore :: configStore where
  "cleanupStore = sampleStore\<lparr>cs_jobs := [ownedJob ''a'' 0 [trueCondition UpgradeJobConditionSucceeded],
     ownedJob ''b'' day [trueCondition UpgradeJobConditionSucceeded], ownedJob ''c'' 0 []]\<rparr>"

lemma refLib_sortUpgradeJobs: "sort_func (SortUpgradeJobs refLib)"
  using sortBy.sort_func_axioms by (simp add: refLib_def)

theorem cleanupSuccessfulJobs_surplus_witness:
  "map Name (deletions (callsOf (cleanupSuccessfulJobs refLib refConfigServer sampleUpgradeConfig) cleanupStore)) = [''a'']
   \<and> (\<exists>kept. mset (filterSuccessful refLib (filterControlledJobs refLib sampleUpgradeConfig (cs_jobs cleanupStore)))
        = mset kept + mset (deletions (callsOf (cleanupSuccessfulJobs refLib refConfigServer sampleUpgradeConfig) cleanupStore)))"
proof -
  have "inNamespace (Namespace sampleUpgradeConfig) (cs_jobs cleanupStore) = cs_jobs cleanupStore"
    by (simp add: inNamespace_def cleanupStore_def sampleStore_def ownedJob_def sampleJob_def sampleMeta_def
        sampleUpgradeConfig_def ObjectMeta.extend_def)
  then have "uc_listJobs refConfigServer (Namespace sampleUpgradeConfig) cleanupStore = (Inr (cs_jobs cleanupStore), cleanupStore)"
    by (simp add: refConfigServer_def)
  from cleanupSuccessfulJobs_surplus [where L = refLib, OF refLib_sortUpgradeJobs this]
  have "\<exists>kept. mset (filterSuccessful refLib (filterControlledJobs refLib sampleUpgradeConfig (cs_jobs cleanupStore)))
        = mset kept + mset (deletions (callsOf (cleanupSuccessfulJobs refLib refConfigServer sampleUpgradeConfig) cleanupStore))"
    unfolding Let_def by blast
  moreover have "map Name (deletions (callsOf (cleanupSuccessfulJobs refLib refConfigServer sampleUpgradeConfig) cleanupStore)) = [''a'']"
    by code_simp
  ultimately show ?thesis by simp
qed

text \<open>The waiting time is the smaller of the positive times the two parts ask for, or one minute.\<close>

lemma soonestRequeue_min:
  "soonestRequeue a b = (let ds = filter (\<lambda>d. 0 < d \<and> d < maxDuration) [a, b] in
     if ds = [] then minute else Min (set ds))"
  by (auto simp: soonestRequeue_def Let_def min_def)

lemma soonestRequeue_pos: "0 < soonestRequeue a b \<and> soonestRequeue a b < maxDuration"
  by (auto simp: soonestRequeue_def Let_def minute_def second_def maxDuration_def)

text \<open>The time \<open>scheduleJob\<close> asks for: the time until the window of the next run opens, when this run is awaited, and none
  otherwise. A run is awaited when it is the first one after the latest job, or after the last scheduled upgrade, whose
  window is not over, and that window is not open yet.\<close>

definition awaited :: "'z lib_scheme \<Rightarrow> UpgradeConfig \<Rightarrow> Schedule \<Rightarrow> location \<Rightarrow> UpgradeJob list \<Rightarrow> time \<Rightarrow> duration \<Rightarrow> bool" where
  "awaited L uc sched loc jobs now d \<longleftrightarrow> (\<exists>t run. searchedFrom L uc jobs now t
     \<and> firstRun (uc_Spec uc) sched loc now 100 t run \<and> now < createJobWindow (uc_Spec uc) run
     \<and> d = timeSub (createJobWindow (uc_Spec uc) run) now)"

definition waitsFor :: "'z lib_scheme \<Rightarrow> UpgradeConfig \<Rightarrow> Schedule \<Rightarrow> location \<Rightarrow> ucCall list \<Rightarrow> duration \<Rightarrow> bool" where
  "waitsFor L uc sched loc h d \<longleftrightarrow> (\<exists>now jobs. ReadClock now \<in> set h \<and> ListUpgradeJobs (Namespace uc) (Inr jobs) \<in> set h
     \<and> (awaited L uc sched loc jobs now d \<or> d = 0 \<and> (\<forall>d'. \<not> awaited L uc sched loc jobs now d')))"

lemma awaited_iff: "awaited L uc sched loc jobs now d \<longleftrightarrow>
    (\<exists>t. searchedFrom L uc jobs now t \<and> findNextRun (uc_Spec uc) sched loc now 100 t = Inr (NotYet d))"
  unfolding awaited_def findNextRun_wait by blast

lemma searchedFrom_unique: "searchedFrom L uc jobs now t \<Longrightarrow> searchedFrom L uc jobs now u \<Longrightarrow> t = u"
  by (auto simp: searchedFrom_def split: option.splits)

lemma waitsFor_mono: "waitsFor L uc sched loc h d \<Longrightarrow> waitsFor L uc sched loc (h @ es) d"
  unfolding waitsFor_def by auto

lemma waitsFor_none:
  "ReadClock now \<in> set h \<Longrightarrow> ListUpgradeJobs (Namespace uc) (Inr jobs) \<in> set h
    \<Longrightarrow> (\<And>t d. searchedFrom L uc jobs now t \<Longrightarrow> findNextRun (uc_Spec uc) sched loc now 100 t \<noteq> Inr (NotYet d))
    \<Longrightarrow> waitsFor L uc sched loc h 0"
  unfolding waitsFor_def awaited_iff by blast

abbreviation anyUcCall :: "ucCall list \<Rightarrow> ucCall \<Rightarrow> bool" where
  "anyUcCall \<equiv> \<lambda>_ _. True"

lemma scheduleRun_waits: "follows anyUcCall h (scheduleRun L r uc now run) (\<lambda>(uc', d, err) h'. d = 0 \<and> (\<exists>es. h' = h @ es))"
  unfolding scheduleRun_def setLastScheduledUpgrade_def createJob_def matchingConfigWindow_def Let_def
    State_Monad.bind_assoc State_Monad.bind_left_identity
  by (auto simp: State_Monad.bind_assoc intro!: emits_rules split: sum.splits option.splits)

lemma searchRun_waits:
  assumes "ReadClock now \<in> set h" and "ListUpgradeJobs (Namespace uc) (Inr jobs) \<in> set h" and "searchedFrom L uc jobs now t"
  shows "follows anyUcCall h (searchRun L r uc sched loc now t) (\<lambda>(uc', d, err) h'. err = None \<longrightarrow> waitsFor L uc sched loc h' d)"
proof (cases "findNextRun (uc_Spec uc) sched loc now 100 t")
  case (Inr search)
  show ?thesis
  proof (cases search)
    case (NotYet d)
    with Inr assms have "waitsFor L uc sched loc h d"
      unfolding waitsFor_def awaited_iff by blast
    with Inr NotYet show ?thesis by (simp add: searchRun_def follows_ret)
  next
    case (InWindow run)
    with Inr assms(3) have "waitsFor L uc sched loc h 0"
      by (intro waitsFor_none [OF assms(1,2)]) (auto dest: searchedFrom_unique)
    with Inr InWindow show ?thesis
      by (auto simp: searchRun_def intro!: follows_mono [OF scheduleRun_waits] waitsFor_mono)
  qed
qed (simp add: searchRun_def follows_ret)

lemma scheduleJob_waits:
  "follows anyUcCall h (scheduleJob L r uc sched loc) (\<lambda>(uc', d, err) h'. err = None \<longrightarrow> waitsFor L uc sched loc h' d)"
  unfolding scheduleJob_def getControlledJobs_def setLastScheduledUpgrade_def Let_def State_Monad.bind_assoc
    State_Monad.bind_left_identity
proof (intro follows_bind_call, goal_cases)
  case (2 jl)
  show ?case
  proof (cases jl)
    case (Inr jobs)
    have listed: "ListUpgradeJobs (Namespace uc) (Inr jobs) \<in> set (((h @ [ListUpgradeJobs (Namespace uc) jl]) @ [ReadClock now]) @ es)"
      "ReadClock now \<in> set (((h @ [ListUpgradeJobs (Namespace uc) jl]) @ [ReadClock now]) @ es)" for now es
      using Inr by simp_all
    have none: "waitsFor L uc sched loc (((h @ [ListUpgradeJobs (Namespace uc) jl]) @ [ReadClock now]) @ es) 0"
      if "\<And>t. \<not> searchedFrom L uc jobs now t" for now es
      by (rule waitsFor_none [OF listed(2,1)]) (use that in auto)
    show ?thesis unfolding Inr sum.case
    proof (intro follows_bind_call follows_case_option follows_if, goal_cases)
      case (2 now)
      show ?case
        by (rule searchRun_waits [OF listed(2,1) [where es = "[]", unfolded append_Nil2], unfolded Inr]) (use 2 in \<open>simp add: searchedFrom_def\<close>)
    next
      case (7 now l)
      show ?case
        by (rule searchRun_waits [OF listed(2,1) [where es = "[]", unfolded append_Nil2], unfolded Inr])
          (use 7 in \<open>auto simp: searchedFrom_def split: option.splits\<close>)
    next
      case (4 now l res)
      then have "\<not> searchedFrom L uc jobs now t" for t
        by (auto simp: searchedFrom_def split: option.splits)
      from none [OF this, of "[StatusUpdateUpgradeConfig (uc\<lparr>LastScheduledUpgrade := Some (StartAfter (uj_Spec l))\<rparr>) res]",
        unfolded Inr]
      show ?case unfolding prod.case by (intro follows_ret) simp
    next
      case (5 now l)
      then have "\<not> searchedFrom L uc jobs now t" for t by (simp add: searchedFrom_def)
      from none [OF this, of "[]", unfolded Inr] show ?case by (intro follows_ret) simp
    next
      case (6 now l)
      then have "\<not> searchedFrom L uc jobs now t" for t by (simp add: searchedFrom_def)
      from none [OF this, of "[]", unfolded Inr] show ?case by (intro follows_ret) simp
    qed auto
  qed (auto intro: follows_ret)
qed simp

text \<open>The time the status update asks for: until the first run it lists.\<close>

definition listsFrom :: "Schedule \<Rightarrow> location \<Rightarrow> ucCall list \<Rightarrow> duration \<Rightarrow> bool" where
  "listsFrom sched loc h d \<longleftrightarrow> (\<exists>now np err sent stored. ReadClock now \<in> set h \<and> NextN sched loc now 10 = (np, err) \<and> np \<noteq> []
     \<and> StatusUpdateUpgradeConfig sent (Inr stored) \<in> set h \<and> NextPossibleSchedules sent = np \<and> d = timeSub (hd np) now)"

lemma listsFrom_mono: "listsFrom sched loc h d \<Longrightarrow> listsFrom sched loc (h @ es) d"
  unfolding listsFrom_def by auto

lemma updateNext_lists:
  "follows anyUcCall h (updateNextPossibleSchedulesStatus r uc sched loc)
     (\<lambda>(uc', d, err) h'. err = None \<longrightarrow> listsFrom sched loc h' d)"
  unfolding updateNextPossibleSchedulesStatus_def
proof (rule follows_bind_call, goal_cases)
  case (2 now)
  obtain np err where np: "NextN sched loc now 10 = (np, err)" by fastforce
  show ?case
  proof (cases np)
    case Nil
    with np NextN_length [of sched loc now 10] have "err \<noteq> None" by auto
    with Nil np show ?thesis by (auto intro: follows_ret)
  next
    case (Cons u us)
    have "listsFrom sched loc ((h @ [ReadClock now]) @ [StatusUpdateUpgradeConfig (uc\<lparr>NextPossibleSchedules := np\<rparr>) res])
        (timeSub (hd np) now)" if "errOf res = None" for res
    proof -
      from that obtain stored where "res = Inr stored" by (cases res) auto
      then show ?thesis unfolding listsFrom_def
        by (intro exI [of _ now] exI [of _ np] exI [of _ err] exI [of _ "uc\<lparr>NextPossibleSchedules := np\<rparr>"] exI [of _ stored])
          (simp add: np Cons)
    qed
    then show ?thesis unfolding np Cons prod.case list.case Let_def by (intro follows_bind_call follows_ret) simp_all
  qed
qed simp

lemma deleteJobs_any: "follows anyUcCall h (deleteJobs r jobs errs) (\<lambda>_ _. True)"
  by (induction jobs arbitrary: h errs) (auto intro!: emits_rules)

lemma cleanup_any: "follows anyUcCall h (cleanupSuccessfulJobs L r uc) (\<lambda>_ _. True)"
  unfolding cleanupSuccessfulJobs_def getControlledJobs_def deleteSurplus_def Let_def
    State_Monad.bind_assoc State_Monad.bind_left_identity
  by (intro follows_bind_call follows_case_sum follows_bind [where R = "\<lambda>_ _. True"] follows_if follows_ret deleteJobs_any TrueI)

text \<open>How a run that ends without error is requeued: by the sooner of the two times, or after a minute when none of them
  is positive.\<close>

definition requeuedBy :: "'z lib_scheme \<Rightarrow> UpgradeConfig \<Rightarrow> Schedule \<Rightarrow> location \<Rightarrow> ucCall list \<Rightarrow> Result \<Rightarrow> bool" where
  "requeuedBy L uc sched loc h res \<longleftrightarrow> \<not> Requeue res \<and> 0 < RequeueAfter res \<and> RequeueAfter res < maxDuration
     \<and> (\<exists>d1 d2. waitsFor L uc sched loc h d1 \<and> listsFrom sched loc h d2
          \<and> (let ds = filter (\<lambda>d. 0 < d \<and> d < maxDuration) [d1, d2] in
             RequeueAfter res = (if ds = [] then minute else Min (set ds))))"

lemma requeuedByI:
  "waitsFor L uc sched loc h d1 \<Longrightarrow> listsFrom sched loc h d2
    \<Longrightarrow> requeuedBy L uc sched loc h \<lparr>Requeue = False, RequeueAfter = soonestRequeue d1 d2\<rparr>"
  unfolding requeuedBy_def Let_def soonestRequeue_min [unfolded Let_def, symmetric]
  using soonestRequeue_pos [of d1 d2] by (intro conjI exI [of _ d1] exI [of _ d2]) simp_all

lemma scheduleAndCleanUp_requeues:
  assumes "combine_laws L"
  shows "follows anyUcCall h (scheduleAndCleanUp L r uc sched loc)
    (\<lambda>res h'. \<forall>x. res = Inr x \<longrightarrow> requeuedBy L uc sched loc h' x)"
  unfolding scheduleAndCleanUp_def
proof (rule follows_bind [OF scheduleJob_waits], rule follows_case_prod, rule follows_case_prod, goal_cases)
  case (1 x es uc1 y d1 err1)
  then have d1: "err1 = None \<longrightarrow> waitsFor L uc sched loc (h @ es) d1" by simp
  show ?case
  proof (rule follows_bind [OF updateNext_lists], rule follows_case_prod, rule follows_case_prod,
      rule follows_bind [OF cleanup_any], rule follows_ret, goal_cases)
    case (1 x' es1 uc2 y' d2 err2 err3 es2)
    have "requeuedBy L uc sched loc (((h @ es) @ es1) @ es2) \<lparr>Requeue = False, RequeueAfter = soonestRequeue d1 d2\<rparr>"
      if "Combine L [err1, err2, err3] = None"
    proof -
      from that have "err1 = None" "err2 = None" by (simp_all add: combine_laws.combine_none [OF assms])
      with 1 d1 have w: "waitsFor L uc sched loc (h @ es) d1" and l: "listsFrom sched loc ((h @ es) @ es1) d2" by simp_all
      from requeuedByI [OF waitsFor_mono [OF waitsFor_mono [OF w]] listsFrom_mono [OF l]] show ?thesis .
    qed
    then show ?case by (auto split: option.splits)
  qed
qed

text \<open>The schedule and the time zone of a config.\<close>

definition scheduleOf :: "'c cron_lib_scheme \<Rightarrow> UpgradeConfig \<Rightarrow> Schedule \<Rightarrow> location \<Rightarrow> bool" where
  "scheduleOf C uc sched loc \<longleftrightarrow>
     (if Location (ScheduleSpec (uc_Spec uc)) = '''' then loc = LocalZone C
      else LoadLocation C (Location (ScheduleSpec (uc_Spec uc))) = Inr loc)
     \<and> ParseStandard C (Cron (ScheduleSpec (uc_Spec uc))) = Inr (CronNext sched) \<and> sc_IsoWeek sched = IsoWeek (ScheduleSpec (uc_Spec uc))"

lemma ReconcileConfig_found:
  assumes "combine_laws L" and "isZeroPtr (DeletionTimestamp uc)"
  shows "follows anyUcCall h (if \<not> isZeroPtr (DeletionTimestamp uc) then ret (Inr noRequeue)
      else (case (if Location (ScheduleSpec (uc_Spec uc)) = '''' then Inr (LocalZone C)
                  else LoadLocation C (Location (ScheduleSpec (uc_Spec uc)))) of
        Inl e \<Rightarrow> ret (Inl (Errorf msg e))
      | Inr loc \<Rightarrow> (case ParseStandard C (Cron (ScheduleSpec (uc_Spec uc))) of
          Inl e \<Rightarrow> ret (Inl e)
        | Inr s \<Rightarrow> scheduleAndCleanUp L r uc \<lparr>CronNext = s, sc_IsoWeek = IsoWeek (ScheduleSpec (uc_Spec uc))\<rparr> loc)))
    (\<lambda>res h'. \<forall>x. res = Inr x \<longrightarrow> (\<exists>sched loc. scheduleOf C uc sched loc \<and> requeuedBy L uc sched loc h' x))"
proof (intro follows_if follows_case_sum follows_ret, goal_cases)
  case (4 loc s)
  then have "scheduleOf C uc \<lparr>CronNext = s, sc_IsoWeek = IsoWeek (ScheduleSpec (uc_Spec uc))\<rparr> loc"
    by (auto simp: scheduleOf_def split: if_splits)
  then show ?case by (intro follows_mono [OF scheduleAndCleanUp_requeues [OF assms(1)]]) blast+
qed (use assms(2) in auto)

text \<open>C31: a config is looked at again. When the config exists and is not being deleted, \<open>Reconcile\<close> returns an
  error, which makes the framework retry, or asks to run again, never in the far future that stands for no time: after
  the sooner of the time until the window of the next run opens, when this run is awaited, and the time until the first
  of the runs that were listed in the status, or after a minute when none of them is positive.\<close>

theorem ReconcileConfig_requeues:
  assumes "combine_laws L" and "uc_getConfig r req s = (Inr uc, s1)" and "isZeroPtr (DeletionTimestamp uc)"
  shows "case resultOf (ReconcileConfig L C r req) s of
      Inl e \<Rightarrow> True
    | Inr res \<Rightarrow> (\<exists>sched loc. scheduleOf C uc sched loc
        \<and> requeuedBy L uc sched loc (callsOf (ReconcileConfig L C r req) s) res)"
proof -
  let ?R = "\<lambda>res h'. \<forall>x. res = Inr x \<longrightarrow> (\<exists>sched loc. scheduleOf C uc sched loc \<and> requeuedBy L uc sched loc h' x)"
  have "?R (resultOf (ReconcileConfig L C r req) s) (callsOf (ReconcileConfig L C r req) s)"
    unfolding ReconcileConfig_def
    by (rule follows_run_first [where R = ?R and E = anyUcCall], unfold assms(2) fst_conv sum.case)
      (rule ReconcileConfig_found [OF assms(1,3)])
  then show ?thesis by (simp split: sum.split)
qed

theorem ReconcileConfig_requeues_witness:
  "map_sum id RequeueAfter (resultOf (ReconcileConfig refLib refCron refConfigServer
      \<lparr>nn_Namespace = ''ns'', nn_Name = ''config''\<rparr>) sampleStore) = Inr (30 * minute)
   \<and> (case resultOf (ReconcileConfig refLib refCron refConfigServer \<lparr>nn_Namespace = ''ns'', nn_Name = ''config''\<rparr>) sampleStore of
       Inl e \<Rightarrow> True
     | Inr res \<Rightarrow> (\<exists>sched loc. scheduleOf refCron sampleUpgradeConfig sched loc \<and> requeuedBy refLib sampleUpgradeConfig sched loc
         (callsOf (ReconcileConfig refLib refCron refConfigServer \<lparr>nn_Namespace = ''ns'', nn_Name = ''config''\<rparr>) sampleStore) res))"
  by (rule conjI, code_simp, rule ReconcileConfig_requeues [where ?s1.0 = sampleStore])
    (simp_all add: refConfigServer_def sampleStore_def sampleUpgradeConfig_def ObjectMeta.extend_def
      sampleMeta_def isZeroPtr_def refLib_combine.combine_laws_axioms)

text \<open>The listed schedules. The status update lists between one and ten times, strictly increasing and all
  after the time of the clock, and changes nothing else of the config.\<close>

theorem updateNextPossibleSchedules_sorted:
  assumes "cron_progress sched loc"
  shows "allowed (\<lambda>h e. case e of
       StatusUpdateUpgradeConfig sent _ \<Rightarrow> (\<exists>now np. ReadClock now \<in> set h
         \<and> sent = uc\<lparr>NextPossibleSchedules := np\<rparr> \<and> sorted_wrt (<) (now # np) \<and> np \<noteq> [] \<and> length np \<le> 10)
     | ReadClock _ \<Rightarrow> True
     | _ \<Rightarrow> False) []
    (callsOf (updateNextPossibleSchedulesStatus r uc sched loc) s)" (is "allowed ?E [] _")
proof -
  have "follows ?E [] (updateNextPossibleSchedulesStatus r uc sched loc) (\<lambda>_ _. True)"
    unfolding updateNextPossibleSchedulesStatus_def
  proof (rule follows_bind_call, goal_cases)
    case (2 now)
    obtain np err where np: "NextN sched loc now 10 = (np, err)" by fastforce
    with cron_progress.NextN_sorted [OF assms, of now 10] NextN_length [of sched loc now 10]
    have sorted: "sorted_wrt (<) (now # np)" and len: "length np \<le> 10" and err: "np = [] \<Longrightarrow> err \<noteq> None" by auto
    show ?case
    proof (cases np)
      case Nil
      with err show ?thesis by (auto simp: np intro: follows_ret)
    next
      case (Cons u us)
      have "?E [ReadClock now] (StatusUpdateUpgradeConfig (uc\<lparr>NextPossibleSchedules := np\<rparr>) res)" for res
        unfolding ucCall.case using sorted len Cons by (intro exI [of _ now] exI [of _ np]) simp
      then show ?thesis unfolding np Cons prod.case list.case Let_def append_Nil
        by (intro follows_bind_call follows_ret TrueI)
    qed
  qed simp
  from conjunct1 [OF follows_run [OF this]] show ?thesis .
qed

theorem updateNextPossibleSchedules_sorted_witness:
  "length (NextPossibleSchedules (cs_config (storeOf (updateNextPossibleSchedulesStatus refConfigServer
      sampleUpgradeConfig dailySchedule (\<lambda>_. 0)) sampleStore))) = 10
   \<and> allowed (\<lambda>h e. case e of
       StatusUpdateUpgradeConfig sent _ \<Rightarrow> (\<exists>now np. ReadClock now \<in> set h
         \<and> sent = sampleUpgradeConfig\<lparr>NextPossibleSchedules := np\<rparr> \<and> sorted_wrt (<) (now # np) \<and> np \<noteq> [] \<and> length np \<le> 10)
     | ReadClock _ \<Rightarrow> True
     | _ \<Rightarrow> False) []
    (callsOf (updateNextPossibleSchedulesStatus refConfigServer sampleUpgradeConfig dailySchedule (\<lambda>_. 0)) sampleStore)"
  by (rule conjI, code_simp, rule updateNextPossibleSchedules_sorted [OF daily.cron_progress_axioms])

end
