(* ===== verification/SuspensionWindow_Controller.thy ===== *)
theory SuspensionWindow_Controller
  imports Suspension
begin

text \<open>
  \<^verbatim>\<open>controllers/upgradesuspensionwindow_controller.go\<close>: the status of a suspension window lists the configs and jobs it
  matches.
\<close>

datatype uswCall =
    GetWindow NamespacedName "error + UpgradeSuspensionWindow"
  | ListMatchingConfigs Selector "error + UpgradeConfig list"
  | ListMatchingJobs Selector "error + UpgradeJob list"
  | StatusUpdateWindow UpgradeSuspensionWindow "error + UpgradeSuspensionWindow"

record 's UpgradeSuspensionWindowReconciler =
  usw_get :: "NamespacedName \<Rightarrow> 's \<Rightarrow> (error + UpgradeSuspensionWindow) \<times> 's"
  usw_listConfigs :: "Selector \<Rightarrow> 's \<Rightarrow> (error + UpgradeConfig list) \<times> 's"
  usw_listJobs :: "Selector \<Rightarrow> 's \<Rightarrow> (error + UpgradeJob list) \<times> 's"
  usw_statusUpdate :: "UpgradeSuspensionWindow \<Rightarrow> 's \<Rightarrow> (error + UpgradeSuspensionWindow) \<times> 's"

type_synonym ('s, 'a) usw_io = "('s, uswCall, 'a) io"

fun jobNamesIn :: "UpgradeSuspensionWindow \<Rightarrow> UpgradeJob list \<Rightarrow> string list" where
  "jobNamesIn usw [] = []"
| "jobNamesIn usw (job # jobs) =
     (if \<not> StartAfter (uj_Spec job) < Start (usw_Spec usw) \<and> \<not> StartAfter (uj_Spec job) > End (usw_Spec usw)
      then Name job # jobNamesIn usw jobs else jobNamesIn usw jobs)"

definition ReconcileWindow ::
  "'z lib_scheme \<Rightarrow> 's UpgradeSuspensionWindowReconciler \<Rightarrow> NamespacedName \<Rightarrow> ('s, error + Result) usw_io"
where
  "ReconcileWindow L r req = do {
     got \<leftarrow> call (GetWindow req) (usw_get r req);
     case got of
       Inl e \<Rightarrow> ret (case IgnoreNotFound L e of None \<Rightarrow> Inr noRequeue | Some e \<Rightarrow> Inl e)
     | Inr usw \<Rightarrow>
        if \<not> isZeroPtr (DeletionTimestamp usw) then ret (Inr noRequeue)
        else case LabelSelectorAsSelector L (ConfigSelector (usw_Spec usw)) of
          Inl e \<Rightarrow> ret (Inl (Errorf ''failed to parse config selector'' e))
        | Inr cSel \<Rightarrow> do {
           configs \<leftarrow> call (ListMatchingConfigs cSel) (usw_listConfigs r cSel);
           case configs of
             Inl e \<Rightarrow> ret (Inl (Errorf ''failed to list matching UpgradeConfigs'' e))
           | Inr configs \<Rightarrow> (case LabelSelectorAsSelector L (JobSelector (usw_Spec usw)) of
               Inl e \<Rightarrow> ret (Inl (Errorf ''failed to parse job selector'' e))
             | Inr jSel \<Rightarrow> do {
                jobs \<leftarrow> call (ListMatchingJobs jSel) (usw_listJobs r jSel);
                case jobs of
                  Inl e \<Rightarrow> ret (Inl (Errorf ''failed to list matching UpgradeJobs'' e))
                | Inr jobs \<Rightarrow> do {
                   let usw = usw\<lparr>MatchingConfigs := SortNames L strCompare (map Name configs)\<rparr>;
                   let usw = usw\<lparr>MatchingJobs := SortNames L strCompare (jobNamesIn usw jobs)\<rparr>;
                   res \<leftarrow> call (StatusUpdateWindow usw) (usw_statusUpdate r usw);
                   ret (case res of
                     Inl e \<Rightarrow> Inl (Errorf ''failed to update status'' e)
                   | Inr _ \<Rightarrow> Inr noRequeue)
                }
             })
        }
   }"

section \<open>What the status lists\<close>

lemma jobNamesIn_filter:
  "jobNamesIn usw jobs = map Name (filter (\<lambda>job. Start (usw_Spec usw) \<le> StartAfter (uj_Spec job)
     \<and> StartAfter (uj_Spec job) \<le> End (usw_Spec usw)) jobs)"
  by (induction jobs) (auto simp: not_less)

lemma weak_order_strCompare: "weak_order strCompare"
  by (rule weak_order_key [of _ id]) (auto simp: strCompare_def)

text \<open>What the status of a window is set to, given the objects the API lists for its selectors.\<close>

definition windowStatus :: "UpgradeSuspensionWindow \<Rightarrow> UpgradeConfig list \<Rightarrow> UpgradeJob list \<Rightarrow> UpgradeSuspensionWindow \<Rightarrow> bool" where
  "windowStatus usw configs jobs sent \<longleftrightarrow> (\<exists>cs js. sent = usw\<lparr>MatchingConfigs := cs, MatchingJobs := js\<rparr>
     \<and> sorted cs \<and> mset cs = image_mset Name (mset configs)
     \<and> sorted js \<and> mset js = image_mset Name {#j \<in># mset jobs. Start (usw_Spec usw) \<le> StartAfter (uj_Spec j)
          \<and> StartAfter (uj_Spec j) \<le> End (usw_Spec usw)#})"

definition windowProtocol :: "'z lib_scheme \<Rightarrow> NamespacedName \<Rightarrow> uswCall list \<Rightarrow> uswCall \<Rightarrow> bool" where
  "windowProtocol L req h e \<longleftrightarrow> (case e of
     StatusUpdateWindow sent _ \<Rightarrow> (\<exists>usw cSel jSel configs jobs. GetWindow req (Inr usw) \<in> set h
       \<and> isZeroPtr (DeletionTimestamp usw)
       \<and> LabelSelectorAsSelector L (ConfigSelector (usw_Spec usw)) = Inr cSel
       \<and> ListMatchingConfigs cSel (Inr configs) \<in> set h
       \<and> LabelSelectorAsSelector L (JobSelector (usw_Spec usw)) = Inr jSel
       \<and> ListMatchingJobs jSel (Inr jobs) \<in> set h
       \<and> windowStatus usw configs jobs sent)
   | _ \<Rightarrow> True)"

lemma windowStatus_sent:
  assumes "sort_func (SortNames L)" and same: "usw_Spec usw2 = usw_Spec usw"
  shows "windowStatus usw configs jobs (usw\<lparr>MatchingConfigs := SortNames L strCompare (map Name configs),
    MatchingJobs := SortNames L strCompare (jobNamesIn usw2 jobs)\<rparr>)"
proof -
  have sorted: "sorted (SortNames L strCompare xs)" and perm: "mset (SortNames L strCompare xs) = mset xs" for xs
    using sort_func.sorted_sort [OF assms(1) weak_order_strCompare, of xs] sort_func.mset_sort [OF assms(1), of strCompare xs]
    by (simp_all add: strCompare_le_0)
  show ?thesis unfolding windowStatus_def jobNamesIn_filter same
    by (intro exI conjI refl) (rule sorted | simp only: perm mset_map mset_filter)+
qed

lemma ReconcileWindow_follows:
  assumes "sort_func (SortNames L)"
  shows "follows (windowProtocol L req) [] (ReconcileWindow L r req) (\<lambda>_ _. True)"
  unfolding ReconcileWindow_def Let_def
proof (intro emits_rules TrueI, goal_cases)
  case (4 got usw cSel cl configs jSel jl jobs res)
  let ?usw = "usw\<lparr>MatchingConfigs := SortNames L strCompare (map Name configs)\<rparr>"
  have "windowStatus usw configs jobs (?usw\<lparr>MatchingJobs := SortNames L strCompare (jobNamesIn ?usw jobs)\<rparr>)"
    using windowStatus_sent [OF assms, of ?usw usw configs jobs] by simp
  with 4 show ?case unfolding windowProtocol_def uswCall.case
    by (intro exI [of _ usw] exI [of _ cSel] exI [of _ jSel] exI [of _ configs] exI [of _ jobs]) simp
qed (auto simp: windowProtocol_def)

text \<open>The window suspends the listed jobs: a listed job is one the window covers at its start time.\<close>

lemma windowStatus_covers:
  assumes "windowStatus usw configs jobs sent" and "LabelSelectorAsSelector L (JobSelector (usw_Spec usw)) = Inr jSel"
    and "\<forall>j \<in> set jobs. Matches jSel (Labels j)"
  shows "set (MatchingJobs sent) = Name ` {j \<in> set jobs. windowCovers L JobSelector (Labels j) (StartAfter (uj_Spec j)) usw}"
proof -
  from assms(1) obtain js where js: "MatchingJobs sent = js" and perm: "mset js = image_mset Name {#j \<in># mset jobs.
      Start (usw_Spec usw) \<le> StartAfter (uj_Spec j) \<and> StartAfter (uj_Spec j) \<le> End (usw_Spec usw)#}"
    unfolding windowStatus_def by auto
  from arg_cong [where f = set_mset, OF perm] js
  have "set (MatchingJobs sent) = Name ` {j \<in> set jobs. Start (usw_Spec usw) \<le> StartAfter (uj_Spec j)
      \<and> StartAfter (uj_Spec j) \<le> End (usw_Spec usw)}"
    by simp
  also have "\<dots> = Name ` {j \<in> set jobs. windowCovers L JobSelector (Labels j) (StartAfter (uj_Spec j)) usw}"
    using assms(2,3) by (intro arg_cong [where f = "image Name"]) (auto simp: windowCovers_def)
  finally show ?thesis .
qed

end
