(* ===== verification/ClusterVersion_Controller.thy ===== *)
theory ClusterVersion_Controller
  imports ClusterVersion_Pkg
begin

text \<open>
  \<^verbatim>\<open>controllers/clusterversion_controller.go\<close>: the spec of the upstream cluster version follows the template of the
  managed one, with the overlay that applies at the time; the desired update is left alone.
\<close>

datatype cvCall =
    ReadTime time
  | GetManagedVersion NamespacedName "error + ManagedClusterVersion"
  | GetUpstreamVersion string "error + ClusterVersion"
  | StatusUpdateManagedVersion ManagedClusterVersion "error + ManagedClusterVersion"
  | UpdateUpstreamVersion ClusterVersion "error + ClusterVersion"

record 's ClusterVersionReconciler =
  cv_now :: "'s \<Rightarrow> time \<times> 's"
  cv_getManaged :: "NamespacedName \<Rightarrow> 's \<Rightarrow> (error + ManagedClusterVersion) \<times> 's"
  cv_getUpstream :: "string \<Rightarrow> 's \<Rightarrow> (error + ClusterVersion) \<times> 's"
  cv_statusUpdate :: "ManagedClusterVersion \<Rightarrow> 's \<Rightarrow> (error + ManagedClusterVersion) \<times> 's"
  cv_updateUpstream :: "ClusterVersion \<Rightarrow> 's \<Rightarrow> (error + ClusterVersion) \<times> 's"
  cv_ManagedUpstreamClusterVersionName :: string
  cv_ManagedClusterVersionName :: string
  cv_ManagedClusterVersionNamespace :: string

type_synonym ('s, 'a) cv_io = "('s, cvCall, 'a) io"

text \<open>\<^verbatim>\<open>mergo.Merge(dst, src, mergo.WithOverride)\<close> of two templates, which is not part of the repository.\<close>

type_synonym merge = "ClusterVersionSpec \<Rightarrow> ClusterVersionSpec \<Rightarrow> error + ClusterVersionSpec"

section \<open>Overlays\<close>

definition compareFrom :: "ClusterVersionOverlayConfig \<Rightarrow> ClusterVersionOverlayConfig \<Rightarrow> int" where
  "compareFrom a b = (if ov_From a = ov_From b then 0 else if ov_From a < ov_From b then -1 else 1)"

definition sortOverlaysByFrom ::
  "'z lib_scheme \<Rightarrow> ClusterVersionOverlayConfig list \<Rightarrow> ClusterVersionOverlayConfig list"
where
  "sortOverlaysByFrom L os = SortOverlays L compareFrom os"

fun firstApplicable :: "time \<Rightarrow> ClusterVersionOverlayConfig list \<Rightarrow> ClusterVersionOverlayConfig option" where
  "firstApplicable now [] = None"
| "firstApplicable now (overlay # os) =
     (if now < ov_From overlay then firstApplicable now os else Some overlay)"

text \<open>The last statement of the code returns \<^verbatim>\<open>*b\<close> and the call that merges into \<^verbatim>\<open>b\<close> in one list; the
  compiler reads \<^verbatim>\<open>*b\<close> after the call, so the merged template is returned.\<close>

definition applyOverlay ::
  "'z lib_scheme \<Rightarrow> merge \<Rightarrow> ClusterVersionSpec \<Rightarrow> ClusterVersionOverlayConfig list \<Rightarrow> time
     \<Rightarrow> error + (ClusterVersionOverlayConfig option \<times> ClusterVersionSpec)"
where
  "applyOverlay L M base overlays now =
     (case firstApplicable now (rev (sortOverlaysByFrom L overlays)) of
        None \<Rightarrow> Inr (None, base)
      | Some ov \<Rightarrow> (case M base (ov_Spec ov) of
          Inl e \<Rightarrow> Inl e
        | Inr merged \<Rightarrow> Inr (Some ov, merged)))"

fun firstFuture :: "time \<Rightarrow> ClusterVersionOverlayConfig list \<Rightarrow> Result" where
  "firstFuture now [] = noRequeue"
| "firstFuture now (overlay # os) =
     (if ov_From overlay < now \<or> ov_From overlay = now then firstFuture now os
      else \<lparr>Requeue = True, RequeueAfter = timeSub (ov_From overlay) now\<rparr>)"

definition nextRequeue :: "'z lib_scheme \<Rightarrow> ManagedClusterVersion \<Rightarrow> time \<Rightarrow> Result" where
  "nextRequeue L version now = firstFuture now (sortOverlaysByFrom L (mcv_Overlays version))"

section \<open>updateStatus\<close>

fun previews ::
  "merge \<Rightarrow> ClusterVersionSpec \<Rightarrow> ClusterVersionOverlayConfig list \<Rightarrow> ClusterVersionStatusOverlays list
     \<Rightarrow> error + ClusterVersionStatusOverlays list"
where
  "previews M base [] acc = Inr acc"
| "previews M base (overlay # os) acc = (case M base (ov_Spec overlay) of
     Inl e \<Rightarrow> Inl (Errorf ''failed to apply overlay for status'' e)
   | Inr b \<Rightarrow> previews M base os (acc @ [\<lparr>so_From = ov_From overlay, so_Preview = b\<rparr>]))"

text \<open>The list of overlays of a status is an option, because \<^verbatim>\<open>reflect.DeepEqual\<close> tells a nil slice from an
  empty one.\<close>

definition updateStatus ::
  "merge \<Rightarrow> 's ClusterVersionReconciler \<Rightarrow> ClusterVersionOverlayConfig option \<Rightarrow> ClusterVersionSpec
     \<Rightarrow> ManagedClusterVersion \<Rightarrow> ('s, error + ManagedClusterVersion) cv_io"
where
  "updateStatus M r usedOverlay current version =
     (case previews M (mcv_Template version) (mcv_Overlays version) [] of
        Inl e \<Rightarrow> ret (Inl e)
      | Inr os \<Rightarrow>
         (let stat = \<lparr>cvs_Current = current, cvs_Overlays = Some os,
                cvs_OverlayApplied = (case usedOverlay of None \<Rightarrow> zeroTime | Some ov \<Rightarrow> ov_From ov)\<rparr>
          in if mcv_Status version \<noteq> stat then do {
               let version = version\<lparr>mcv_Status := stat\<rparr>;
               res \<leftarrow> call (StatusUpdateManagedVersion version) (cv_statusUpdate r version);
               ret (case res of
                 Inl e \<Rightarrow> Inl (Errorf ''failed to update status'' e)
               | Inr version \<Rightarrow> Inr version)
             }
             else ret (Inr version)))"

section \<open>Reconcile\<close>

text \<open>From the overlaid spec on (lines 75--89).\<close>

definition updateUpstream ::
  "'z lib_scheme \<Rightarrow> 's ClusterVersionReconciler \<Rightarrow> ManagedClusterVersion \<Rightarrow> ClusterVersion \<Rightarrow> ClusterVersionSpec
     \<Rightarrow> time \<Rightarrow> ('s, error + Result) cv_io"
where
  "updateUpstream L r version upstreamVersion overlaidSpec now =
     (if SpecEqualIgnoringDesiredUpdate overlaidSpec (cv_Spec upstreamVersion)
      then ret (Inr (nextRequeue L version now))
      else do {
        let du = DesiredUpdate (cv_Spec upstreamVersion);
        let upstreamVersion = upstreamVersion\<lparr>cv_Spec := overlaidSpec\<lparr>DesiredUpdate := du\<rparr>\<rparr>;
        res \<leftarrow> call (UpdateUpstreamVersion upstreamVersion) (cv_updateUpstream r upstreamVersion);
        ret (case res of
          Inl e \<Rightarrow> Inl (Errorf ''failed to update cluster version'' e)
        | Inr _ \<Rightarrow> Inr (nextRequeue L version now))
      })"

definition ReconcileVersion ::
  "'z lib_scheme \<Rightarrow> merge \<Rightarrow> 's ClusterVersionReconciler \<Rightarrow> ('s, error + Result) cv_io"
where
  "ReconcileVersion L M r = do {
     now \<leftarrow> call ReadTime (cv_now r);
     let nn = \<lparr>nn_Namespace = cv_ManagedClusterVersionNamespace r, nn_Name = cv_ManagedClusterVersionName r\<rparr>;
     got \<leftarrow> call (GetManagedVersion nn) (cv_getManaged r nn);
     case got of
       Inl e \<Rightarrow> ret (case IgnoreNotFound L e of None \<Rightarrow> Inr noRequeue | Some e \<Rightarrow> Inl e)
     | Inr version \<Rightarrow>
        if \<not> isZeroPtr (DeletionTimestamp version) then ret (Inr noRequeue)
        else do {
          got \<leftarrow> call (GetUpstreamVersion (cv_ManagedUpstreamClusterVersionName r))
            (cv_getUpstream r (cv_ManagedUpstreamClusterVersionName r));
          case got of
            Inl e \<Rightarrow> ret (Inl (Errorf ''failed to get upstream cluster version'' e))
          | Inr upstreamVersion \<Rightarrow>
             (case applyOverlay L M (mcv_Template version) (mcv_Overlays version) now of
                Inl e \<Rightarrow> ret (Inl (Errorf ''failed to apply overlay'' e))
              | Inr (usedOverlay, overlaidSpec) \<Rightarrow> do {
                  res \<leftarrow> updateStatus M r usedOverlay overlaidSpec version;
                  case res of
                    Inl e \<Rightarrow> ret (Inl (Errorf ''failed to update status'' e))
                  | Inr version \<Rightarrow> updateUpstream L r version upstreamVersion overlaidSpec now
                })
        }
   }"

text \<open>The objects whose events the controller looks at.\<close>

datatype watched =
    WatchedManaged ManagedClusterVersion
  | WatchedUpstream ClusterVersion
  | WatchedOther ObjectMeta

definition Filter :: "'s ClusterVersionReconciler \<Rightarrow> watched \<Rightarrow> bool" where
  "Filter r obj = (case obj of
     WatchedManaged v \<Rightarrow> cv_ManagedClusterVersionName r = Name v \<and> cv_ManagedClusterVersionNamespace r = Namespace v
   | WatchedUpstream v \<Rightarrow> cv_ManagedUpstreamClusterVersionName r = Name v
   | WatchedOther _ \<Rightarrow> False)"

section \<open>Which overlay\<close>

lemma weak_order_compareFrom: "weak_order compareFrom"
  by (rule weak_order_key [of _ ov_From]) (auto simp: compareFrom_def)

lemma compareFrom_le: "compareFrom a b \<le> 0 \<longleftrightarrow> ov_From a \<le> ov_From b"
  by (auto simp: compareFrom_def)

locale overlay_sort =
  fixes L :: "'z lib_scheme"
  assumes sorts: "sort_func (SortOverlays L)"
begin

lemma sorted_overlays: "sorted_wrt (\<lambda>a b. ov_From a \<le> ov_From b) (sortOverlaysByFrom L os)"
  using sort_func.sorted_sort [OF sorts weak_order_compareFrom]
  by (simp add: sortOverlaysByFrom_def compareFrom_le)

lemma set_overlays [simp]: "set (sortOverlaysByFrom L os) = set os"
  by (simp add: sortOverlaysByFrom_def sort_func.set_sort [OF sorts])

end

interpretation refLib_overlays: overlay_sort refLib
  by (rule overlay_sort.intro) (use sortBy.sort_func_axioms in \<open>simp add: refLib_def\<close>)

lemma firstApplicable_None: "firstApplicable now os = None \<longleftrightarrow> (\<forall>ov \<in> set os. now < ov_From ov)"
  by (induction os) auto

lemma firstApplicable_latest:
  assumes "sorted_wrt (\<lambda>a b. ov_From b \<le> ov_From a) os" and "firstApplicable now os = Some ov"
  shows "ov \<in> set os \<and> ov_From ov \<le> now \<and> (\<forall>o2 \<in> set os. ov_From o2 \<le> now \<longrightarrow> ov_From o2 \<le> ov_From ov)"
  using assms by (induction os) (auto split: if_splits)

lemma firstFuture_sorted:
  assumes "sorted_wrt (\<lambda>a b. ov_From a \<le> ov_From b) os"
  shows "firstFuture now os = (if \<exists>ov \<in> set os. now < ov_From ov
    then \<lparr>Requeue = True, RequeueAfter = timeSub (Min {ov_From ov | ov. ov \<in> set os \<and> now < ov_From ov}) now\<rparr>
    else noRequeue)"
  using assms
proof (induction os)
  case (Cons ov os)
  show ?case
  proof (cases "now < ov_From ov")
    case True
    have "Min {ov_From v | v. v \<in> set (ov # os) \<and> now < ov_From v} = ov_From ov"
    proof (rule Min_eqI)
      show "finite {ov_From v | v. v \<in> set (ov # os) \<and> now < ov_From v}"
        by (rule finite_subset [of _ "ov_From ` set (ov # os)"]) auto
    qed (use Cons.prems True in auto)
    with True show ?thesis by auto
  next
    case False
    then have "{ov_From v | v. v \<in> set (ov # os) \<and> now < ov_From v} = {ov_From v | v. v \<in> set os \<and> now < ov_From v}"
      by auto
    with False Cons show ?thesis by (auto simp: not_less le_less)
  qed
qed simp

context overlay_sort
begin

lemma applyOverlay_None:
  "firstApplicable now (rev (sortOverlaysByFrom L os)) = None \<longleftrightarrow> (\<forall>ov \<in> set os. now < ov_From ov)"
  by (simp add: firstApplicable_None)

lemma applyOverlay_latest:
  "firstApplicable now (rev (sortOverlaysByFrom L os)) = Some ov \<Longrightarrow>
     ov \<in> set os \<and> ov_From ov \<le> now \<and> (\<forall>o2 \<in> set os. ov_From o2 \<le> now \<longrightarrow> ov_From o2 \<le> ov_From ov)"
  using firstApplicable_latest [of "rev (sortOverlaysByFrom L os)" now ov] sorted_overlays
  by (simp add: sorted_wrt_rev)

lemma nextRequeue_earliest:
  "nextRequeue L version now = (let later = {ov_From ov | ov. ov \<in> set (mcv_Overlays version) \<and> now < ov_From ov} in
     if later = {} then noRequeue else \<lparr>Requeue = True, RequeueAfter = timeSub (Min later) now\<rparr>)"
  using firstFuture_sorted [OF sorted_overlays, of now "mcv_Overlays version"]
  by (auto simp: nextRequeue_def Let_def)

end

section \<open>The protocol\<close>

text \<open>The upstream version is only written with the spec that the template and the overlays give for the
  time, and with its own desired update; everything else of it stays as it was read, its lock
  annotation included.\<close>

definition versionProtocol ::
  "'z lib_scheme \<Rightarrow> merge \<Rightarrow> 's ClusterVersionReconciler \<Rightarrow> cvCall list \<Rightarrow> cvCall \<Rightarrow> bool"
where
  "versionProtocol L M r h e \<longleftrightarrow> (case e of
     UpdateUpstreamVersion sent _ \<Rightarrow> (\<exists>now nn version upstream used overlaid.
       ReadTime now \<in> set h \<and> GetManagedVersion nn (Inr version) \<in> set h \<and> isZeroPtr (DeletionTimestamp version)
       \<and> GetUpstreamVersion (cv_ManagedUpstreamClusterVersionName r) (Inr upstream) \<in> set h
       \<and> applyOverlay L M (mcv_Template version) (mcv_Overlays version) now = Inr (used, overlaid)
       \<and> \<not> SpecEqualIgnoringDesiredUpdate overlaid (cv_Spec upstream)
       \<and> sent = upstream\<lparr>cv_Spec := overlaid\<lparr>DesiredUpdate := DesiredUpdate (cv_Spec upstream)\<rparr>\<rparr>)
   | StatusUpdateManagedVersion sent _ \<Rightarrow> (\<exists>nn version st. GetManagedVersion nn (Inr version) \<in> set h
       \<and> sent = version\<lparr>mcv_Status := st\<rparr> \<and> st \<noteq> mcv_Status version)
   | _ \<Rightarrow> True)"

lemma statusSent:
  "GetManagedVersion nn (Inr version) \<in> set h \<Longrightarrow> mcv_Status version \<noteq> st \<Longrightarrow>
    versionProtocol L M r h (StatusUpdateManagedVersion (version\<lparr>mcv_Status := st\<rparr>) res)"
  unfolding versionProtocol_def cvCall.case by metis

lemma updateStatus_follows:
  assumes "GetManagedVersion nn (Inr version) \<in> set h"
  shows "follows (versionProtocol L M r) h (updateStatus M r2 used current version) (\<lambda>_ _. True)"
  unfolding updateStatus_def Let_def
  by (intro emits_rules TrueI) (auto intro: statusSent [OF assms])

lemma updateUpstream_follows:
  assumes "ReadTime now \<in> set h" "GetManagedVersion nn (Inr version) \<in> set h" "isZeroPtr (DeletionTimestamp version)"
    "GetUpstreamVersion (cv_ManagedUpstreamClusterVersionName r) (Inr upstream) \<in> set h"
    "applyOverlay L M (mcv_Template version) (mcv_Overlays version) now = Inr (used, overlaid)"
  shows "follows (versionProtocol L M r) h (updateUpstream L r version2 upstream overlaid now) (\<lambda>_ _. True)"
proof -
  have "versionProtocol L M r h (UpdateUpstreamVersion
      (upstream\<lparr>cv_Spec := overlaid\<lparr>DesiredUpdate := DesiredUpdate (cv_Spec upstream)\<rparr>\<rparr>) res)"
    if "\<not> SpecEqualIgnoringDesiredUpdate overlaid (cv_Spec upstream)" for res
    unfolding versionProtocol_def cvCall.case using assms that by blast
  then show ?thesis unfolding updateUpstream_def Let_def by (intro emits_rules TrueI) auto
qed

lemma ReconcileVersion_follows: "follows (versionProtocol L M r) [] (ReconcileVersion L M r) (\<lambda>_ _. True)"
  unfolding ReconcileVersion_def Let_def
proof (intro follows_bind_call follows_case_sum follows_if follows_ret follows_case_prod TrueI, goal_cases)
  case (4 now got version got2 upstream x used overlaid)
  let ?nn = "\<lparr>nn_Namespace = cv_ManagedClusterVersionNamespace r, nn_Name = cv_ManagedClusterVersionName r\<rparr>"
  let ?h = "(([] @ [ReadTime now]) @ [GetManagedVersion ?nn got]) @ [GetUpstreamVersion (cv_ManagedUpstreamClusterVersionName r) got2]"
  have get: "GetManagedVersion ?nn (Inr version) \<in> set ?h" using 4 by simp
  show ?case
  proof (rule follows_bind [OF updateStatus_follows [OF get]], intro follows_case_sum follows_ret TrueI, goal_cases)
    case (1 res es version2)
    show ?case
      by (rule updateUpstream_follows [of now _ ?nn version r upstream]) (use 4 in auto)
  qed
qed (auto simp: versionProtocol_def)

section \<open>Settling\<close>

text \<open>The written spec is the one the controller wants, so once the write is accepted the next run writes
  nothing.\<close>

lemma written_spec_equal:
  "SpecEqualIgnoringDesiredUpdate overlaid (overlaid\<lparr>DesiredUpdate := du\<rparr>)"
  by (simp add: SpecEqualIgnoringDesiredUpdate_def)

lemma updateUpstream_settled:
  assumes "SpecEqualIgnoringDesiredUpdate overlaid (cv_Spec upstream)"
  shows "updateUpstream L r version upstream overlaid now = ret (Inr (nextRequeue L version now))"
  by (simp add: updateUpstream_def assms)

end
