(* ===== verification/ForceDrain_Controller.thy ===== *)
theory ForceDrain_Controller
  imports Libraries
begin

text \<open>
  \<^verbatim>\<open>controllers/node_force_drain_controller.go\<close>: pods that keep a node from draining are deleted after a grace period, and
  killed after another one. Durations are 64 bit, and their additions wrap around.
\<close>

section \<open>The reconciler\<close>

datatype nfdCall =
    GetForceDrain NamespacedName "error + NodeForceDrain"
  | ListForceDrains "error + NodeForceDrain list"
  | StatusUpdateForceDrain NodeForceDrain "error + NodeForceDrain"
  | ListNodes Selector "error + Node list"
  | ListPodsOnNode string "error + Pod list"
  | GetNamespace string "error + ObjectMeta"
  | GetDaemonSet NamespacedName "error + ObjectMeta"
  | DeletePod Pod "int option" "error option"
  | RecordNodeEvent string string string
  | CountPodDeletion "string list"
  | CountPodTermination "string list"
  | ClockNow time

record 's NodeForceDrainReconciler =
  fd_get :: "NamespacedName \<Rightarrow> 's \<Rightarrow> (error + NodeForceDrain) \<times> 's"
  fd_list :: "'s \<Rightarrow> (error + NodeForceDrain list) \<times> 's"
  fd_statusUpdate :: "NodeForceDrain \<Rightarrow> 's \<Rightarrow> (error + NodeForceDrain) \<times> 's"
  fd_listNodes :: "Selector \<Rightarrow> 's \<Rightarrow> (error + Node list) \<times> 's"
  fd_listPods :: "string \<Rightarrow> 's \<Rightarrow> (error + Pod list) \<times> 's"
  fd_getNamespace :: "string \<Rightarrow> 's \<Rightarrow> (error + ObjectMeta) \<times> 's"
  fd_getDaemonSet :: "NamespacedName \<Rightarrow> 's \<Rightarrow> (error + ObjectMeta) \<times> 's"
  fd_deletePod :: "Pod \<Rightarrow> int option \<Rightarrow> 's \<Rightarrow> error option \<times> 's"
  fd_event :: "string \<Rightarrow> string \<Rightarrow> string \<Rightarrow> 's \<Rightarrow> unit \<times> 's"
  fd_count :: "string list \<Rightarrow> 's \<Rightarrow> unit \<times> 's"
  fd_now :: "'s \<Rightarrow> time \<times> 's"
  MaxReconcileIntervalDuringActiveDrain :: duration

type_synonym ('s, 'a) fd_io = "('s, nfdCall, 'a) io"

text \<open>The \<^verbatim>\<open>gojq\<close> package and the JSON encoding of a pod, which are not part of the repository. A query run on
  a value yields a stream of values; the context of the run ends after five seconds, which makes the
  stream yield an error, so the stream is finite.\<close>

datatype jqValue = JqBool bool | JqValue json | JqError error

record jq_lib =
  JqParse :: "string \<Rightarrow> error + (json \<Rightarrow> jqValue list)"
  MarshalPod :: "Pod \<Rightarrow> error + string"
  UnmarshalAny :: "string \<Rightarrow> error + json"

abbreviation DesiredDrainerAnnotationKey :: string where
  "DesiredDrainerAnnotationKey \<equiv> ''machineconfiguration.openshift.io/desiredDrain''"
abbreviation LastAppliedDrainerAnnotationKey :: string where
  "LastAppliedDrainerAnnotationKey \<equiv> ''machineconfiguration.openshift.io/lastAppliedDrain''"

section \<open>Observed drains\<close>

fun findObserved :: "ObservedNodeDrain list \<Rightarrow> string \<Rightarrow> ObservedNodeDrain option" where
  "findObserved [] nodeName = None"
| "findObserved (ob # os) nodeName = (if NodeName ob = nodeName then Some ob else findObserved os nodeName)"

definition findLastObservedNodeDrain :: "NodeForceDrain \<Rightarrow> string \<Rightarrow> ObservedNodeDrain option" where
  "findLastObservedNodeDrain fd nodeName = findObserved (LastObservedNodeDrain fd) nodeName"

text \<open>\<^verbatim>\<open>slices.IndexFunc\<close>, with \<open>None\<close> for a negative index.\<close>

fun indexFunc :: "('a \<Rightarrow> bool) \<Rightarrow> 'a list \<Rightarrow> nat option" where
  "indexFunc P [] = None"
| "indexFunc P (x # xs) = (if P x then Some 0 else map_option Suc (indexFunc P xs))"

definition setLastObservedNodeDrain ::
  "'s NodeForceDrainReconciler \<Rightarrow> NodeForceDrain \<Rightarrow> string \<Rightarrow> string \<Rightarrow> ('s, NodeForceDrain \<times> bool) fd_io"
where
  "setLastObservedNodeDrain r fd nodeName drainID =
     (case indexFunc (\<lambda>ob. NodeName ob = nodeName) (LastObservedNodeDrain fd) of
        None \<Rightarrow> do {
          now \<leftarrow> call ClockNow (fd_now r);
          ret (fd\<lparr>LastObservedNodeDrain := LastObservedNodeDrain fd
                 @ [\<lparr>NodeName = nodeName, LastAppliedDrain = drainID, ObservedTime = now\<rparr>]\<rparr>, True)
        }
      | Some i \<Rightarrow>
         if LastAppliedDrain (LastObservedNodeDrain fd ! i) = drainID then ret (fd, False)
         else do {
           now \<leftarrow> call ClockNow (fd_now r);
           ret (fd\<lparr>LastObservedNodeDrain := (LastObservedNodeDrain fd)
                  [i := (LastObservedNodeDrain fd ! i)\<lparr>LastAppliedDrain := drainID, ObservedTime := now\<rparr>]\<rparr>, True)
         })"

section \<open>Which pods may be deleted\<close>

definition podIsInMatchingNamespace ::
  "'s NodeForceDrainReconciler \<Rightarrow> Pod \<Rightarrow> Selector \<Rightarrow> ('s, error + bool) fd_io"
where
  "podIsInMatchingNamespace r pod podNSSelector =
     (if Empty podNSSelector then ret (Inr True)
      else do {
        ns \<leftarrow> call (GetNamespace (Namespace pod)) (fd_getNamespace r (Namespace pod));
        ret (case ns of
          Inl e \<Rightarrow> Inl (Errorf (''failed to get namespace for pod '' @ Name pod) e)
        | Inr ns \<Rightarrow> Inr (Matches podNSSelector (Labels ns)))
      })"

text \<open>The loop over the stream of a query: it ends at the end of the stream and at an error, a halt
  included; a value that is no boolean is passed over.\<close>

fun jqLoop :: "bool \<Rightarrow> jqValue list \<Rightarrow> bool" where
  "jqLoop matches [] = matches"
| "jqLoop matches (JqError e # vs) = matches"
| "jqLoop matches (JqBool vb # vs) = jqLoop (matches \<or> vb) vs"
| "jqLoop matches (JqValue v # vs) = jqLoop matches vs"

definition podJQQueryMatches :: "'j jq_lib_scheme \<Rightarrow> Pod \<Rightarrow> (json \<Rightarrow> jqValue list) \<Rightarrow> error + bool" where
  "podJQQueryMatches J pod podJQQuery = (case MarshalPod J pod of
     Inl e \<Rightarrow> Inl (Errorf ''failed to convert pod to raw JSON (marshal)'' e)
   | Inr podBytes \<Rightarrow> (case UnmarshalAny J podBytes of
       Inl e \<Rightarrow> Inl (Errorf ''failed to convert pod to raw JSON (unmarshal)'' e)
     | Inr rawPod \<Rightarrow> Inr (jqLoop False (podJQQuery rawPod))))"

definition podIsStatic :: "'z lib_scheme \<Rightarrow> Pod \<Rightarrow> bool" where
  "podIsStatic L pod = (case GetControllerOf L (OwnerReferences pod) of
     None \<Rightarrow> False
   | Some controllerRef \<Rightarrow> or_APIVersion controllerRef = ''v1'' \<and> or_Kind controllerRef = ''Node'')"

definition podIsControlledByExistingDaemonSet ::
  "'z lib_scheme \<Rightarrow> 's NodeForceDrainReconciler \<Rightarrow> Pod \<Rightarrow> ('s, error + bool) fd_io"
where
  "podIsControlledByExistingDaemonSet L r pod = (case GetControllerOf L (OwnerReferences pod) of
     None \<Rightarrow> ret (Inr False)
   | Some controllerRef \<Rightarrow>
      if or_APIVersion controllerRef \<noteq> ''apps/v1'' \<or> or_Kind controllerRef \<noteq> ''DaemonSet'' then ret (Inr False)
      else do {
        let key = \<lparr>nn_Namespace = Namespace pod, nn_Name = or_Name controllerRef\<rparr>;
        ds \<leftarrow> call (GetDaemonSet key) (fd_getDaemonSet r key);
        ret (case ds of
          Inl e \<Rightarrow> if IsNotFound L e then Inr False
                  else Inl (Errorf (''failed to get DaemonSet '' @ or_Name controllerRef) e)
        | Inr _ \<Rightarrow> Inr True)
      })"

text \<open>Whether the loop keeps a pod (lines 371--434).\<close>

definition podIsCandidate ::
  "'z lib_scheme \<Rightarrow> 'j jq_lib_scheme \<Rightarrow> 's NodeForceDrainReconciler \<Rightarrow> Selector \<Rightarrow> (json \<Rightarrow> jqValue list) option
     \<Rightarrow> Pod \<Rightarrow> ('s, bool) fd_io"
where
  "podIsCandidate L J r podNSSelector podJQQuery pod = do {
     inMatchingNs \<leftarrow> podIsInMatchingNamespace r pod podNSSelector;
     if inMatchingNs \<noteq> Inr True then ret False
     else if (case podJQQuery of None \<Rightarrow> False | Some q \<Rightarrow> podJQQueryMatches J pod q \<noteq> Inr True) then ret False
     else do {
       controlledByActiveDaemonSet \<leftarrow> podIsControlledByExistingDaemonSet L r pod;
       ret (controlledByActiveDaemonSet = Inr False \<and> \<not> podIsStatic L pod)
     }
   }"

fun filterPods ::
  "'z lib_scheme \<Rightarrow> 'j jq_lib_scheme \<Rightarrow> 's NodeForceDrainReconciler \<Rightarrow> Selector \<Rightarrow> (json \<Rightarrow> jqValue list) option
     \<Rightarrow> Pod list \<Rightarrow> Pod list \<Rightarrow> ('s, Pod list) fd_io"
where
  "filterPods L J r podNSSelector podJQQuery [] filteredPods = ret filteredPods"
| "filterPods L J r podNSSelector podJQQuery (pod # pods) filteredPods = do {
     keep \<leftarrow> podIsCandidate L J r podNSSelector podJQQuery pod;
     filterPods L J r podNSSelector podJQQuery pods (if keep then filteredPods @ [pod] else filteredPods)
   }"

definition getDeletionCandidatePodsForNode ::
  "'z lib_scheme \<Rightarrow> 'j jq_lib_scheme \<Rightarrow> 's NodeForceDrainReconciler \<Rightarrow> Node \<Rightarrow> Selector \<Rightarrow> (json \<Rightarrow> jqValue list) option
     \<Rightarrow> ('s, error + Pod list) fd_io"
where
  "getDeletionCandidatePodsForNode L J r node podNSSelector podJQQuery = do {
     pods \<leftarrow> call (ListPodsOnNode (Name node)) (fd_listPods r (Name node));
     case pods of
       Inl e \<Rightarrow> ret (Inl (Errorf (''failed to list pods on node '' @ Name node) e))
     | Inr pods \<Rightarrow> do {
        filteredPods \<leftarrow> filterPods L J r podNSSelector podJQQuery pods [];
        ret (Inr filteredPods)
     }
   }"

section \<open>forceDrainNode\<close>

definition podLabels :: "string \<Rightarrow> Node \<Rightarrow> Pod \<Rightarrow> string list" where
  "podLabels forceDrainName node pod = [forceDrainName, Name node, Namespace pod, Name pod, UID pod]"

fun deletePods ::
  "'s NodeForceDrainReconciler \<Rightarrow> string \<Rightarrow> Node \<Rightarrow> Pod list \<Rightarrow> bool \<Rightarrow> error option list
     \<Rightarrow> ('s, bool \<times> error option list) fd_io"
where
  "deletePods r forceDrainName node [] attemptedDeletion deletionErrs = ret (attemptedDeletion, deletionErrs)"
| "deletePods r forceDrainName node (pod # pods) attemptedDeletion deletionErrs =
     (if DeletionTimestamp pod \<noteq> None then deletePods r forceDrainName node pods attemptedDeletion deletionErrs
      else do {
        let msg = ''Deleting pod '' @ quoted (Name pod) @ '' in namespace '' @ quoted (Namespace pod);
        _ \<leftarrow> call (\<lambda>_. RecordNodeEvent (Name node) ''NodeDrainDeletePod'' msg) (fd_event r (Name node) ''NodeDrainDeletePod'' msg);
        _ \<leftarrow> call (\<lambda>_. CountPodDeletion (podLabels forceDrainName node pod)) (fd_count r (podLabels forceDrainName node pod));
        err \<leftarrow> call (DeletePod pod None) (fd_deletePod r pod None);
        deletePods r forceDrainName node pods True (if err = None then deletionErrs else deletionErrs @ [err])
      })"

definition forceDrainNode ::
  "'z lib_scheme \<Rightarrow> 'j jq_lib_scheme \<Rightarrow> 's NodeForceDrainReconciler \<Rightarrow> string \<Rightarrow> Node \<Rightarrow> Selector
     \<Rightarrow> (json \<Rightarrow> jqValue list) option \<Rightarrow> ('s, bool \<times> error option) fd_io"
where
  "forceDrainNode L J r forceDrainName node podNSSelector podJQQuery = do {
     pods \<leftarrow> getDeletionCandidatePodsForNode L J r node podNSSelector podJQQuery;
     case pods of
       Inl e \<Rightarrow> ret (False, Some (Errorf (''failed to get deletion candidate pods for node '' @ Name node) e))
     | Inr pods \<Rightarrow> do {
        (attemptedDeletion, deletionErrs) \<leftarrow> deletePods r forceDrainName node pods False [];
        ret (attemptedDeletion, Combine L deletionErrs)
     }
   }"

section \<open>forceDeletePodsOnNode\<close>

text \<open>The time left before a pod is killed: its deletion timestamp lies its own grace period in the
  future.\<close>

definition timeUntilForceDelete :: "Pod \<Rightarrow> time \<Rightarrow> duration \<Rightarrow> time \<Rightarrow> duration" where
  "timeUntilForceDelete pod deletionTimestamp gracePeriod now =
     (let podGracePeriod = wrap64 ((case DeletionGracePeriodSeconds pod of None \<Rightarrow> 0 | Some n \<Rightarrow> n) * second)
      in wrap64 (wrap64 (timeSub deletionTimestamp now - podGracePeriod) + gracePeriod))"

text \<open>The smaller of the times until something is due, where zero means that nothing is.\<close>

definition sooner :: "duration \<Rightarrow> duration \<Rightarrow> duration" where
  "sooner t next = (if next = 0 \<or> t < next then t else next)"

fun killPods ::
  "'s NodeForceDrainReconciler \<Rightarrow> string \<Rightarrow> Node \<Rightarrow> duration \<Rightarrow> Pod list \<Rightarrow> duration \<Rightarrow> error option list
     \<Rightarrow> ('s, duration \<times> error option list) fd_io"
where
  "killPods r forceDrainName node gracePeriod [] timeUntilNext deletionErrs = ret (timeUntilNext, deletionErrs)"
| "killPods r forceDrainName node gracePeriod (pod # pods) timeUntilNext deletionErrs =
     (case DeletionTimestamp pod of
        None \<Rightarrow> killPods r forceDrainName node gracePeriod pods timeUntilNext deletionErrs
      | Some deletionTimestamp \<Rightarrow> do {
         now \<leftarrow> call ClockNow (fd_now r);
         let t = timeUntilForceDelete pod deletionTimestamp gracePeriod now;
         if t > 0 then killPods r forceDrainName node gracePeriod pods (sooner t timeUntilNext) deletionErrs
         else do {
           let msg = ''Forcing pod termination: Deleting pod '' @ quoted (Name pod) @ '' in namespace ''
                 @ quoted (Namespace pod) @ '' with grace period of 1.'';
           _ \<leftarrow> call (\<lambda>_. RecordNodeEvent (Name node) ''NodeDrainForcingPodTermination'' msg)
             (fd_event r (Name node) ''NodeDrainForcingPodTermination'' msg);
           _ \<leftarrow> call (\<lambda>_. CountPodTermination (podLabels forceDrainName node pod)) (fd_count r (podLabels forceDrainName node pod));
           err \<leftarrow> call (DeletePod pod (Some 1)) (fd_deletePod r pod (Some 1));
           killPods r forceDrainName node gracePeriod pods timeUntilNext
             (if err = None then deletionErrs else deletionErrs @ [err])
         }
      })"

definition forceDeletePodsOnNode ::
  "'z lib_scheme \<Rightarrow> 'j jq_lib_scheme \<Rightarrow> 's NodeForceDrainReconciler \<Rightarrow> string \<Rightarrow> Node \<Rightarrow> duration \<Rightarrow> Selector
     \<Rightarrow> (json \<Rightarrow> jqValue list) option \<Rightarrow> ('s, duration \<times> error option) fd_io"
where
  "forceDeletePodsOnNode L J r forceDrainName node gracePeriod podNSSelector podJQQuery = do {
     pods \<leftarrow> getDeletionCandidatePodsForNode L J r node podNSSelector podJQQuery;
     case pods of
       Inl e \<Rightarrow> ret (0, Some (Errorf (''failed to get deletion candidate pods for node '' @ Name node) e))
     | Inr pods \<Rightarrow> do {
        (timeUntilNext, deletionErrs) \<leftarrow> killPods r forceDrainName node gracePeriod pods 0 [];
        ret (timeUntilNext, Combine L deletionErrs)
     }
   }"

section \<open>Reconcile\<close>

fun filterDraining :: "Node list \<Rightarrow> Node list" where
  "filterDraining [] = []"
| "filterDraining (node # nodes) =
     (let desiredDrain = annotation node DesiredDrainerAnnotationKey;
          lastAppliedDrain = annotation node LastAppliedDrainerAnnotationKey
      in if desiredDrain = lastAppliedDrain then filterDraining nodes else node # filterDraining nodes)"

text \<open>The loop of lines 151--153: \<^verbatim>\<open>statusChanged || r.setLastObservedNodeDrain(...)\<close> does not call the function once
  the status changed.\<close>

fun observeDrains ::
  "'s NodeForceDrainReconciler \<Rightarrow> Node list \<Rightarrow> NodeForceDrain \<Rightarrow> bool \<Rightarrow> ('s, NodeForceDrain \<times> bool) fd_io"
where
  "observeDrains r [] fd statusChanged = ret (fd, statusChanged)"
| "observeDrains r (node # nodes) fd statusChanged =
     (if statusChanged then observeDrains r nodes fd statusChanged
      else do {
        (fd, changed) \<leftarrow> setLastObservedNodeDrain r fd (Name node) (annotation node LastAppliedDrainerAnnotationKey);
        observeDrains r nodes fd changed
      })"

definition timeUntilDrain :: "ObservedNodeDrain \<Rightarrow> NodeForceDrain \<Rightarrow> time \<Rightarrow> duration" where
  "timeUntilDrain ld fd now = wrap64 (timeSub (ObservedTime ld) now + NodeDrainGracePeriod (nfd_Spec fd))"

fun outOfGracePeriod ::
  "'s NodeForceDrainReconciler \<Rightarrow> NodeForceDrain \<Rightarrow> Node list \<Rightarrow> duration \<Rightarrow> Node list \<Rightarrow> ('s, duration \<times> Node list) fd_io"
where
  "outOfGracePeriod r fd [] timeUntilNextDrain out = ret (timeUntilNextDrain, out)"
| "outOfGracePeriod r fd (node # nodes) timeUntilNextDrain out =
     (case findLastObservedNodeDrain fd (Name node) of
        None \<Rightarrow> outOfGracePeriod r fd nodes timeUntilNextDrain out
      | Some ld \<Rightarrow> do {
         now \<leftarrow> call ClockNow (fd_now r);
         let t = timeUntilDrain ld fd now;
         if t > 0 then outOfGracePeriod r fd nodes (sooner t timeUntilNextDrain) out
         else outOfGracePeriod r fd nodes timeUntilNextDrain (out @ [node])
      })"

fun drainNodes ::
  "'z lib_scheme \<Rightarrow> 'j jq_lib_scheme \<Rightarrow> 's NodeForceDrainReconciler \<Rightarrow> string \<Rightarrow> Selector \<Rightarrow> (json \<Rightarrow> jqValue list) option
     \<Rightarrow> Node list \<Rightarrow> bool \<Rightarrow> error option list \<Rightarrow> ('s, bool \<times> error option list) fd_io"
where
  "drainNodes L J r fdName podNSSelector podJQQuery [] didDeletePod errors = ret (didDeletePod, errors)"
| "drainNodes L J r fdName podNSSelector podJQQuery (node # nodes) didDeletePod errors = do {
     (deleted, err) \<leftarrow> forceDrainNode L J r fdName node podNSSelector podJQQuery;
     drainNodes L J r fdName podNSSelector podJQQuery nodes (didDeletePod \<or> deleted)
       (case err of None \<Rightarrow> errors | Some e \<Rightarrow> errors @ [Some (Errorf (''failed to force drain node '' @ Name node) e)])
   }"

fun killOnNodes ::
  "'z lib_scheme \<Rightarrow> 'j jq_lib_scheme \<Rightarrow> 's NodeForceDrainReconciler \<Rightarrow> string \<Rightarrow> duration \<Rightarrow> Selector
     \<Rightarrow> (json \<Rightarrow> jqValue list) option \<Rightarrow> Node list \<Rightarrow> duration \<Rightarrow> error option list
     \<Rightarrow> ('s, duration \<times> error option list) fd_io"
where
  "killOnNodes L J r fdName pfd podNSSelector podJQQuery [] timeUntilNext errors = ret (timeUntilNext, errors)"
| "killOnNodes L J r fdName pfd podNSSelector podJQQuery (node # nodes) timeUntilNext errors = do {
     (t, err) \<leftarrow> forceDeletePodsOnNode L J r fdName node pfd podNSSelector podJQQuery;
     case err of
       Some e \<Rightarrow> killOnNodes L J r fdName pfd podNSSelector podJQQuery nodes timeUntilNext
         (errors @ [Some (Errorf (''failed to force delete pods on node '' @ Name node) e)])
     | None \<Rightarrow> killOnNodes L J r fdName pfd podNSSelector podJQQuery nodes
         (if t > 0 then sooner t timeUntilNext else timeUntilNext) errors
   }"

text \<open>The time after which to look again (lines 225--235).\<close>

definition requeueTime :: "NodeForceDrain \<Rightarrow> duration \<Rightarrow> bool \<Rightarrow> duration \<Rightarrow> duration \<Rightarrow> bool \<Rightarrow> duration" where
  "requeueTime fd maxInterval didDeletePod timeUntilNextDrain timeUntilNextPodForceDelete draining =
     (let pfd = PodForceDeleteGracePeriod (nfd_Spec fd);
          t = timeUntilNextDrain;
          t = (if didDeletePod \<and> pfd \<noteq> 0 \<and> (t = 0 \<or> pfd < t) then pfd else t);
          t = (if timeUntilNextPodForceDelete > 0 \<and> (t = 0 \<or> timeUntilNextPodForceDelete < t)
               then timeUntilNextPodForceDelete else t)
      in if draining \<and> maxInterval > 0 \<and> (t = 0 \<or> t > maxInterval) then maxInterval else t)"

text \<open>From the observed drains on (lines 163--236).\<close>

definition drainAndKill ::
  "'z lib_scheme \<Rightarrow> 'j jq_lib_scheme \<Rightarrow> 's NodeForceDrainReconciler \<Rightarrow> NodeForceDrain \<Rightarrow> Node list \<Rightarrow> Selector
     \<Rightarrow> (json \<Rightarrow> jqValue list) option \<Rightarrow> ('s, error + Result) fd_io"
where
  "drainAndKill L J r fd drainingNodes podNSSelector podJQQuery = do {
     (timeUntilNextDrain, nodesOutOfGracePeriod) \<leftarrow> outOfGracePeriod r fd drainingNodes 0 [];
     (didDeletePod, forceDrainError) \<leftarrow>
       (if NodeDrainGracePeriod (nfd_Spec fd) \<noteq> 0 then do {
          (didDeletePod, errors) \<leftarrow> drainNodes L J r (Name fd) podNSSelector podJQQuery nodesOutOfGracePeriod False [];
          ret (didDeletePod, Combine L errors)
        }
        else ret (False, None));
     let pfd = PodForceDeleteGracePeriod (nfd_Spec fd);
     (timeUntilNextPodForceDelete, forceDeleteError) \<leftarrow>
       (if pfd \<noteq> 0 then do {
          (t, errors) \<leftarrow> killOnNodes L J r (Name fd) pfd podNSSelector podJQQuery nodesOutOfGracePeriod 0 [];
          ret (t, Combine L errors)
        }
        else ret (0, None));
     ret (case Combine L [forceDrainError, forceDeleteError] of
       Some e \<Rightarrow> Inl e
     | None \<Rightarrow> Inr \<lparr>Requeue = False, RequeueAfter = requeueTime fd (MaxReconcileIntervalDuringActiveDrain r)
         didDeletePod timeUntilNextDrain timeUntilNextPodForceDelete (drainingNodes \<noteq> [])\<rparr>)
   }"

text \<open>From the draining nodes on.\<close>

definition observeAndDrain ::
  "'z lib_scheme \<Rightarrow> 'j jq_lib_scheme \<Rightarrow> 's NodeForceDrainReconciler \<Rightarrow> NodeForceDrain \<Rightarrow> Node list \<Rightarrow> Selector
     \<Rightarrow> (json \<Rightarrow> jqValue list) option \<Rightarrow> ('s, error + Result) fd_io"
where
  "observeAndDrain L J r fd drainingNodes podNSSelector podJQQuery = do {
     (fd, statusChanged) \<leftarrow> observeDrains r drainingNodes fd False;
     if statusChanged then do {
       res \<leftarrow> call (StatusUpdateForceDrain fd) (fd_statusUpdate r fd);
       ret (case res of
         Inl e \<Rightarrow> Inl (Errorf ''failed to update LastObservedNodeDrain status'' e)
       | Inr _ \<Rightarrow> Inr noRequeue)
     }
     else drainAndKill L J r fd drainingNodes podNSSelector podJQQuery
   }"

text \<open>The zero value of a \<^verbatim>\<open>NodeForceDrain\<close>, which the variable keeps when the object is not found.\<close>

definition emptySelector :: LabelSelector where
  "emptySelector = \<lparr>ls_MatchLabels = [], ls_MatchExpressions = []\<rparr>"

definition zeroForceDrain :: NodeForceDrain where
  "zeroForceDrain = \<lparr>Kind = '''', APIVersion = '''', Name = '''', Namespace = '''', UID = '''', ResourceVersion = '''',
     Labels = Map.empty, Annotations = Map.empty, CreationTimestamp = zeroTime, DeletionTimestamp = None,
     DeletionGracePeriodSeconds = None, Finalizers = [], OwnerReferences = [],
     nfd_Spec = \<lparr>NodeSelector = emptySelector, NamespaceSelector = emptySelector, PodJQSelector = '''',
       NodeDrainGracePeriod = 0, PodForceDeleteGracePeriod = 0\<rparr>,
     LastObservedNodeDrain = []\<rparr>"

definition reconcileForceDrain ::
  "'z lib_scheme \<Rightarrow> 'j jq_lib_scheme \<Rightarrow> 's NodeForceDrainReconciler \<Rightarrow> NodeForceDrain \<Rightarrow> ('s, error + Result) fd_io"
where
  "reconcileForceDrain L J r fd =
     (if DeletionTimestamp fd \<noteq> None then ret (Inr noRequeue)
      else case LabelSelectorAsSelector L (Some (NodeSelector (nfd_Spec fd))) of
        Inl e \<Rightarrow> ret (Inl (Errorf ''failed to parse NodeSelector'' e))
      | Inr nodeSel \<Rightarrow> do {
         nodes \<leftarrow> call (ListNodes nodeSel) (fd_listNodes r nodeSel);
         case nodes of
           Inl e \<Rightarrow> ret (Inl (Errorf ''failed to list nodes'' e))
         | Inr nodes \<Rightarrow> (case LabelSelectorAsSelector L (Some (NamespaceSelector (nfd_Spec fd))) of
             Inl e \<Rightarrow> ret (Inl (Errorf ''failed to parse NamespaceSelector'' e))
           | Inr podNSSelector \<Rightarrow>
              (case (if PodJQSelector (nfd_Spec fd) \<noteq> ''''
                     then (case JqParse J (PodJQSelector (nfd_Spec fd)) of Inl e \<Rightarrow> Inl e | Inr q \<Rightarrow> Inr (Some q))
                     else Inr None) of
                 Inl e \<Rightarrow> ret (Inl (Errorf ''failed to parse PodJQSelector'' e))
               | Inr podJQQuery \<Rightarrow> observeAndDrain L J r fd (filterDraining nodes) podNSSelector podJQQuery))
      })"

definition ReconcileForceDrain ::
  "'z lib_scheme \<Rightarrow> 'j jq_lib_scheme \<Rightarrow> 's NodeForceDrainReconciler \<Rightarrow> NamespacedName \<Rightarrow> ('s, error + Result) fd_io"
where
  "ReconcileForceDrain L J r req = do {
     got \<leftarrow> call (GetForceDrain req) (fd_get r req);
     case got of
       Inl e \<Rightarrow> (case IgnoreNotFound L e of
         Some _ \<Rightarrow> ret (Inl (Errorf ''failed to get NodeForceDrain'' e))
       | None \<Rightarrow> reconcileForceDrain L J r zeroForceDrain)
     | Inr fd \<Rightarrow> reconcileForceDrain L J r fd
   }"

section \<open>NodeToNodeForceDrainMapper\<close>

fun mapNode :: "'z lib_scheme \<Rightarrow> Node \<Rightarrow> NodeForceDrain list \<Rightarrow> NamespacedName list" where
  "mapNode L node [] = []"
| "mapNode L node (fd # fds) = (case LabelSelectorAsSelector L (Some (NodeSelector (nfd_Spec fd))) of
     Inl e \<Rightarrow> mapNode L node fds
   | Inr sel \<Rightarrow>
      if \<not> Matches sel (Labels node) then mapNode L node fds
      else \<lparr>nn_Namespace = Namespace fd, nn_Name = Name fd\<rparr> # mapNode L node fds)"

definition NodeToNodeForceDrainMapper ::
  "'z lib_scheme \<Rightarrow> 's NodeForceDrainReconciler \<Rightarrow> Node \<Rightarrow> ('s, NamespacedName list) fd_io"
where
  "NodeToNodeForceDrainMapper L r node = do {
     fds \<leftarrow> call ListForceDrains (fd_list r);
     ret (case fds of Inl e \<Rightarrow> [] | Inr items \<Rightarrow> mapNode L node items)
   }"

section \<open>Observed drains\<close>

lemma findObserved_find: "findObserved os n = find (\<lambda>ob. NodeName ob = n) os"
  by (induction os) auto

lemma indexFunc_None: "indexFunc P xs = None \<longleftrightarrow> (\<forall>x \<in> set xs. \<not> P x)"
  by (induction xs) auto

lemma indexFunc_Some: "indexFunc P xs = Some i \<Longrightarrow> i < length xs \<and> P (xs ! i) \<and> (\<forall>j < i. \<not> P (xs ! j))"
  by (induction xs arbitrary: i) (auto split: if_splits simp: nth_Cons less_Suc_eq_0_disj)

lemma find_append: "find P (xs @ ys) = (case find P xs of None \<Rightarrow> find P ys | Some x \<Rightarrow> Some x)"
  by (induction xs) auto

lemma find_update:
  assumes "indexFunc (\<lambda>ob. NodeName ob = n) os = Some i" and "NodeName new = n"
  shows "findObserved (os[i := new]) m = (if m = n then Some new else findObserved os m)"
  using assms by (induction os arbitrary: i) (auto split: if_splits nat.splits simp: list_update_code)

lemma findObserved_index:
  "indexFunc (\<lambda>ob. NodeName ob = n) os = Some i \<Longrightarrow> findObserved os n = Some (os ! i)"
  by (induction os arbitrary: i) (auto split: if_splits)

lemma findObserved_append:
  "findObserved (os @ [new]) m = (case findObserved os m of None \<Rightarrow> if NodeName new = m then Some new else None | Some ob \<Rightarrow> Some ob)"
  by (induction os) auto

lemma findObserved_None: "findObserved os n = None \<longleftrightarrow> indexFunc (\<lambda>ob. NodeName ob = n) os = None"
  by (induction os) auto

text \<open>What a status update records: a new observation of one node, at a time of the clock.\<close>

definition observed :: "NodeForceDrain \<Rightarrow> string \<Rightarrow> string \<Rightarrow> time \<Rightarrow> NodeForceDrain \<Rightarrow> bool" where
  "observed fd n drainID now fd' \<longleftrightarrow> (\<exists>obs. fd' = fd\<lparr>LastObservedNodeDrain := obs\<rparr>
     \<and> findObserved obs n = Some \<lparr>NodeName = n, LastAppliedDrain = drainID, ObservedTime = now\<rparr>
     \<and> (\<forall>m. m \<noteq> n \<longrightarrow> findObserved obs m = findObserved (LastObservedNodeDrain fd) m)
     \<and> (\<forall>ob. findObserved (LastObservedNodeDrain fd) n = Some ob \<longrightarrow> LastAppliedDrain ob \<noteq> drainID))"

definition upToDate :: "NodeForceDrain \<Rightarrow> Node \<Rightarrow> bool" where
  "upToDate fd node \<longleftrightarrow> (\<exists>ld. findLastObservedNodeDrain fd (Name node) = Some ld
     \<and> LastAppliedDrain ld = annotation node LastAppliedDrainerAnnotationKey)"

lemma observed_append:
  assumes "indexFunc (\<lambda>ob. NodeName ob = n) (LastObservedNodeDrain fd) = None"
  shows "observed fd n drainID now (fd\<lparr>LastObservedNodeDrain := LastObservedNodeDrain fd
    @ [\<lparr>NodeName = n, LastAppliedDrain = drainID, ObservedTime = now\<rparr>]\<rparr>)"
proof -
  from assms have "findObserved (LastObservedNodeDrain fd) n = None" by (simp add: findObserved_None)
  then show ?thesis unfolding observed_def
    by (intro exI [of _ "LastObservedNodeDrain fd @ [\<lparr>NodeName = n, LastAppliedDrain = drainID, ObservedTime = now\<rparr>]"]
        conjI refl allI impI) (auto simp: findObserved_append split: option.splits)
qed

lemma observed_update:
  assumes "indexFunc (\<lambda>ob. NodeName ob = n) (LastObservedNodeDrain fd) = Some i"
    and "LastAppliedDrain (LastObservedNodeDrain fd ! i) \<noteq> drainID"
  shows "observed fd n drainID now (fd\<lparr>LastObservedNodeDrain := (LastObservedNodeDrain fd)
    [i := (LastObservedNodeDrain fd ! i)\<lparr>LastAppliedDrain := drainID, ObservedTime := now\<rparr>]\<rparr>)"
proof -
  let ?os = "LastObservedNodeDrain fd"
  have name: "NodeName (?os ! i) = n" using indexFunc_Some [OF assms(1)] by simp
  have entry: "(?os ! i)\<lparr>LastAppliedDrain := drainID, ObservedTime := now\<rparr>
      = \<lparr>NodeName = n, LastAppliedDrain = drainID, ObservedTime = now\<rparr>"
    using name by (cases "?os ! i") simp
  show ?thesis unfolding observed_def entry
    by (intro exI [of _ "?os[i := \<lparr>NodeName = n, LastAppliedDrain = drainID, ObservedTime = now\<rparr>]"]
        conjI refl allI impI) (use find_update [OF assms(1)] findObserved_index [OF assms(1)] assms(2) in auto)
qed

lemma setLastObservedNodeDrain_follows:
  assumes "\<And>h t. E h (ClockNow t)"
  shows "follows E h (setLastObservedNodeDrain r fd n drainID) (\<lambda>(fd', changed) h'.
    if changed then \<exists>now. ClockNow now \<in> set h' \<and> observed fd n drainID now fd'
    else fd' = fd \<and> (\<exists>ld. findLastObservedNodeDrain fd n = Some ld \<and> LastAppliedDrain ld = drainID))"
  unfolding setLastObservedNodeDrain_def
  by (intro emits_rules assms)
    (auto intro: observed_append observed_update simp: findLastObservedNodeDrain_def dest: findObserved_index)

lemma observeDrains_changed: "observeDrains r nodes fd True = ret (fd, True)"
  by (induction nodes) auto

lemma observeDrains_follows:
  assumes "\<And>h t. E h (ClockNow t)"
  shows "follows E h (observeDrains r nodes fd False) (\<lambda>(fd', changed) h'.
    if changed then \<exists>node \<in> set nodes. \<exists>now. ClockNow now \<in> set h'
        \<and> observed fd (Name node) (annotation node LastAppliedDrainerAnnotationKey) now fd'
    else fd' = fd \<and> (\<forall>node \<in> set nodes. upToDate fd node))"
proof (induction nodes arbitrary: h)
  case (Cons node nodes)
  show ?case unfolding observeDrains.simps if_False
  proof (rule follows_bind [OF setLastObservedNodeDrain_follows [where E = E, OF assms]], rule follows_case_prod, goal_cases)
    case (1 x es fd' changed)
    then show ?case
    proof (cases changed)
      case True
      with 1 show ?thesis by (auto simp: observeDrains_changed intro!: follows_ret)
    next
      case False
      with 1 have "fd' = fd" "upToDate fd node" by (auto simp: upToDate_def)
      with False show ?thesis
        by (auto intro!: follows_mono [OF Cons.IH] split: if_splits)
    qed
  qed
qed (auto intro: follows_ret)

section \<open>The protocol\<close>

text \<open>Calls that change nothing in the cluster.\<close>

definition isRead :: "nfdCall \<Rightarrow> bool" where
  "isRead e \<longleftrightarrow> (case e of DeletePod _ _ _ \<Rightarrow> False | StatusUpdateForceDrain _ _ \<Rightarrow> False | _ \<Rightarrow> True)"

lemma isRead_simps [simp]:
  "isRead (GetForceDrain n x1)" "isRead (ListForceDrains x2)" "isRead (ListNodes sel x3)" "isRead (ListPodsOnNode n2 x4)"
  "isRead (GetNamespace n2 x5)" "isRead (GetDaemonSet n x6)" "isRead (RecordNodeEvent a b c)"
  "isRead (CountPodDeletion ls)" "isRead (CountPodTermination ls)" "isRead (ClockNow t)"
  "\<not> isRead (DeletePod pod g x7)" "\<not> isRead (StatusUpdateForceDrain fd x8)"
  by (simp_all add: isRead_def)

text \<open>What the reads before a deletion established about a pod.\<close>

definition noDaemonSet :: "'z lib_scheme \<Rightarrow> nfdCall list \<Rightarrow> Pod \<Rightarrow> bool" where
  "noDaemonSet L h pod \<longleftrightarrow> (\<forall>ref. GetControllerOf L (OwnerReferences pod) = Some ref
     \<longrightarrow> or_APIVersion ref = ''apps/v1'' \<longrightarrow> or_Kind ref = ''DaemonSet''
     \<longrightarrow> (\<exists>e. GetDaemonSet \<lparr>nn_Namespace = Namespace pod, nn_Name = or_Name ref\<rparr> (Inl e) \<in> set h \<and> IsNotFound L e))"

definition podAllowed ::
  "'z lib_scheme \<Rightarrow> 'j jq_lib_scheme \<Rightarrow> Selector \<Rightarrow> (json \<Rightarrow> jqValue list) option \<Rightarrow> nfdCall list \<Rightarrow> Pod \<Rightarrow> bool"
where
  "podAllowed L J nsSel q h pod \<longleftrightarrow>
     (Empty nsSel \<or> (\<exists>ns. GetNamespace (Namespace pod) (Inr ns) \<in> set h \<and> Matches nsSel (Labels ns)))
     \<and> (\<forall>p. q = Some p \<longrightarrow> podJQQueryMatches J pod p = Inr True)
     \<and> \<not> podIsStatic L pod \<and> noDaemonSet L h pod"

lemma podAllowed_mono: "podAllowed L J nsSel q h pod \<Longrightarrow> podAllowed L J nsSel q (h @ es) pod"
  unfolding podAllowed_def noDaemonSet_def by auto

definition candidates ::
  "'z lib_scheme \<Rightarrow> 'j jq_lib_scheme \<Rightarrow> Selector \<Rightarrow> (json \<Rightarrow> jqValue list) option \<Rightarrow> nfdCall list \<Rightarrow> Node \<Rightarrow> Pod \<Rightarrow> bool"
where
  "candidates L J nsSel q h node pod \<longleftrightarrow> podAllowed L J nsSel q h pod
     \<and> (\<exists>pods. ListPodsOnNode (Name node) (Inr pods) \<in> set h \<and> pod \<in> set pods)"

lemma candidates_mono: "candidates L J nsSel q h node pod \<Longrightarrow> candidates L J nsSel q (h @ es) node pod"
  unfolding candidates_def by (auto intro: podAllowed_mono)

text \<open>A drain of the node was observed and its grace period is over.\<close>

definition drainDue :: "NodeForceDrain \<Rightarrow> nfdCall list \<Rightarrow> Node \<Rightarrow> bool" where
  "drainDue fd h node \<longleftrightarrow> (\<exists>ld now. findLastObservedNodeDrain fd (Name node) = Some ld \<and> ClockNow now \<in> set h
     \<and> timeUntilDrain ld fd now \<le> 0)"

lemma drainDue_mono: "drainDue fd h node \<Longrightarrow> drainDue fd (h @ es) node"
  unfolding drainDue_def by auto

locale reads_allowed =
  fixes E :: "nfdCall list \<Rightarrow> nfdCall \<Rightarrow> bool"
  assumes reads: "isRead e \<Longrightarrow> E h e"
begin

lemma podIsInMatchingNamespace_follows:
  "follows E h (podIsInMatchingNamespace r pod nsSel) (\<lambda>res h'. (\<exists>es. h' = h @ es) \<and> (res = Inr True \<longrightarrow>
     Empty nsSel \<or> (\<exists>ns. GetNamespace (Namespace pod) (Inr ns) \<in> set h' \<and> Matches nsSel (Labels ns))))"
  unfolding podIsInMatchingNamespace_def by (intro emits_rules reads) (auto split: sum.splits)

lemma podIsControlled_follows:
  "follows E h (podIsControlledByExistingDaemonSet L r pod) (\<lambda>res h'. (\<exists>es. h' = h @ es)
     \<and> (res = Inr False \<longrightarrow> noDaemonSet L h' pod))"
  unfolding podIsControlledByExistingDaemonSet_def Let_def
  by (intro emits_rules reads) (auto simp: noDaemonSet_def split: sum.splits if_splits)

lemma podIsCandidate_follows:
  "follows E h (podIsCandidate L J r nsSel q pod) (\<lambda>keep h'. (\<exists>es. h' = h @ es) \<and> (keep \<longrightarrow> podAllowed L J nsSel q h' pod))"
  unfolding podIsCandidate_def
proof (rule follows_bind [OF podIsInMatchingNamespace_follows], intro follows_if follows_ret, goal_cases)
  case (3 res es)
  then have ns: "Empty nsSel \<or> (\<exists>ns. GetNamespace (Namespace pod) (Inr ns) \<in> set (h @ es) \<and> Matches nsSel (Labels ns))"
    and q: "\<forall>p. q = Some p \<longrightarrow> podJQQueryMatches J pod p = Inr True" by (auto split: option.splits)
  show ?case
    by (rule follows_bind [OF podIsControlled_follows], rule follows_ret)
      (use ns q in \<open>auto simp: podAllowed_def\<close>)
qed auto

lemma filterPods_follows:
  assumes "\<forall>pod \<in> set acc. podAllowed L J nsSel q h pod"
  shows "follows E h (filterPods L J r nsSel q pods acc) (\<lambda>out h'. (\<exists>es. h' = h @ es)
    \<and> (\<forall>pod \<in> set out. (pod \<in> set acc \<or> pod \<in> set pods) \<and> podAllowed L J nsSel q h' pod))"
  using assms
proof (induction pods arbitrary: h acc)
  case (Cons pod pods)
  show ?case unfolding filterPods.simps
  proof (rule follows_bind [OF podIsCandidate_follows], goal_cases)
    case (1 keep es)
    have "\<forall>p \<in> set (if keep then acc @ [pod] else acc). podAllowed L J nsSel q (h @ es) p"
      using 1 Cons.prems by (auto intro: podAllowed_mono)
    from Cons.IH [OF this] show ?case
      by (rule follows_mono) (auto split: if_splits)
  qed
qed (auto intro: follows_ret)

lemma getCandidates_follows:
  "follows E h (getDeletionCandidatePodsForNode L J r node nsSel q) (\<lambda>out h'. (\<exists>es. h' = h @ es)
     \<and> (\<forall>pods. out = Inr pods \<longrightarrow> (\<forall>pod \<in> set pods. candidates L J nsSel q h' node pod)))"
  unfolding getDeletionCandidatePodsForNode_def
proof (intro follows_bind_call follows_case_sum follows_ret reads, goal_cases)
  case (3 pl pods)
  show ?case
    by (rule follows_bind [OF filterPods_follows], simp, rule follows_ret)
      (use 3 in \<open>auto simp: candidates_def\<close>)
qed auto

lemma deletePods_follows:
  assumes "\<And>pod es res. pod \<in> set pods \<Longrightarrow> DeletionTimestamp pod = None \<Longrightarrow> E (h @ es) (DeletePod pod None res)"
  shows "follows E h (deletePods r fdName node pods attempted errs) (\<lambda>_ h'. \<exists>es. h' = h @ es)"
  using assms
proof (induction pods arbitrary: h attempted errs)
  case (Cons pod pods)
  have rest: "follows E (h @ es) (deletePods r fdName node pods a er) (\<lambda>_ h'. \<exists>es. h' = h @ es)" for es a er
    by (rule follows_mono [OF Cons.IH]) (use Cons.prems in auto)
  show ?case unfolding deletePods.simps Let_def
    by (intro emits_rules) (use rest [of "[]"] rest Cons.prems [of pod] in \<open>auto intro: reads\<close>)
qed (auto intro: follows_ret)

lemma killPods_follows:
  assumes "\<And>pod dt now es res. pod \<in> set pods \<Longrightarrow> DeletionTimestamp pod = Some dt \<Longrightarrow> ClockNow now \<in> set (h @ es)
    \<Longrightarrow> timeUntilForceDelete pod dt g now \<le> 0 \<Longrightarrow> E (h @ es) (DeletePod pod (Some 1) res)"
  shows "follows E h (killPods r fdName node g pods next errs) (\<lambda>_ h'. \<exists>es. h' = h @ es)"
  using assms
proof (induction pods arbitrary: h "next" errs)
  case (Cons pod pods)
  have rest: "follows E (h @ es) (killPods r fdName node g pods n er) (\<lambda>_ h'. \<exists>es. h' = h @ es)" for es n er
    by (rule follows_mono [OF Cons.IH]) (use Cons.prems in auto)
  show ?case unfolding killPods.simps Let_def
  proof (intro emits_rules, goal_cases)
    case 1
    show ?case using rest [of "[]"] by simp
  next
    case (6 dt now x y res)
    let ?e = "ClockNow now"
    have "E (h @ [?e, ev1, ev2]) (DeletePod pod (Some 1) res)" for ev1 ev2
      using Cons.prems [of pod dt now "[?e, ev1, ev2]" res] 6 by simp
    then show ?case by simp
  qed (auto intro: reads rest)
qed (auto intro: follows_ret)

lemma forceDrainNode_follows:
  assumes "\<And>pod es res. candidates L J nsSel q (h @ es) node pod \<Longrightarrow> DeletionTimestamp pod = None
    \<Longrightarrow> E (h @ es) (DeletePod pod None res)"
  shows "follows E h (forceDrainNode L J r fdName node nsSel q) (\<lambda>_ h'. \<exists>es. h' = h @ es)"
  unfolding forceDrainNode_def
proof (rule follows_bind [OF getCandidates_follows], intro follows_case_sum follows_ret, goal_cases)
  case (2 out es pods)
  have "follows E (h @ es) (deletePods r fdName node pods False []) (\<lambda>_ h'. \<exists>es'. h' = (h @ es) @ es')"
  proof (rule deletePods_follows, goal_cases)
    case (1 pod es' res)
    with 2 show ?case using candidates_mono [of L J nsSel q "h @ es" node pod es'] assms [of "es @ es'" pod res] by auto
  qed
  then show ?case by (rule follows_bind) (auto intro!: follows_ret)
qed auto

lemma forceDeletePodsOnNode_follows:
  assumes "\<And>pod dt now es res. candidates L J nsSel q (h @ es) node pod \<Longrightarrow> DeletionTimestamp pod = Some dt
    \<Longrightarrow> ClockNow now \<in> set (h @ es) \<Longrightarrow> timeUntilForceDelete pod dt g now \<le> 0 \<Longrightarrow> E (h @ es) (DeletePod pod (Some 1) res)"
  shows "follows E h (forceDeletePodsOnNode L J r fdName node g nsSel q) (\<lambda>_ h'. \<exists>es. h' = h @ es)"
  unfolding forceDeletePodsOnNode_def
proof (rule follows_bind [OF getCandidates_follows], intro follows_case_sum follows_ret, goal_cases)
  case (2 out es pods)
  have "follows E (h @ es) (killPods r fdName node g pods 0 []) (\<lambda>_ h'. \<exists>es'. h' = (h @ es) @ es')"
  proof (rule killPods_follows, goal_cases)
    case (1 pod dt now es' res)
    with 2 show ?case using candidates_mono [of L J nsSel q "h @ es" node pod es'] assms [of "es @ es'" pod dt now res] by auto
  qed
  then show ?case by (rule follows_bind) (auto intro!: follows_ret)
qed auto

lemma drainNodes_follows:
  assumes "\<And>node pod es res. node \<in> set nodes \<Longrightarrow> candidates L J nsSel q (h @ es) node pod \<Longrightarrow> DeletionTimestamp pod = None
    \<Longrightarrow> E (h @ es) (DeletePod pod None res)"
  shows "follows E h (drainNodes L J r fdName nsSel q nodes did errs) (\<lambda>_ h'. \<exists>es. h' = h @ es)"
  using assms
proof (induction nodes arbitrary: h did errs)
  case (Cons node nodes)
  have rest: "follows E (h @ es) (drainNodes L J r fdName nsSel q nodes d er) (\<lambda>_ h'. \<exists>es. h' = h @ es)" for es d er
    by (rule follows_mono [OF Cons.IH]) (use Cons.prems in auto)
  show ?case unfolding drainNodes.simps
    by (rule follows_bind [OF forceDrainNode_follows]) (use Cons.prems [of node] rest in auto)
qed (auto intro: follows_ret)

lemma killOnNodes_follows:
  assumes "\<And>node pod dt now es res. node \<in> set nodes \<Longrightarrow> candidates L J nsSel q (h @ es) node pod
    \<Longrightarrow> DeletionTimestamp pod = Some dt \<Longrightarrow> ClockNow now \<in> set (h @ es) \<Longrightarrow> timeUntilForceDelete pod dt g now \<le> 0
    \<Longrightarrow> E (h @ es) (DeletePod pod (Some 1) res)"
  shows "follows E h (killOnNodes L J r fdName g nsSel q nodes next errs) (\<lambda>_ h'. \<exists>es. h' = h @ es)"
  using assms
proof (induction nodes arbitrary: h "next" errs)
  case (Cons node nodes)
  have rest: "follows E (h @ es) (killOnNodes L J r fdName g nsSel q nodes n er) (\<lambda>_ h'. \<exists>es. h' = h @ es)" for es n er
  proof (rule follows_mono [OF Cons.IH], goal_cases)
    case (1 node' es' pod dt now res)
    then show ?case using Cons.prems [of node' "es @ es'" pod dt now res] by simp
  qed auto
  show ?case unfolding killOnNodes.simps
    by (rule follows_bind [OF forceDeletePodsOnNode_follows])
      (use Cons.prems [of node] rest in \<open>auto split: option.split\<close>)
qed (auto intro: follows_ret)

text \<open>The nodes out of the grace period are draining nodes whose observed drain is due.\<close>

lemma outOfGracePeriod_follows:
  "follows E h (outOfGracePeriod r fd nodes next out) (\<lambda>(t, out') h'. (\<exists>es. h' = h @ es)
     \<and> (\<forall>node \<in> set out'. node \<in> set out \<or> node \<in> set nodes \<and> drainDue fd h' node) \<and> (0 \<le> next \<longrightarrow> 0 \<le> t))"
proof (induction nodes arbitrary: h "next" out)
  case (Cons node nodes)
  show ?case unfolding outOfGracePeriod.simps Let_def
  proof (intro emits_rules reads, goal_cases)
    case 1
    show ?case by (rule follows_mono [OF Cons.IH]) auto
  next
    case (3 ld now)
    then show ?case by (intro follows_mono [OF Cons.IH]) (auto simp: sooner_def split: if_splits)
  next
    case (4 ld now)
    then have due [simp]: "drainDue fd (h @ ClockNow now # es) node" for es
      unfolding drainDue_def by (intro exI [of _ ld] exI [of _ now]) simp
    show ?case
      by (rule follows_mono [OF Cons.IH]) auto
  qed simp
qed (auto intro: follows_ret)

end

text \<open>
  A pod is deleted only on a draining node whose drain was observed, under its present drain id, at
  least the grace period ago, and only when the pod was listed on this node and passed every filter.
  It is deleted plainly when it is not being deleted yet and killed (grace period 1) when its own
  time is over; a zero grace period switches either off. The status is only written to record the
  observation of a drain.
\<close>

definition drainProtocol ::
  "'z lib_scheme \<Rightarrow> 'j jq_lib_scheme \<Rightarrow> NodeForceDrain \<Rightarrow> Node list \<Rightarrow> Selector \<Rightarrow> (json \<Rightarrow> jqValue list) option
     \<Rightarrow> nfdCall list \<Rightarrow> nfdCall \<Rightarrow> bool"
where
  "drainProtocol L J fd draining nsSel q h e \<longleftrightarrow> (case e of
     DeletePod pod g _ \<Rightarrow> (\<exists>node \<in> set draining. upToDate fd node \<and> drainDue fd h node \<and> candidates L J nsSel q h node pod)
       \<and> (case g of
            None \<Rightarrow> NodeDrainGracePeriod (nfd_Spec fd) \<noteq> 0 \<and> DeletionTimestamp pod = None
          | Some n \<Rightarrow> n = 1 \<and> PodForceDeleteGracePeriod (nfd_Spec fd) \<noteq> 0
              \<and> (\<exists>dt now. DeletionTimestamp pod = Some dt \<and> ClockNow now \<in> set h
                   \<and> timeUntilForceDelete pod dt (PodForceDeleteGracePeriod (nfd_Spec fd)) now \<le> 0))
   | StatusUpdateForceDrain sent _ \<Rightarrow> (\<exists>node \<in> set draining. \<exists>now. ClockNow now \<in> set h
       \<and> observed fd (Name node) (annotation node LastAppliedDrainerAnnotationKey) now sent)
   | _ \<Rightarrow> True)"

interpretation drain: reads_allowed "drainProtocol L J fd draining nsSel q" for L J fd draining nsSel q
  by unfold_locales (auto simp: drainProtocol_def isRead_def split: nfdCall.splits)

interpretation anyCall: reads_allowed "\<lambda>_ _. True"
  by unfold_locales simp

lemma drainProtocol_delete:
  assumes "node \<in> set draining" "upToDate fd node" "drainDue fd h node" "candidates L J nsSel q (h @ es) node pod"
    "NodeDrainGracePeriod (nfd_Spec fd) \<noteq> 0" "DeletionTimestamp pod = None"
  shows "drainProtocol L J fd draining nsSel q (h @ es) (DeletePod pod None res)"
  unfolding drainProtocol_def nfdCall.case option.case using assms drainDue_mono [OF assms(3)] by blast

lemma drainProtocol_kill:
  assumes "node \<in> set draining" "upToDate fd node" "drainDue fd h node" "candidates L J nsSel q (h @ es) node pod"
    "PodForceDeleteGracePeriod (nfd_Spec fd) \<noteq> 0" "DeletionTimestamp pod = Some dt" "ClockNow now \<in> set (h @ es)"
    "timeUntilForceDelete pod dt (PodForceDeleteGracePeriod (nfd_Spec fd)) now \<le> 0"
  shows "drainProtocol L J fd draining nsSel q (h @ es) (DeletePod pod (Some 1) res)"
  unfolding drainProtocol_def nfdCall.case option.case using assms drainDue_mono [OF assms(3)] by blast

lemma drainAndKill_follows:
  assumes "\<forall>node \<in> set draining. upToDate fd node"
  shows "follows (drainProtocol L J fd draining nsSel q) h (drainAndKill L J r fd draining nsSel q) (\<lambda>_ _. True)"
  unfolding drainAndKill_def Let_def
proof (rule follows_bind [OF drain.outOfGracePeriod_follows], rule follows_case_prod, goal_cases)
  case (1 x es t out)
  then have due: "\<forall>node \<in> set out. node \<in> set draining \<and> upToDate fd node \<and> drainDue fd (h @ es) node"
    using assms by auto
  have drains: "follows (drainProtocol L J fd draining nsSel q) (h @ es)
      (if NodeDrainGracePeriod (nfd_Spec fd) \<noteq> 0 then do {
          (did, errors) \<leftarrow> drainNodes L J r (Name fd) nsSel q out False [];
          ret (did, Combine L errors) }
       else ret (False, None)) (\<lambda>_ h'. \<exists>es'. h' = (h @ es) @ es')"
    by (intro follows_if follows_ret, rule follows_bind [OF drain.drainNodes_follows])
      (use due in \<open>auto intro: drainProtocol_delete follows_ret simp del: append_assoc\<close>)
  have kills: "follows (drainProtocol L J fd draining nsSel q) ((h @ es) @ es')
      (if PodForceDeleteGracePeriod (nfd_Spec fd) \<noteq> 0 then do {
          (t, errors) \<leftarrow> killOnNodes L J r (Name fd) (PodForceDeleteGracePeriod (nfd_Spec fd)) nsSel q out 0 [];
          ret (t, Combine L errors) }
       else ret (0, None)) (\<lambda>_ _. True)" for es'
  proof -
    have due': "\<forall>node \<in> set out. node \<in> set draining \<and> upToDate fd node \<and> drainDue fd ((h @ es) @ es') node"
      using due by (auto intro: drainDue_mono simp del: append_assoc)
    show ?thesis
      by (intro follows_if follows_ret TrueI, rule follows_bind [OF drain.killOnNodes_follows])
        (use due' in \<open>auto intro: drainProtocol_kill follows_ret simp del: append_assoc\<close>)
  qed
  show ?case
    by (rule follows_bind [OF drains], elim exE, simp only:, rule follows_case_prod, rule follows_bind [OF kills])
      (auto intro: follows_ret)
qed

lemma observeAndDrain_follows:
  "follows (drainProtocol L J fd draining nsSel q) h (observeAndDrain L J r fd draining nsSel q) (\<lambda>_ _. True)"
  unfolding observeAndDrain_def
proof (rule follows_bind [OF observeDrains_follows], goal_cases)
  case (2 x es)
  note post = this
  show ?case
  proof (rule follows_case_prod, intro follows_if follows_bind_call follows_ret TrueI, goal_cases)
    case (1 fd' changed res)
    with post show ?case unfolding drainProtocol_def nfdCall.case by auto
  next
    case (2 fd' changed)
    with post show ?case by (auto intro: drainAndKill_follows)
  qed
qed (simp add: drainProtocol_def)

text \<open>The same for the whole handler: what is deleted follows from the object that was read.\<close>

definition parsedQuery :: "'j jq_lib_scheme \<Rightarrow> NodeForceDrain \<Rightarrow> (json \<Rightarrow> jqValue list) option \<Rightarrow> bool" where
  "parsedQuery J fd q \<longleftrightarrow> (if PodJQSelector (nfd_Spec fd) = '''' then q = None
     else \<exists>p. JqParse J (PodJQSelector (nfd_Spec fd)) = Inr p \<and> q = Some p)"

definition forceDrainProtocol ::
  "'z lib_scheme \<Rightarrow> 'j jq_lib_scheme \<Rightarrow> NamespacedName \<Rightarrow> nfdCall list \<Rightarrow> nfdCall \<Rightarrow> bool"
where
  "forceDrainProtocol L J req h e \<longleftrightarrow> isRead e \<or> (\<exists>fd nodeSel nodes nsSel q.
     (GetForceDrain req (Inr fd) \<in> set h \<or> (\<forall>pod g res. e \<noteq> DeletePod pod g res) \<and> fd = zeroForceDrain)
     \<and> DeletionTimestamp fd = None
     \<and> LabelSelectorAsSelector L (Some (NodeSelector (nfd_Spec fd))) = Inr nodeSel
     \<and> ListNodes nodeSel (Inr nodes) \<in> set h
     \<and> LabelSelectorAsSelector L (Some (NamespaceSelector (nfd_Spec fd))) = Inr nsSel
     \<and> parsedQuery J fd q
     \<and> drainProtocol L J fd (filterDraining nodes) nsSel q h e)"

lemma no_zero_delete: "\<not> drainProtocol L J zeroForceDrain draining nsSel q h (DeletePod pod g res)"
  by (auto simp: drainProtocol_def zeroForceDrain_def split: option.splits)

lemma reconcileForceDrain_follows:
  assumes "GetForceDrain req (Inr fd) \<in> set h \<or> fd = zeroForceDrain"
  shows "follows (forceDrainProtocol L J req) h (reconcileForceDrain L J r fd) (\<lambda>_ _. True)"
  unfolding reconcileForceDrain_def
proof (intro follows_if follows_ret follows_bind_call follows_case_sum TrueI, goal_cases)
  case (2 nodeSel nl nodes nsSel q)
  let ?h = "h @ [ListNodes nodeSel nl]"
  have q: "parsedQuery J fd q" using 2 by (auto simp: parsedQuery_def split: if_splits sum.splits)
  show ?case
  proof (rule follows_mono_from [OF observeAndDrain_follows], goal_cases)
    case (1 es e)
    show ?case
    proof (cases "isRead e")
      case False
      have "GetForceDrain req (Inr fd) \<in> set (?h @ es) \<or> (\<forall>pod g res. e \<noteq> DeletePod pod g res) \<and> fd = zeroForceDrain"
        using assms 1 no_zero_delete by fastforce
      with 1 2 q show ?thesis unfolding forceDrainProtocol_def
        by (intro disjI2 exI [of _ fd] exI [of _ nodeSel] exI [of _ nodes] exI [of _ nsSel] exI [of _ q]) auto
    qed (simp add: forceDrainProtocol_def)
  qed
qed (simp add: forceDrainProtocol_def)

lemma ReconcileForceDrain_follows:
  "follows (forceDrainProtocol L J req) [] (ReconcileForceDrain L J r req) (\<lambda>_ _. True)"
  unfolding ReconcileForceDrain_def
  by (intro follows_bind_call follows_case_sum follows_case_option follows_ret TrueI)
    (auto intro: reconcileForceDrain_follows simp: forceDrainProtocol_def)

section \<open>Times\<close>

text \<open>With a grace period that is not negative and an observation that is not in the future nothing
  overflows: the drain is due exactly from the observed time plus the grace period on.\<close>

lemma timeUntilDrain_exact:
  assumes "0 \<le> NodeDrainGracePeriod (nfd_Spec fd)" "int64 (NodeDrainGracePeriod (nfd_Spec fd))" "ObservedTime ld \<le> now"
  shows "timeUntilDrain ld fd now \<le> 0 \<longleftrightarrow> ObservedTime ld + NodeDrainGracePeriod (nfd_Spec fd) \<le> now"
proof -
  let ?d = "timeSub (ObservedTime ld) now" and ?g = "NodeDrainGracePeriod (nfd_Spec fd)"
  have "?d \<le> 0" using assms(3) timeSub_pos_iff [of "ObservedTime ld" now] by linarith
  then have "int64 (?d + ?g)" using assms int64_timeSub [of "ObservedTime ld" now] by (simp add: int64_def)
  then have "timeUntilDrain ld fd now = ?d + ?g" by (simp add: timeUntilDrain_def wrap64_id)
  then show ?thesis using assms by (auto simp: timeSub_def int64_def minDuration_def maxDuration_def)
qed

lemma timeUntilForceDelete_exact:
  assumes "\<bar>dt - now\<bar> \<le> 2 ^ 61" "0 \<le> g" "g \<le> 2 ^ 61"
    and "case DeletionGracePeriodSeconds pod of None \<Rightarrow> True | Some n \<Rightarrow> 0 \<le> n \<and> n * second \<le> 2 ^ 61"
  shows "timeUntilForceDelete pod dt g now
    = dt - now - (case DeletionGracePeriodSeconds pod of None \<Rightarrow> 0 | Some n \<Rightarrow> n) * second + g"
proof -
  let ?p = "(case DeletionGracePeriodSeconds pod of None \<Rightarrow> 0 | Some n \<Rightarrow> n) * second"
  have p: "0 \<le> ?p" "?p \<le> 2 ^ 61" using assms(4) by (auto split: option.splits simp: second_def)
  have d: "timeSub dt now = dt - now" using assms(1) by (auto simp: timeSub_def minDuration_def maxDuration_def)
  have "int64 ?p" "int64 (dt - now - ?p)" "int64 (dt - now - ?p + g)"
    using p assms(1-3) by (auto simp: int64_def minDuration_def maxDuration_def)
  then show ?thesis by (simp add: timeUntilForceDelete_def d wrap64_id)
qed

lemma requeueTime_bounds:
  assumes "0 < maxInterval" "0 \<le> PodForceDeleteGracePeriod (nfd_Spec fd)" "0 \<le> untilDrain"
  shows "0 < requeueTime fd maxInterval did untilDrain untilKill True"
    and "requeueTime fd maxInterval did untilDrain untilKill True \<le> maxInterval"
  using assms by (auto simp: requeueTime_def Let_def)

text \<open>Run while a node drains, the handler asks to run again within the maximal interval.\<close>

lemma drainAndKill_watched:
  assumes "draining \<noteq> []" "0 < MaxReconcileIntervalDuringActiveDrain r" "0 \<le> PodForceDeleteGracePeriod (nfd_Spec fd)"
  shows "follows (\<lambda>_ _. True) h (drainAndKill L J r fd draining nsSel q) (\<lambda>res h'. \<forall>x. res = Inr x \<longrightarrow>
      0 < RequeueAfter x \<and> RequeueAfter x \<le> MaxReconcileIntervalDuringActiveDrain r)"
  unfolding drainAndKill_def Let_def
  by (rule follows_bind [OF anyCall.outOfGracePeriod_follows], rule follows_case_prod,
      rule follows_bind [where R = "\<lambda>_ _. True"], intro follows_if follows_ret TrueI,
      rule follows_bind [OF anyCall.drainNodes_follows], simp, rule follows_case_prod, rule follows_ret, simp,
      rule follows_case_prod,
      rule follows_bind [where R = "\<lambda>_ _. True"], intro follows_if follows_ret TrueI,
      rule follows_bind [OF anyCall.killOnNodes_follows], simp, rule follows_case_prod, rule follows_ret, simp)
    (use assms requeueTime_bounds in \<open>auto intro!: follows_ret split: option.splits\<close>)

text \<open>A run that has nothing to do: no node it lists is draining.\<close>

definition noneDraining :: "nfdCall list \<Rightarrow> bool" where
  "noneDraining h \<longleftrightarrow> (\<exists>sel nodes. ListNodes sel (Inr nodes) \<in> set h \<and> filterDraining nodes = [])"

text \<open>A run that stored the observation of a drain it had not seen before. The update of the status makes the next run.\<close>

definition drainRecorded :: "nfdCall list \<Rightarrow> bool" where
  "drainRecorded h \<longleftrightarrow> (\<exists>fd sel nodes node now sent stored. ListNodes sel (Inr nodes) \<in> set h
     \<and> node \<in> set (filterDraining nodes) \<and> ClockNow now \<in> set h
     \<and> observed fd (Name node) (annotation node LastAppliedDrainerAnnotationKey) now sent
     \<and> StatusUpdateForceDrain sent (Inr stored) \<in> set h)"

lemma drainRecordedI:
  "ListNodes sel (Inr nodes) \<in> set h \<Longrightarrow> node \<in> set (filterDraining nodes) \<Longrightarrow> ClockNow now \<in> set h
    \<Longrightarrow> observed fd (Name node) (annotation node LastAppliedDrainerAnnotationKey) now sent
    \<Longrightarrow> StatusUpdateForceDrain sent (Inr stored) \<in> set h \<Longrightarrow> drainRecorded h"
  unfolding drainRecorded_def by blast

lemma follows_extends: "follows E h m R \<Longrightarrow> follows (\<lambda>_ _. True) h m (\<lambda>_ h'. \<exists>es. h' = h @ es)"
  unfolding follows_def by (erule spec_mono) (simp add: allowed_all list_all_iff)

definition watched :: "duration \<Rightarrow> error + Result \<Rightarrow> nfdCall list \<Rightarrow> bool" where
  "watched maxInterval res h \<longleftrightarrow> (\<forall>x. res = Inr x \<longrightarrow> noneDraining h \<or> drainRecorded h
     \<or> 0 < RequeueAfter x \<and> RequeueAfter x \<le> maxInterval)"

lemma watched_error [simp]: "watched maxInterval (Inl e) h"
  by (simp add: watched_def)

lemma zeroForceDrain_simps [simp]:
  "DeletionTimestamp zeroForceDrain = None" "PodForceDeleteGracePeriod (nfd_Spec zeroForceDrain) = 0"
  by (simp_all add: zeroForceDrain_def)

lemma observeAndDrain_watched:
  assumes "0 < MaxReconcileIntervalDuringActiveDrain r" "0 \<le> PodForceDeleteGracePeriod (nfd_Spec fd)"
    and "ListNodes sel (Inr nodes) \<in> set h" and "filterDraining nodes \<noteq> []"
  shows "follows (\<lambda>_ _. True) h (observeAndDrain L J r fd (filterDraining nodes) nsSel q)
    (watched (MaxReconcileIntervalDuringActiveDrain r))"
  unfolding observeAndDrain_def
proof (rule follows_bind [OF observeDrains_follows [where E = "\<lambda>_ _. True"]], simp, rule follows_case_prod, rule follows_if, goal_cases)
  case (1 x es fd' changed)
  then obtain node now where *: "node \<in> set (filterDraining nodes)" "ClockNow now \<in> set (h @ es)"
    "observed fd (Name node) (annotation node LastAppliedDrainerAnnotationKey) now fd'" by auto
  have "drainRecorded ((h @ es) @ [StatusUpdateForceDrain fd' (Inr stored)])" for stored
    by (rule drainRecordedI [OF _ *(1) _ *(3)]) (use assms(3) *(2) in auto)
  then show ?case by (intro follows_bind_call follows_ret) (auto simp: watched_def split: sum.split)
next
  case (2 x es fd' changed)
  then have "fd' = fd" by auto
  with assms show ?case by (auto simp: watched_def intro!: follows_mono [OF drainAndKill_watched])
qed

lemma reconcileForceDrain_watched:
  assumes "0 < MaxReconcileIntervalDuringActiveDrain r" "0 \<le> PodForceDeleteGracePeriod (nfd_Spec fd)"
    and "DeletionTimestamp fd = None"
  shows "follows (\<lambda>_ _. True) h (reconcileForceDrain L J r fd) (watched (MaxReconcileIntervalDuringActiveDrain r))"
proof -
  have listed: "follows (\<lambda>_ _. True) (h @ [ListNodes sel (Inr nodes)])
      (observeAndDrain L J r fd (filterDraining nodes) nsSel q) (watched (MaxReconcileIntervalDuringActiveDrain r))"
    for sel nodes nsSel q
  proof (cases "filterDraining nodes = []")
    case True
    have "follows (\<lambda>_ _. True) (h @ [ListNodes sel (Inr nodes)])
        (observeAndDrain L J r fd (filterDraining nodes) nsSel q) (\<lambda>res h'. \<exists>es. h' = (h @ [ListNodes sel (Inr nodes)]) @ es)"
      by (rule follows_extends [OF observeAndDrain_follows])
    then show ?thesis by (rule follows_mono) (use True in \<open>auto simp: watched_def noneDraining_def\<close>)
  next
    case False
    then show ?thesis using assms by (intro observeAndDrain_watched) auto
  qed
  show ?thesis unfolding reconcileForceDrain_def
    using assms(3) listed
    by (auto simp: watched_def intro!: follows_bind_call follows_ret split: sum.split)
qed

end
