(* ===== verification/Cluster_Properties.thy ===== *)
theory Cluster_Properties
  imports ClusterVersion_Controller SuspensionWindow_Controller ForceDrain_Controller Samples
begin

text \<open>
  The properties of the controllers of the cluster version, of the suspension windows and of forced
  drains, with small servers at which their hypotheses are discharged.
\<close>

section \<open>The cluster version\<close>

text \<open>C22: the upstream cluster version follows the managed one. Every write of it replaces the spec by the
  template with the overlay that applies at the time of the clock, and only when these differ; the
  desired update is the one that was read, so this controller never starts or stops an upgrade, and
  its metadata, the lock of an upgrade job included, stays as it was read. The status of the managed
  version is only written when it changes.\<close>

theorem ReconcileVersion_protocol:
  "allowed (versionProtocol L M r) [] (callsOf (ReconcileVersion L M r) s)"
  by (rule conjunct1 [OF follows_run [OF ReconcileVersion_follows]])

text \<open>C27: which overlay applies. Without an overlay whose time has come the template is used as it is;
  otherwise the overlay with the latest such time is merged into the template, and an error of the
  merge is returned.\<close>

theorem applyOverlay_spec:
  assumes "overlay_sort L"
  shows "case applyOverlay L M base overlays now of
      Inr (None, res) \<Rightarrow> res = base \<and> (\<forall>ov \<in> set overlays. now < ov_From ov)
    | Inr (Some ov, res) \<Rightarrow> ov \<in> set overlays \<and> ov_From ov \<le> now \<and> M base (ov_Spec ov) = Inr res
        \<and> (\<forall>o2 \<in> set overlays. ov_From o2 \<le> now \<longrightarrow> ov_From o2 \<le> ov_From ov)
    | Inl e \<Rightarrow> (\<exists>ov \<in> set overlays. M base (ov_Spec ov) = Inl e)"
proof (cases "firstApplicable now (rev (sortOverlaysByFrom L overlays))")
  case None
  moreover from this have "\<forall>ov \<in> set overlays. now < ov_From ov"
    by (simp only: overlay_sort.applyOverlay_None [OF assms])
  ultimately show ?thesis by (simp add: applyOverlay_def)
next
  case (Some ov)
  with overlay_sort.applyOverlay_latest [OF assms Some] show ?thesis
    by (cases "M base (ov_Spec ov)") (auto simp: applyOverlay_def)
qed

text \<open>A merge that takes the upstream address of the overlay, and a template with two overlays.\<close>

definition refMerge :: merge where
  "refMerge base over = Inr (base\<lparr>Upstream := Upstream over\<rparr>)"

definition upstreamSpec :: "string \<Rightarrow> ClusterVersionSpec" where
  "upstreamSpec u = (cv_Spec sampleVersion)\<lparr>Upstream := u\<rparr>"

definition sampleOverlays :: "ClusterVersionOverlayConfig list" where
  "sampleOverlays = [\<lparr>ov_From = 20, ov_Spec = upstreamSpec ''b''\<rparr>, \<lparr>ov_From = 10, ov_Spec = upstreamSpec ''a''\<rparr>,
     \<lparr>ov_From = 30, ov_Spec = upstreamSpec ''c''\<rparr>]"

theorem applyOverlay_spec_witness:
  "map_sum id (\<lambda>(ov, res). (map_option ov_From ov, Upstream res))
     (applyOverlay refLib refMerge (upstreamSpec '''') sampleOverlays 25) = Inr (Some 20, ''b'')
   \<and> (case applyOverlay refLib refMerge (upstreamSpec '''') sampleOverlays 25 of
        Inr (Some ov, res) \<Rightarrow> ov_From ov \<le> 25
      | _ \<Rightarrow> True)"
  using applyOverlay_spec [OF refLib_overlays.overlay_sort_axioms, where M = refMerge and base = "upstreamSpec ''''" and overlays = sampleOverlays and now = 25]
  by (intro conjI, code_simp) (auto split: sum.splits option.splits)

text \<open>After a run the controller asks to be run again at the earliest time an overlay starts to apply, and
  not at all when there is none.\<close>

theorem nextRequeue_spec:
  assumes "overlay_sort L"
  shows "nextRequeue L version now =
    (let later = {ov_From ov | ov. ov \<in> set (mcv_Overlays version) \<and> now < ov_From ov} in
     if later = {} then noRequeue else \<lparr>Requeue = True, RequeueAfter = timeSub (Min later) now\<rparr>)"
  by (rule overlay_sort.nextRequeue_earliest [OF assms])

definition managedVersion :: "ClusterVersionOverlayConfig list \<Rightarrow> ClusterVersionStatus \<Rightarrow> ManagedClusterVersion" where
  "managedVersion os st = ObjectMeta.extend (sampleMeta ''ns'' ''version'')
     \<lparr>mcv_Template = upstreamSpec '''', mcv_Overlays = os, mcv_Status = st\<rparr>"

definition noStatus :: ClusterVersionStatus where
  "noStatus = \<lparr>cvs_Current = upstreamSpec '''', cvs_Overlays = None, cvs_OverlayApplied = zeroTime\<rparr>"

theorem nextRequeue_spec_witness:
  "nextRequeue refLib (managedVersion sampleOverlays noStatus) 25 = \<lparr>Requeue = True, RequeueAfter = 5\<rparr>"
proof -
  have "{ov_From ov | ov. ov \<in> set (mcv_Overlays (managedVersion sampleOverlays noStatus)) \<and> 25 < ov_From ov} = {30}"
    by (force simp: managedVersion_def sampleOverlays_def ObjectMeta.extend_def sampleMeta_def)
  then show ?thesis
    unfolding nextRequeue_spec [OF refLib_overlays.overlay_sort_axioms]
    by (simp add: timeSub_def minDuration_def maxDuration_def)
qed

text \<open>Without overlays the status stored by a run is read back with a nil list, which the comparison takes for
  a change: every run sends the status again.\<close>

lemma updateStatus_repeats:
  "callsOf (updateStatus refMerge r None (upstreamSpec '''') (managedVersion [] noStatus)) s
     = [StatusUpdateManagedVersion (managedVersion [] (noStatus\<lparr>cvs_Overlays := Some []\<rparr>))
          (fst (cv_statusUpdate r (managedVersion [] (noStatus\<lparr>cvs_Overlays := Some []\<rparr>)) s))]"
  by (simp add: updateStatus_def callsOf_def noStatus_def managedVersion_def ObjectMeta.extend_def sampleMeta_def
      Let_def split: prod.splits)

section \<open>Suspension windows\<close>

text \<open>C33: the status of a suspension window. Whatever status is written is for the window that was read, and
  lists the names of the configs the API lists for the config selector and of the jobs it lists for
  the job selector that start within the window, both sorted.\<close>

theorem ReconcileWindow_protocol:
  assumes "sort_func (SortNames L)"
  shows "allowed (windowProtocol L req) [] (callsOf (ReconcileWindow L r req) s)"
  by (rule conjunct1 [OF follows_run [OF ReconcileWindow_follows [OF assms]]])

definition refWindowServer :: "cluster UpgradeSuspensionWindowReconciler" where
  "refWindowServer = \<lparr>
     usw_get = (\<lambda>nn s. (getObject (nn_Namespace nn) (nn_Name nn) (s_windows s), s)),
     usw_listConfigs = (\<lambda>sel s. (Inr [], s)),
     usw_listJobs = (\<lambda>sel s. (Inr (filter (\<lambda>j. Matches sel (Labels j)) (s_jobs s)), s)),
     usw_statusUpdate = (\<lambda>w s. case putObject w (s_windows s) of (res, ws) \<Rightarrow> (res, s\<lparr>s_windows := ws\<rparr>))\<rparr>"

theorem ReconcileWindow_protocol_witness:
  "map MatchingJobs (s_windows (storeOf (ReconcileWindow refLib refWindowServer
      \<lparr>nn_Namespace = ''ns'', nn_Name = ''window''\<rparr>) suspendedCluster)) = [[''job'']]
   \<and> allowed (windowProtocol refLib \<lparr>nn_Namespace = ''ns'', nn_Name = ''window''\<rparr>) []
      (callsOf (ReconcileWindow refLib refWindowServer \<lparr>nn_Namespace = ''ns'', nn_Name = ''window''\<rparr>) suspendedCluster)"
  by (rule conjI, code_simp, rule ReconcileWindow_protocol)
    (use sortBy.sort_func_axioms in \<open>simp add: refLib_def\<close>)

text \<open>A window lists the jobs it will skip. When the API lists only jobs the job selector matches, a job is
  listed in the status exactly when the window covers it at its start time, which is what makes the
  upgrade job controller skip it.\<close>

theorem window_lists_skipped_jobs:
  assumes "windowStatus usw configs jobs sent" and "LabelSelectorAsSelector L (JobSelector (usw_Spec usw)) = Inr jSel"
    and "\<forall>j \<in> set jobs. Matches jSel (Labels j)"
  shows "set (MatchingJobs sent) =
    Name ` {j \<in> set jobs. findWindow L JobSelector (Labels j) (StartAfter (uj_Spec j)) [usw] = Some usw}"
proof -
  have "findWindow L JobSelector ls t [usw] = Some usw \<longleftrightarrow> windowCovers L JobSelector ls t usw" for ls t
    by (auto simp: windowCovers_def split: sum.splits if_splits)
  with windowStatus_covers [OF assms] show ?thesis by simp
qed

theorem window_lists_skipped_jobs_witness:
  "Name ` {j \<in> set [sampleJob []]. findWindow refLib JobSelector (Labels j) (StartAfter (uj_Spec j)) [sampleWindow] = Some sampleWindow}
     = {''job''}"
proof -
  have "windowStatus sampleWindow [] [sampleJob []] (sampleWindow\<lparr>MatchingConfigs := [], MatchingJobs := [''job'']\<rparr>)"
    unfolding windowStatus_def
    by (intro exI [of _ "[]"] exI [of _ "[''job'']"])
      (simp add: sampleWindow_def sampleJob_def sampleSpec_def ObjectMeta.extend_def sampleMeta_def minute_def second_def)
  moreover have "LabelSelectorAsSelector refLib (JobSelector (usw_Spec sampleWindow))
      = Inr \<lparr>Matches = (\<lambda>ls. True), Empty = True\<rparr>"
    by (simp add: refLib_def refSelector_def sampleWindow_def sampleSelector_def ObjectMeta.extend_def sampleMeta_def)
  ultimately have "set (MatchingJobs (sampleWindow\<lparr>MatchingConfigs := [], MatchingJobs := [''job'']\<rparr>)) =
      Name ` {j \<in> set [sampleJob []]. findWindow refLib JobSelector (Labels j) (StartAfter (uj_Spec j)) [sampleWindow] = Some sampleWindow}"
    by (rule window_lists_skipped_jobs) simp
  then show ?thesis by simp
qed

section \<open>Forced drains\<close>

text \<open>C21: which pods a forced drain deletes. A pod is deleted only for an object that exists and is not being
  deleted, on a node its selector lists that is draining, when a drain of this node with its present
  id was observed and its grace period is over, and when the pod was listed on the node, is in a
  matching namespace, matches the JQ query, is not static and not of a daemon set that exists. It is
  deleted plainly when it is not terminating, with a grace period of one second when it is and its
  time is over; and each way is off when its grace period is zero. The status is only written to
  record that a draining node was observed.\<close>

theorem ReconcileForceDrain_protocol:
  "allowed (forceDrainProtocol L J req) [] (callsOf (ReconcileForceDrain L J r req) s)"
  by (rule conjunct1 [OF follows_run [OF ReconcileForceDrain_follows]])

text \<open>C29: the deadlines. For a grace period that is not negative and an observation that is not in the future
  the 64 bit arithmetic is exact: the drain of a node is forced from the observed time plus the grace
  period on. For times within 73 years of each other the time until a pod is killed is its deletion
  timestamp less its own grace period plus the configured one, counted from now.\<close>

theorem drain_deadlines:
  assumes "0 \<le> NodeDrainGracePeriod (nfd_Spec fd)" "int64 (NodeDrainGracePeriod (nfd_Spec fd))" "ObservedTime ld \<le> now"
    and "\<bar>dt - now\<bar> \<le> 2 ^ 61" "0 \<le> g" "g \<le> 2 ^ 61"
    and "case DeletionGracePeriodSeconds pod of None \<Rightarrow> True | Some n \<Rightarrow> 0 \<le> n \<and> n * second \<le> 2 ^ 61"
  shows "(timeUntilDrain ld fd now \<le> 0 \<longleftrightarrow> ObservedTime ld + NodeDrainGracePeriod (nfd_Spec fd) \<le> now)
    \<and> timeUntilForceDelete pod dt g now
      = dt - now - (case DeletionGracePeriodSeconds pod of None \<Rightarrow> 0 | Some n \<Rightarrow> n) * second + g"
  using timeUntilDrain_exact [OF assms(1-3)] timeUntilForceDelete_exact [OF assms(4-7)] by blast

definition forceDrain :: "ObservedNodeDrain list \<Rightarrow> NodeForceDrain" where
  "forceDrain os = ObjectMeta.extend (sampleMeta ''ns'' ''drain'')
     \<lparr>nfd_Spec = \<lparr>NodeSelector = sampleSelector, NamespaceSelector = sampleSelector, PodJQSelector = '''',
        NodeDrainGracePeriod = 10 * minute, PodForceDeleteGracePeriod = 5 * minute\<rparr>,
      LastObservedNodeDrain = os\<rparr>"

definition samplePod :: "string \<Rightarrow> time option \<Rightarrow> Pod" where
  "samplePod n deleted = ObjectMeta.extend ((sampleMeta ''ns'' n)\<lparr>DeletionTimestamp := deleted, DeletionGracePeriodSeconds := Some 30\<rparr>)
     \<lparr>pod_Rest = JNull\<rparr>"

definition sampleNode :: "string \<Rightarrow> string \<Rightarrow> Node" where
  "sampleNode n drain = (sampleMeta '''' n)\<lparr>Annotations := [DesiredDrainerAnnotationKey \<mapsto> drain, LastAppliedDrainerAnnotationKey \<mapsto> ''id'']\<rparr>"

theorem drain_deadlines_witness:
  "timeUntilDrain \<lparr>NodeName = ''n'', LastAppliedDrain = ''id'', ObservedTime = 0\<rparr> (forceDrain []) (11 * minute) \<le> 0
   \<and> timeUntilForceDelete (samplePod ''p'' None) 0 minute 0 = 30 * second"
  using drain_deadlines [of "forceDrain []" "\<lparr>NodeName = ''n'', LastAppliedDrain = ''id'', ObservedTime = 0\<rparr>" "11 * minute"
      "11 * minute" minute "samplePod ''p'' None"]
    drain_deadlines [of "forceDrain []" "\<lparr>NodeName = ''n'', LastAppliedDrain = ''id'', ObservedTime = 0\<rparr>" 0 0 minute "samplePod ''p'' None"]
  by (simp add: forceDrain_def samplePod_def ObjectMeta.extend_def sampleMeta_def minute_def second_def int64_def
      minDuration_def maxDuration_def)

record drainStore =
  ds_time :: time
  ds_drain :: "NodeForceDrain option"
  ds_nodes :: "Node list"
  ds_pods :: "Pod list"

definition refDrainServer :: "drainStore NodeForceDrainReconciler" where
  "refDrainServer = \<lparr>
     fd_get = (\<lambda>nn s. (case ds_drain s of None \<Rightarrow> Inl (ApiError NotFound (nn_Name nn)) | Some fd \<Rightarrow> Inr fd, s)),
     fd_list = (\<lambda>s. (Inr (case ds_drain s of None \<Rightarrow> [] | Some fd \<Rightarrow> [fd]), s)),
     fd_statusUpdate = (\<lambda>fd s. case ds_drain s of
         None \<Rightarrow> (Inl (ApiError NotFound (Name fd)), s)
       | Some _ \<Rightarrow> (Inr fd, s\<lparr>ds_drain := Some fd\<rparr>)),
     fd_listNodes = (\<lambda>sel s. (Inr (filter (\<lambda>n. Matches sel (Labels n)) (ds_nodes s)), s)),
     fd_listPods = (\<lambda>n s. (Inr (ds_pods s), s)),
     fd_getNamespace = (\<lambda>n s. (Inr (sampleMeta '''' n), s)),
     fd_getDaemonSet = (\<lambda>nn s. (Inl (ApiError NotFound (nn_Name nn)), s)),
     fd_deletePod = (\<lambda>pod g s. (None, s\<lparr>ds_pods := filter (\<lambda>p. Name p \<noteq> Name pod) (ds_pods s)\<rparr>)),
     fd_event = (\<lambda>n rsn msg s. ((), s)),
     fd_count = (\<lambda>ls s. ((), s)),
     fd_now = (\<lambda>s. (ds_time s, s)),
     MaxReconcileIntervalDuringActiveDrain = minute\<rparr>"

definition refJq :: jq_lib where
  "refJq = \<lparr>JqParse = (\<lambda>_. Inr (\<lambda>_. [JqBool True])), MarshalPod = (\<lambda>_. Inr ''''), UnmarshalAny = (\<lambda>_. Inr JNull)\<rparr>"

definition drainingStore :: drainStore where
  "drainingStore = \<lparr>ds_time = 20 * minute,
     ds_drain = Some (forceDrain [\<lparr>NodeName = ''n'', LastAppliedDrain = ''id'', ObservedTime = 0\<rparr>]),
     ds_nodes = [sampleNode ''n'' ''new''], ds_pods = [samplePod ''a'' None, samplePod ''b'' (Some minute)]\<rparr>"



text \<open>The JQ selector. A pod matches when the query yields true before its first error; values that are no
  booleans are ignored.\<close>

lemma jqLoop_spec:
  "jqLoop m vs \<longleftrightarrow> m \<or> JqBool True \<in> set (takeWhile (\<lambda>v. case v of JqError _ \<Rightarrow> False | _ \<Rightarrow> True) vs)"
  by (induction m vs rule: jqLoop.induct) auto

theorem podJQQueryMatches_spec:
  "podJQQueryMatches J pod query = (case MarshalPod J pod of
     Inl e \<Rightarrow> Inl (Errorf ''failed to convert pod to raw JSON (marshal)'' e)
   | Inr bytes \<Rightarrow> (case UnmarshalAny J bytes of
       Inl e \<Rightarrow> Inl (Errorf ''failed to convert pod to raw JSON (unmarshal)'' e)
     | Inr raw \<Rightarrow> Inr (JqBool True \<in> set (takeWhile (\<lambda>v. case v of JqError _ \<Rightarrow> False | _ \<Rightarrow> True) (query raw)))))"
  by (simp add: podJQQueryMatches_def jqLoop_spec split: sum.split)

lemma distinct_update:
  assumes "distinct (map NodeName os)" and "indexFunc (\<lambda>ob. NodeName ob = n) os = Some i" and "NodeName new = n"
  shows "distinct (map NodeName (os[i := new]))"
proof -
  from indexFunc_Some [OF assms(2)] have i: "i < length os" "NodeName (os ! i) = n" by simp_all
  then have "map NodeName (os[i := new]) = map NodeName os"
    using assms(3) by (simp add: map_update list_update_same_conv)
  with assms(1) show ?thesis by simp
qed

lemma spec_setLastObserved_distinct:
  assumes "distinct (map NodeName (LastObservedNodeDrain fd))"
  shows "spec (setLastObservedNodeDrain r fd n d) (\<lambda>x es. distinct (map NodeName (LastObservedNodeDrain (fst x))))"
proof (cases "indexFunc (\<lambda>ob. NodeName ob = n) (LastObservedNodeDrain fd)")
  case None
  moreover from this have "n \<notin> NodeName ` set (LastObservedNodeDrain fd)" by (auto simp: indexFunc_None)
  ultimately show ?thesis using assms
    by (auto simp: setLastObservedNodeDrain_def intro!: spec_bind_call spec_ret)
next
  case (Some i)
  with indexFunc_Some [OF Some] distinct_update [OF assms Some] assms show ?thesis
    by (auto simp: setLastObservedNodeDrain_def intro!: spec_bind_call spec_ret)
qed

text \<open>The observed drains stay a table: recording drains keeps at most one entry per node.\<close>

theorem observeDrains_distinct:
  assumes "distinct (map NodeName (LastObservedNodeDrain fd))"
  shows "distinct (map NodeName (LastObservedNodeDrain (fst (resultOf (observeDrains r nodes fd changed) s))))"
proof -
  have "spec (observeDrains r nodes fd changed) (\<lambda>x es. distinct (map NodeName (LastObservedNodeDrain (fst x))))"
    using assms
  proof (induction nodes arbitrary: fd changed)
    case (Cons node nodes)
    then show ?case
      by (auto intro!: spec_bind [OF spec_setLastObserved_distinct])
  qed (simp add: spec_ret)
  from spec_run [OF this, of s] show ?thesis .
qed

theorem observeDrains_distinct_witness:
  "map NodeName (LastObservedNodeDrain (fst (resultOf (observeDrains refDrainServer [sampleNode ''n'' ''new'', sampleNode ''m'' ''new'']
      (forceDrain []) False) drainingStore))) = [''n'']
   \<and> distinct (map NodeName (LastObservedNodeDrain (fst (resultOf (observeDrains refDrainServer [sampleNode ''n'' ''new'', sampleNode ''m'' ''new'']
      (forceDrain []) False) drainingStore))))"
  by (rule conjI, code_simp, rule observeDrains_distinct)
    (simp add: forceDrain_def ObjectMeta.extend_def sampleMeta_def)

text \<open>When the object is gone, the handler goes on with the zero value, whose empty selector lists every node:
  while any node drains, every run fails to write a status.\<close>

lemma deleted_force_drain_fails:
  "resultOf (ReconcileForceDrain refLib refJq refDrainServer \<lparr>nn_Namespace = ''ns'', nn_Name = ''drain''\<rparr>)
     (drainingStore\<lparr>ds_drain := None\<rparr>)
   = Inl (Errorf ''failed to update LastObservedNodeDrain status'' (ApiError NotFound ''''))"
  by code_simp

end
