(* ===== verification/Lock_Exclusion.thy ===== *)
theory Lock_Exclusion
  imports UpgradeJob_Properties ClusterVersion_Controller
begin

text \<open>
  Several upgrade jobs, the cluster version controller and other writers share one cluster version.
  Their calls interleave, a read may return any version stored so far (the client reads from a
  cache), and the API server accepts an update only when it carries the resource version that is
  stored, and then stores it under a new one. In every interleaving of runs of the handlers the lock
  works: it passes only from nobody to a job by that job, and back, and only the job that holds it
  starts an upgrade.
\<close>

section \<open>The shared cluster version\<close>

text \<open>All stored versions, the present one first, and the calls of the unfinished run of every job and of the
  cluster version controller.\<close>

record shared =
  versions :: "ClusterVersion list"
  jobCalls :: "NamespacedName \<Rightarrow> ujCall list"
  versionCalls :: "cvCall list"

datatype agent = JobAgent NamespacedName | VersionAgent | OtherAgent

definition lockOn :: "ClusterVersion \<Rightarrow> string option" where
  "lockOn cv = Annotations cv JobLockAnnotation"

abbreviation current :: "shared \<Rightarrow> ClusterVersion" where
  "current a \<equiv> hd (versions a)"

text \<open>The server accepts an update of the present version and stores it under a fresh resource version.\<close>

definition accepts :: "ClusterVersion list \<Rightarrow> ClusterVersion \<Rightarrow> ClusterVersion \<Rightarrow> bool" where
  "accepts vs cv cv' \<longleftrightarrow> vs \<noteq> [] \<and> ResourceVersion cv = ResourceVersion (hd vs)
     \<and> Annotations cv' = Annotations cv \<and> cv_Spec cv' = cv_Spec cv
     \<and> ResourceVersion cv' \<notin> ResourceVersion ` set vs"

text \<open>The effect of a call on the stored versions.\<close>

fun jobEffect :: "ClusterVersion list \<Rightarrow> ujCall \<Rightarrow> ClusterVersion list \<Rightarrow> bool" where
  "jobEffect vs (GetClusterVersion n (Inr cv)) vs' \<longleftrightarrow> vs' = vs \<and> cv \<in> set vs"
| "jobEffect vs (UpdateClusterVersion cv (Inr cv')) vs' \<longleftrightarrow> accepts vs cv cv' \<and> vs' = cv' # vs"
| "jobEffect vs e vs' \<longleftrightarrow> vs' = vs"

fun versionEffect :: "ClusterVersion list \<Rightarrow> cvCall \<Rightarrow> ClusterVersion list \<Rightarrow> bool" where
  "versionEffect vs (GetUpstreamVersion n (Inr cv)) vs' \<longleftrightarrow> vs' = vs \<and> cv \<in> set vs"
| "versionEffect vs (UpdateUpstreamVersion cv (Inr cv')) vs' \<longleftrightarrow> accepts vs cv cv' \<and> vs' = cv' # vs"
| "versionEffect vs e vs' \<longleftrightarrow> vs' = vs"

text \<open>The steps: a run starts, a run makes its next call, or another writer updates the version without
  touching the lock and the desired update, as the cluster version operator does.\<close>

inductive sharedStep ::
  "(NamespacedName \<Rightarrow> ujCall list \<Rightarrow> bool) \<Rightarrow> (cvCall list \<Rightarrow> bool) \<Rightarrow> agent \<Rightarrow> shared \<Rightarrow> shared \<Rightarrow> bool"
  for jobRuns versionRuns
where
  startJob: "sharedStep jobRuns versionRuns (JobAgent req) a (a\<lparr>jobCalls := (jobCalls a)(req := [])\<rparr>)"
| callJob: "jobRuns req (jobCalls a req @ e # es) \<Longrightarrow> jobEffect (versions a) e vs \<Longrightarrow>
    sharedStep jobRuns versionRuns (JobAgent req) a
      (a\<lparr>versions := vs, jobCalls := (jobCalls a)(req := jobCalls a req @ [e])\<rparr>)"
| startVersion: "sharedStep jobRuns versionRuns VersionAgent a (a\<lparr>versionCalls := []\<rparr>)"
| callVersion: "versionRuns (versionCalls a @ e # es) \<Longrightarrow> versionEffect (versions a) e vs \<Longrightarrow>
    sharedStep jobRuns versionRuns VersionAgent a
      (a\<lparr>versions := vs, versionCalls := versionCalls a @ [e]\<rparr>)"
| otherWrite: "accepts (versions a) cv cv' \<Longrightarrow> lockOn cv = lockOn (current a)
    \<Longrightarrow> DesiredUpdate (cv_Spec cv) = DesiredUpdate (cv_Spec (current a)) \<Longrightarrow>
    sharedStep jobRuns versionRuns OtherAgent a (a\<lparr>versions := cv' # versions a\<rparr>)"

inductive sharedReachable ::
  "(NamespacedName \<Rightarrow> ujCall list \<Rightarrow> bool) \<Rightarrow> (cvCall list \<Rightarrow> bool) \<Rightarrow> shared \<Rightarrow> bool"
  for jobRuns versionRuns
where
  initial: "sharedReachable jobRuns versionRuns \<lparr>versions = [cv], jobCalls = (\<lambda>_. []), versionCalls = []\<rparr>"
| step: "sharedReachable jobRuns versionRuns a \<Longrightarrow> sharedStep jobRuns versionRuns ag a a'
    \<Longrightarrow> sharedReachable jobRuns versionRuns a'"

section \<open>Every agent writes what it read\<close>

text \<open>The laws the handlers keep: each write starts from a version the same run was given.\<close>

definition versionRead :: "cvCall list \<Rightarrow> ClusterVersion \<Rightarrow> bool" where
  "versionRead h cv \<longleftrightarrow> (\<exists>n. GetUpstreamVersion n (Inr cv) \<in> set h)"

locale lock_agents =
  fixes jobRuns :: "NamespacedName \<Rightarrow> ujCall list \<Rightarrow> bool" and versionRuns :: "cvCall list \<Rightarrow> bool"
  assumes job_discipline: "jobRuns req (h @ UpdateClusterVersion cv res # es) \<Longrightarrow>
      \<exists>base. cvRead h base \<and> lockWrite (lockOf req) base cv"
    and version_discipline: "versionRuns (vh @ UpdateUpstreamVersion cv vres # ves) \<Longrightarrow>
      \<exists>base. versionRead vh base \<and> ResourceVersion cv = ResourceVersion base \<and> Annotations cv = Annotations base
        \<and> DesiredUpdate (cv_Spec cv) = DesiredUpdate (cv_Spec base)"
begin

text \<open>Resource versions name versions, and what a run knows was stored.\<close>

definition sound :: "shared \<Rightarrow> bool" where
  "sound a \<longleftrightarrow> versions a \<noteq> [] \<and> distinct (map ResourceVersion (versions a))
     \<and> (\<forall>req cv. cvRead (jobCalls a req) cv \<longrightarrow> cv \<in> set (versions a))
     \<and> (\<forall>cv. versionRead (versionCalls a) cv \<longrightarrow> cv \<in> set (versions a))"

lemma sound_current:
  assumes "sound a" and "base \<in> set (versions a)" and "ResourceVersion base = ResourceVersion (current a)"
  shows "base = current a"
proof -
  from assms(1) obtain v vs where "versions a = v # vs" by (cases "versions a") (auto simp: sound_def)
  with assms show ?thesis by (auto simp: sound_def dest: image_eqI [of "ResourceVersion v" ResourceVersion, OF sym])
qed

lemma jobEffect_versions: "jobEffect vs e vs' \<Longrightarrow> vs' = vs \<or> (\<exists>cv cv'. e = UpdateClusterVersion cv (Inr cv') \<and> accepts vs cv cv' \<and> vs' = cv' # vs)"
  by (cases "(vs, e, vs')" rule: jobEffect.cases) auto

lemma versionEffect_versions: "versionEffect vs e vs' \<Longrightarrow> vs' = vs \<or> (\<exists>cv cv'. e = UpdateUpstreamVersion cv (Inr cv') \<and> accepts vs cv cv' \<and> vs' = cv' # vs)"
  by (cases "(vs, e, vs')" rule: versionEffect.cases) auto

lemma cvRead_step: "jobEffect vs e vs' \<Longrightarrow> cvRead (h @ [e]) cv \<Longrightarrow> cvRead h cv \<or> cv \<in> set vs'"
  by (auto simp: cvRead_def)

lemma versionRead_step: "versionEffect vs e vs' \<Longrightarrow> versionRead (h @ [e]) cv \<Longrightarrow> versionRead h cv \<or> cv \<in> set vs'"
  by (auto simp: versionRead_def)

lemma sound_step:
  assumes "sound a" and "sharedStep jobRuns versionRuns ag a a'"
  shows "sound a'"
  using assms(2)
proof cases
  case (callJob req e es vs)
  have "set (versions a) \<subseteq> set vs" "vs \<noteq> []" "distinct (map ResourceVersion vs)"
    using jobEffect_versions [OF callJob(4)] assms(1) by (auto simp: sound_def accepts_def)
  then show ?thesis using callJob assms(1) cvRead_step [OF callJob(4)] by (fastforce simp: sound_def)
next
  case (callVersion e es vs)
  have "set (versions a) \<subseteq> set vs" "vs \<noteq> []" "distinct (map ResourceVersion vs)"
    using versionEffect_versions [OF callVersion(4)] assms(1) by (auto simp: sound_def accepts_def)
  then show ?thesis using callVersion assms(1) versionRead_step [OF callVersion(4)] by (fastforce simp: sound_def)
qed (use assms(1) in \<open>auto simp: sound_def cvRead_def versionRead_def accepts_def\<close>)

lemma sound_reachable: "sharedReachable jobRuns versionRuns a \<Longrightarrow> sound a"
proof (induction rule: sharedReachable.induct)
  case (initial cv)
  show ?case by (simp add: sound_def cvRead_def versionRead_def)
qed (rule sound_step)

text \<open>What a step does to the present version.\<close>

lemma step_current:
  assumes "sound a" and "sharedStep jobRuns versionRuns ag a a'"
  shows "current a' = current a
    \<or> (\<exists>req cv. ag = JobAgent req \<and> lockWrite (lockOf req) (current a) cv
         \<and> lockOn (current a') = lockOn cv \<and> cv_Spec (current a') = cv_Spec cv)
    \<or> (\<not> (\<exists>req. ag = JobAgent req) \<and> lockOn (current a') = lockOn (current a)
         \<and> DesiredUpdate (cv_Spec (current a')) = DesiredUpdate (cv_Spec (current a)))"
  using assms(2)
proof cases
  case (callJob req e es vs)
  show ?thesis using jobEffect_versions [OF callJob(4)]
  proof (elim disjE exE conjE)
    fix cv cv' assume e: "e = UpdateClusterVersion cv (Inr cv')" and acc: "accepts (versions a) cv cv'" and vs: "vs = cv' # versions a"
    from job_discipline [OF callJob(3) [unfolded e]] obtain base where base: "cvRead (jobCalls a req) base"
      and w: "lockWrite (lockOf req) base cv" by blast
    have "ResourceVersion base = ResourceVersion cv"
      using w by (auto simp: lockWrite_def takesLock_def dropsLock_def setsDesired_def)
    with acc have "base = current a" using base assms(1)
      by (intro sound_current) (auto simp: accepts_def sound_def)
    with w acc vs callJob show ?thesis by (auto simp: lockOn_def accepts_def)
  qed (use callJob in simp)
next
  case (callVersion e es vs)
  show ?thesis using versionEffect_versions [OF callVersion(4)]
  proof (elim disjE exE conjE)
    fix cv cv' assume e: "e = UpdateUpstreamVersion cv (Inr cv')" and acc: "accepts (versions a) cv cv'" and vs: "vs = cv' # versions a"
    from version_discipline [OF callVersion(3) [unfolded e]] obtain base where base: "versionRead (versionCalls a) base"
      and w: "ResourceVersion cv = ResourceVersion base" "Annotations cv = Annotations base"
        "DesiredUpdate (cv_Spec cv) = DesiredUpdate (cv_Spec base)" by blast
    with acc have "base = current a" using assms(1)
      by (intro sound_current) (auto simp: accepts_def sound_def)
    with w acc vs callVersion show ?thesis by (auto simp: lockOn_def accepts_def)
  qed (use callVersion in simp)
next
  case (otherWrite cv cv')
  then show ?thesis by (auto simp: lockOn_def accepts_def)
qed auto

lemma lock_steps:
  assumes "sharedReachable jobRuns versionRuns a" and "sharedStep jobRuns versionRuns ag a a'"
  shows "lockOn (current a') = lockOn (current a)
    \<or> (\<exists>req. ag = JobAgent req \<and> ({lockOn (current a), lockOn (current a')} = {None, Some (lockOf req)}))"
  using step_current [OF sound_reachable [OF assms(1)] assms(2)]
  by (auto simp: lockWrite_def takesLock_def dropsLock_def setsDesired_def lockHeld_def lockOn_def)

lemma upgrade_steps:
  assumes "sharedReachable jobRuns versionRuns a" and "sharedStep jobRuns versionRuns ag a a'"
  shows "DesiredUpdate (cv_Spec (current a')) = DesiredUpdate (cv_Spec (current a))
    \<or> (\<exists>req. ag = JobAgent req \<and> lockOn (current a) = Some (lockOf req) \<and> lockOn (current a') = Some (lockOf req))"
  using step_current [OF sound_reachable [OF assms(1)] assms(2)]
  by (auto simp: lockWrite_def takesLock_def dropsLock_def setsDesired_def lockHeld_def lockOn_def)

end

section \<open>The handlers\<close>

text \<open>The calls of the runs of the two handlers, against any API that keeps its laws and from any store.\<close>

definition reconcileRun :: "'s itself \<Rightarrow> 'z lib_scheme \<Rightarrow> NamespacedName \<Rightarrow> ujCall list \<Rightarrow> bool" where
  "reconcileRun T L req es \<longleftrightarrow> (\<exists>(r :: 's UpgradeJobReconciler) s. reconcile_api r L \<and> es = callsOf (Reconcile L r req) s)"

definition versionRun :: "'t itself \<Rightarrow> 'z lib_scheme \<Rightarrow> merge \<Rightarrow> cvCall list \<Rightarrow> bool" where
  "versionRun T L M es \<longleftrightarrow> (\<exists>(r :: 't ClusterVersionReconciler) s. es = callsOf (ReconcileVersion L M r) s)"

lemma reconcileRun_discipline:
  fixes T :: "'s itself"
  assumes "reconcileRun T L req (h @ UpdateClusterVersion cv res # es)"
  shows "\<exists>base. cvRead h base \<and> lockWrite (lockOf req) base cv"
  using assms unfolding reconcileRun_def
proof (elim exE conjE)
  fix r :: "'s UpgradeJobReconciler" and s
  assume "reconcile_api r L" and run: "h @ UpdateClusterVersion cv res # es = callsOf (Reconcile L r req) s"
  from Reconcile_lock_allowed [OF this(1), of req s]
  have "lockProtocol (lockOf req) ([] @ h) (UpdateClusterVersion cv res)"
    unfolding run [symmetric] by (rule allowed_split)
  then show ?thesis by (simp add: lockProtocol_def)
qed

lemma versionRun_discipline:
  fixes T :: "'t itself"
  assumes "versionRun T L M (h @ UpdateUpstreamVersion cv res # es)"
  shows "\<exists>base. versionRead h base \<and> ResourceVersion cv = ResourceVersion base \<and> Annotations cv = Annotations base
    \<and> DesiredUpdate (cv_Spec cv) = DesiredUpdate (cv_Spec base)"
  using assms unfolding versionRun_def
proof (elim exE)
  fix r :: "'t ClusterVersionReconciler" and s
  assume run: "h @ UpdateUpstreamVersion cv res # es = callsOf (ReconcileVersion L M r) s"
  have "allowed (versionProtocol L M r) [] (callsOf (ReconcileVersion L M r) s)"
    by (rule conjunct1 [OF follows_run [OF ReconcileVersion_follows]])
  then have "versionProtocol L M r ([] @ h) (UpdateUpstreamVersion cv res)"
    unfolding run [symmetric] by (rule allowed_split)
  then show ?thesis by (auto simp: versionProtocol_def versionRead_def)
qed

interpretation handlers: lock_agents "reconcileRun T L" "versionRun T2 L2 M" for T L T2 L2 M
  by unfold_locales (rule reconcileRun_discipline, assumption, rule versionRun_discipline, assumption)

text \<open>C1: mutual exclusion of upgrade jobs. In every interleaving of the runs of any number of upgrade jobs, of
  the cluster version controller and of other writers, with stale reads, the lock changes only by a
  step of an upgrade job, and then from free to this job or from this job to free. So a job that
  holds the lock keeps it until it gives it back itself.\<close>

theorem lock_passes_by_owner:
  assumes "sharedReachable (reconcileRun T L) (versionRun T2 L2 M) a"
    and "sharedStep (reconcileRun T L) (versionRun T2 L2 M) ag a a'"
  shows "lockOn (current a') = lockOn (current a)
    \<or> (\<exists>req. ag = JobAgent req \<and> {lockOn (current a), lockOn (current a')} = {None, Some (lockOf req)})"
  by (rule handlers.lock_steps [OF assms])

text \<open>C2: one upgrade at a time. In every such interleaving the desired update of the cluster version changes
  only by a step of the upgrade job that holds the lock, which keeps it in this step.\<close>

theorem upgrade_by_lock_holder:
  assumes "sharedReachable (reconcileRun T L) (versionRun T2 L2 M) a"
    and "sharedStep (reconcileRun T L) (versionRun T2 L2 M) ag a a'"
  shows "DesiredUpdate (cv_Spec (current a')) = DesiredUpdate (cv_Spec (current a))
    \<or> (\<exists>req. ag = JobAgent req \<and> lockOn (current a) = Some (lockOf req) \<and> lockOn (current a') = Some (lockOf req))"
  by (rule handlers.upgrade_steps [OF assms])

text \<open>Two runs against the quiet server: a started job takes the free lock, and a job that holds the lock
  and whose health checks are done starts the upgrade.\<close>

lemma calls_known:
  assumes "sharedReachable jobRuns versionRuns a" and "jobRuns req (jobCalls a req @ h @ es)"
    and "\<forall>e \<in> set h. jobEffect (versions a) e (versions a)"
  shows "sharedReachable jobRuns versionRuns (a\<lparr>jobCalls := (jobCalls a)(req := jobCalls a req @ h)\<rparr>)"
  using assms
proof (induction h arbitrary: a)
  case (Cons e h)
  let ?a = "a\<lparr>jobCalls := (jobCalls a)(req := jobCalls a req @ [e])\<rparr>"
  have "sharedStep jobRuns versionRuns (JobAgent req) a
      (a\<lparr>versions := versions a, jobCalls := (jobCalls a)(req := jobCalls a req @ [e])\<rparr>)"
    by (rule callJob [where es = "h @ es"]) (use Cons.prems in auto)
  then have "sharedReachable jobRuns versionRuns ?a" by (intro step [OF Cons.prems(1)]) simp
  from Cons.IH [OF this] Cons.prems show ?case by (simp cong: if_cong)
qed simp

text \<open>The state of the sample job's run after some calls; no other agent is at work.\<close>

definition runState :: "ClusterVersion list \<Rightarrow> ujCall list \<Rightarrow> shared" where
  "runState vs h = \<lparr>versions = vs, jobCalls = (\<lambda>_. [])(sampleRequest := h), versionCalls = []\<rparr>"

abbreviation quietRuns :: "NamespacedName \<Rightarrow> ujCall list \<Rightarrow> bool" where
  "quietRuns \<equiv> reconcileRun TYPE(unit) refLib"

abbreviation noVersionRuns :: "cvCall list \<Rightarrow> bool" where
  "noVersionRuns \<equiv> versionRun TYPE(unit) refLib (\<lambda>a b. Inr b)"

lemma quiet_reachable:
  assumes "callsOf (Reconcile refLib (quietServer uj cv) sampleRequest) () = h @ es"
    and "\<forall>e \<in> set h. jobEffect [cv] e [cv]"
  shows "sharedReachable quietRuns noVersionRuns (runState [cv] h)"
proof -
  have "quietRuns sampleRequest (h @ es)"
    unfolding reconcileRun_def using quietServer_api assms(1) by metis
  then show ?thesis
    using calls_known [OF initial [where cv = cv], where req = sampleRequest and h = h and es = es] assms(2)
    by (simp add: runState_def)
qed

lemma quiet_step:
  assumes "callsOf (Reconcile refLib (quietServer uj cv) sampleRequest) () = h @ e # es" and "jobEffect [cv] e vs"
  shows "sharedStep quietRuns noVersionRuns (JobAgent sampleRequest) (runState [cv] h) (runState vs (h @ [e]))"
proof -
  have "quietRuns sampleRequest (h @ e # es)"
    unfolding reconcileRun_def using quietServer_api assms(1) by metis
  with callJob [where a = "runState [cv] h" and req = sampleRequest and e = e and es = es and vs = vs
      and jobRuns = quietRuns and versionRuns = noVersionRuns] assms(2)
  show ?thesis by (simp add: runState_def)
qed

definition readCalls :: "UpgradeJob \<Rightarrow> ClusterVersion \<Rightarrow> ujCall list" where
  "readCalls uj cv = [GetUpgradeJob sampleRequest (Inr uj),
     ListJobs ''ns'' [hookJobTrackingLabelUpgradeJob \<mapsto> ''job''] (Inr []), GetUpgradeJob sampleRequest (Inr uj),
     ListHooks ''ns'' (Inr []), Now minute, ListHooks ''ns'' (Inr []), GetClusterVersion ''version'' (Inr cv)]"

lemma taking_calls:
  "\<exists>es. callsOf (Reconcile refLib (quietServer startedSample sampleVersion) sampleRequest) ()
     = readCalls startedSample sampleVersion @ UpdateClusterVersion lockedVersion (Inr (bump lockedVersion)) # es"
  by (simp add: run_evaluation readCalls_def lockedVersion_def)

definition upgradingVersion :: ClusterVersion where
  "upgradingVersion = lockedVersion\<lparr>cv_Spec := (cv_Spec lockedVersion)\<lparr>DesiredUpdate := Some sampleUpdate\<rparr>\<rparr>"

lemma setting_calls:
  "\<exists>u v es. callsOf (Reconcile refLib (quietServer checkedSample lockedVersion) sampleRequest) ()
     = (readCalls checkedSample lockedVersion @ [Now minute, StatusUpdateUpgradeJob u (Inr v)])
       @ UpdateClusterVersion upgradingVersion (Inr (bump upgradingVersion)) # es"
  by (simp add: run_evaluation readCalls_def driveUpgrade_def GetDesiredVersionCheckAvailability_def sampleUpdate_def
      upgradingVersion_def)

lemma bump_accepted:
  assumes "ResourceVersion cv = ''1''" "ResourceVersion cv' = ''1''"
  shows "jobEffect [cv] (UpdateClusterVersion cv' (Inr (bump cv'))) [bump cv', cv]"
  using assms by (simp add: accepts_def bump_def)

theorem lock_passes_by_owner_witness:
  "lockOn sampleVersion = None \<and> lockOn (bump lockedVersion) = Some ''ns/job''
   \<and> (\<exists>req. {lockOn sampleVersion, lockOn (bump lockedVersion)} = {None, Some (lockOf req)})"
proof -
  from taking_calls obtain es where calls: "callsOf (Reconcile refLib (quietServer startedSample sampleVersion) sampleRequest) ()
     = readCalls startedSample sampleVersion @ UpdateClusterVersion lockedVersion (Inr (bump lockedVersion)) # es" by blast
  have reach: "sharedReachable quietRuns noVersionRuns (runState [sampleVersion] (readCalls startedSample sampleVersion))"
    by (rule quiet_reachable [OF calls]) (auto simp: readCalls_def)
  from lock_passes_by_owner [OF reach quiet_step [OF calls bump_accepted]]
  show ?thesis by (auto simp: runState_def lockOn_def)
qed

theorem upgrade_by_lock_holder_witness:
  "DesiredUpdate (cv_Spec (bump upgradingVersion)) = Some sampleUpdate
    \<and> (\<exists>req. lockOn lockedVersion = Some (lockOf req) \<and> lockOn (bump upgradingVersion) = Some (lockOf req))"
proof -
  from setting_calls obtain u v es where calls: "callsOf (Reconcile refLib (quietServer checkedSample lockedVersion) sampleRequest) ()
     = (readCalls checkedSample lockedVersion @ [Now minute, StatusUpdateUpgradeJob u (Inr v)])
       @ UpdateClusterVersion upgradingVersion (Inr (bump upgradingVersion)) # es" by blast
  have reach: "sharedReachable quietRuns noVersionRuns
      (runState [lockedVersion] (readCalls checkedSample lockedVersion @ [Now minute, StatusUpdateUpgradeJob u (Inr v)]))"
    by (rule quiet_reachable [OF calls]) (auto simp: readCalls_def)
  have rv: "ResourceVersion upgradingVersion = ''1''" by (simp add: upgradingVersion_def)
  have "DesiredUpdate (cv_Spec (bump upgradingVersion)) = Some sampleUpdate" by (simp add: upgradingVersion_def)
  with upgrade_by_lock_holder [OF reach quiet_step [OF calls bump_accepted [OF _ rv]]]
  show ?thesis by (auto simp: runState_def)
qed

end
