(* ===== verification/Hook_Exclusion.thy ===== *)
theory Hook_Exclusion
  imports Lock_Exclusion
begin

text \<open>
  A hook that runs for the next upgrade job only. Any number of upgrade jobs reconcile at once, each lists hooks from a
  cache that may be stale, and claims what it may run by an update of the status of the hook, which the API server accepts
  only when it carries the resource version that is stored. In every interleaving all batch jobs created for such a hook
  are created for one upgrade job, the one whose claim is stored.
\<close>

section \<open>The shared hook\<close>

definition hookId :: "('a ObjectMeta_scheme) \<Rightarrow> NamespacedName" where
  "hookId x = \<lparr>nn_Namespace = Namespace x, nn_Name = Name x\<rparr>"

text \<open>All stored versions of the hook, the present one first, the calls of the unfinished run of every job, and the batch
  jobs any run asked the server to create.\<close>

record hookStore =
  hookVersions :: "UpgradeJobHook list"
  hookCalls :: "NamespacedName \<Rightarrow> ujCall list"
  createdBatch :: "Job list"

abbreviation currentHook :: "hookStore \<Rightarrow> UpgradeJobHook" where
  "currentHook a \<equiv> hd (hookVersions a)"

text \<open>The status of the hook is its claim; an update of the status leaves the spec that is stored.\<close>

definition acceptsClaim :: "UpgradeJobHook list \<Rightarrow> UpgradeJobHook \<Rightarrow> UpgradeJobHook \<Rightarrow> bool" where
  "acceptsClaim vs sent stored \<longleftrightarrow> vs \<noteq> [] \<and> ResourceVersion sent = ResourceVersion (hd vs)
     \<and> ClaimedBy stored = ClaimedBy sent \<and> hk_Spec stored = hk_Spec (hd vs) \<and> hookId stored = hookId (hd vs)
     \<and> ResourceVersion stored \<notin> ResourceVersion ` set vs"

text \<open>The effect of a call on the stored versions of the hook \<open>H\<close>; the answers are those of a Kubernetes API: a job is
  found under its name, a list has objects of its namespace, an update keeps the name.\<close>

fun hookEffect :: "NamespacedName \<Rightarrow> UpgradeJobHook list \<Rightarrow> ujCall \<Rightarrow> UpgradeJobHook list \<Rightarrow> bool" where
  "hookEffect H vs (GetUpgradeJob nn (Inr uj)) vs' \<longleftrightarrow> vs' = vs \<and> hookId uj = nn"
| "hookEffect H vs (ListHooks ns (Inr xs)) vs' \<longleftrightarrow> vs' = vs
     \<and> list_all (\<lambda>x. Namespace x = ns \<and> (hookId x = H \<longrightarrow> x \<in> set vs)) xs"
| "hookEffect H vs (StatusUpdateHook sent (Inr stored)) vs' \<longleftrightarrow>
     (if hookId sent = H then acceptsClaim vs sent stored \<and> vs' = stored # vs
      else hookId stored = hookId sent \<and> vs' = vs)"
| "hookEffect H vs e vs' \<longleftrightarrow> vs' = vs"

fun createdBy :: "ujCall \<Rightarrow> Job list" where
  "createdBy (CreateJob j res) = [j]"
| "createdBy e = []"

text \<open>The steps: a run starts, a run makes its next call, or another writer updates the hook, without touching the claim
  and the policy \<^verbatim>\<open>Next\<close>.\<close>

inductive hookStep ::
  "(NamespacedName \<Rightarrow> ujCall list \<Rightarrow> bool) \<Rightarrow> NamespacedName \<Rightarrow> hookStore \<Rightarrow> hookStore \<Rightarrow> bool"
  for jobRuns H
where
  startRun: "hookStep jobRuns H a (a\<lparr>hookCalls := (hookCalls a)(req := [])\<rparr>)"
| callRun: "nn_Name req \<noteq> '''' \<Longrightarrow> jobRuns req (hookCalls a req @ e # es) \<Longrightarrow> hookEffect H (hookVersions a) e vs \<Longrightarrow>
    hookStep jobRuns H a (a\<lparr>hookVersions := vs, hookCalls := (hookCalls a)(req := hookCalls a req @ [e]),
      createdBatch := createdBy e @ createdBatch a\<rparr>)"
| otherWriter: "ResourceVersion x \<notin> ResourceVersion ` set (hookVersions a) \<Longrightarrow> hookId x = H
    \<Longrightarrow> ClaimedBy x = ClaimedBy (currentHook a) \<Longrightarrow> GetRun (hk_Spec x) = RunNext \<Longrightarrow>
    hookStep jobRuns H a (a\<lparr>hookVersions := x # hookVersions a\<rparr>)"

inductive hookReachable :: "(NamespacedName \<Rightarrow> ujCall list \<Rightarrow> bool) \<Rightarrow> NamespacedName \<Rightarrow> hookStore \<Rightarrow> bool"
  for jobRuns H
where
  initial: "hookId x = H \<Longrightarrow> GetRun (hk_Spec x) = RunNext \<Longrightarrow>
    hookReachable jobRuns H \<lparr>hookVersions = [x], hookCalls = (\<lambda>_. []), createdBatch = []\<rparr>"
| step: "hookReachable jobRuns H a \<Longrightarrow> hookStep jobRuns H a a' \<Longrightarrow> hookReachable jobRuns H a'"

section \<open>Every run claims before it creates\<close>

text \<open>A version of the job that the run of \<open>req\<close> reads, possibly with another status.\<close>

definition runsAs :: "NamespacedName \<Rightarrow> ujCall list \<Rightarrow> UpgradeJob \<Rightarrow> bool" where
  "runsAs req h uj \<longleftrightarrow> (\<exists>read. GetUpgradeJob req (Inr read) \<in> set h \<and> sameObject read uj)"

definition claimsFor :: "UpgradeJob \<Rightarrow> ujCall list \<Rightarrow> UpgradeJobHook \<Rightarrow> bool" where
  "claimsFor uj h hook \<longleftrightarrow> (\<exists>orig. listedHook uj h orig \<and> (Claim orig uj = (hook, True, False)
     \<or> (\<exists>sent. Claim orig uj = (sent, True, True) \<and> StatusUpdateHook sent (Inr hook) \<in> set h)))"

definition createdFor :: "UpgradeJob \<Rightarrow> UpgradeJobHook \<Rightarrow> Job \<Rightarrow> bool" where
  "createdFor uj hook j \<longleftrightarrow> Namespace j = Namespace uj \<and> Labels j hookJobTrackingLabelUpgradeJobHook = Some (Name hook)
     \<and> Labels j hookJobTrackingLabelUpgradeJob = Some (Name uj)"

locale hook_agents =
  fixes jobRuns :: "NamespacedName \<Rightarrow> ujCall list \<Rightarrow> bool"
  assumes claim_discipline: "jobRuns req (h @ StatusUpdateHook sent res # es) \<Longrightarrow>
      \<exists>uj orig. runsAs req h uj \<and> listedHook uj h orig \<and> Claim orig uj = (sent, True, True)"
    and create_discipline: "jobRuns req (h @ CreateJob j res' # es) \<Longrightarrow>
      \<exists>uj hook. runsAs req h uj \<and> claimsFor uj h hook \<and> createdFor uj hook j"
begin

text \<open>What is stored: one hook with the policy \<^verbatim>\<open>Next\<close>, whose claim once made stays.\<close>

definition storeOk :: "NamespacedName \<Rightarrow> UpgradeJobHook list \<Rightarrow> bool" where
  "storeOk H vs \<longleftrightarrow> vs \<noteq> [] \<and> distinct (map ResourceVersion vs)
     \<and> (\<forall>v \<in> set vs. hookId v = H \<and> GetRun (hk_Spec v) = RunNext \<and> (ClaimedBy v = emptyClaim \<or> ClaimedBy v = ClaimedBy (hd vs)))"

text \<open>What a run knows was stored.\<close>

definition callOk :: "NamespacedName \<Rightarrow> UpgradeJobHook list \<Rightarrow> ujCall \<Rightarrow> bool" where
  "callOk H vs e \<longleftrightarrow> (case e of
     GetUpgradeJob nn (Inr uj) \<Rightarrow> hookId uj = nn
   | ListHooks ns (Inr xs) \<Rightarrow> \<forall>x \<in> set xs. Namespace x = ns \<and> (hookId x = H \<longrightarrow> x \<in> set vs)
   | StatusUpdateHook sent (Inr stored) \<Rightarrow> hookId stored = hookId sent
       \<and> (hookId sent = H \<longrightarrow> stored \<in> set vs \<and> ClaimedBy stored = ClaimedBy sent)
   | _ \<Rightarrow> True)"

definition ownedBatch :: "NamespacedName \<Rightarrow> UpgradeJobHook \<Rightarrow> Job \<Rightarrow> bool" where
  "ownedBatch H x j \<longleftrightarrow> (Namespace j = nn_Namespace H \<and> Labels j hookJobTrackingLabelUpgradeJobHook = Some (nn_Name H)
     \<longrightarrow> ClaimedBy x \<noteq> emptyClaim \<and> Labels j hookJobTrackingLabelUpgradeJob = Some (cr_Name (ClaimedBy x)))"

definition hookSound :: "NamespacedName \<Rightarrow> hookStore \<Rightarrow> bool" where
  "hookSound H a \<longleftrightarrow> storeOk H (hookVersions a) \<and> (\<forall>req. \<forall>e \<in> set (hookCalls a req). callOk H (hookVersions a) e)
     \<and> (\<forall>j \<in> set (createdBatch a). ownedBatch H (currentHook a) j)"

lemma callOk_grows: "callOk H vs e \<Longrightarrow> set vs \<subseteq> set vs' \<Longrightarrow> callOk H vs' e"
  by (auto simp: callOk_def split: ujCall.splits sum.splits)

lemma callOk_Cons: "callOk H vs e \<Longrightarrow> callOk H (x # vs) e"
  by (rule callOk_grows) auto

lemma hookEffect_cases:
  assumes "hookEffect H vs e vs'"
  obtains "vs' = vs" | sent stored where "e = StatusUpdateHook sent (Inr stored)" "hookId sent = H"
    "acceptsClaim vs sent stored" "vs' = stored # vs"
  using assms by (cases "(H, vs, e, vs')" rule: hookEffect.cases) (auto split: if_splits)

lemma hookEffect_call:
  assumes "storeOk H vs" and "hookEffect H vs e vs'"
  shows "callOk H vs' e"
proof (cases "\<exists>sent stored. e = StatusUpdateHook sent (Inr stored)")
  case True
  then obtain sent stored where e: "e = StatusUpdateHook sent (Inr stored)" by blast
  have "hookId (hd vs) = H" using assms(1) hd_in_set [of vs] by (auto simp: storeOk_def)
  with assms(2) show ?thesis unfolding e by (simp add: callOk_def acceptsClaim_def split: if_splits)
next
  case False
  with assms(2) show ?thesis
    by (cases "(H, vs, e, vs')" rule: hookEffect.cases) (simp_all add: callOk_def list_all_iff)
qed

lemma runsAs_id: "\<forall>e \<in> set h. callOk H vs e \<Longrightarrow> runsAs req h uj \<Longrightarrow> hookId uj = req"
  by (fastforce simp: runsAs_def callOk_def sameObject_def hookId_def)

lemma listed_stored:
  assumes "\<forall>e \<in> set h. callOk H vs e" and "listedHook uj h orig"
  shows "Namespace orig = Namespace uj \<and> (hookId orig = H \<longrightarrow> orig \<in> set vs)"
  using assms by (fastforce simp: listedHook_def callOk_def)

lemma claim_reference:
  assumes "Claim orig uj = (x, True, upd)" and "GetRun (hk_Spec orig) = RunNext"
  shows "ClaimedBy x = buildClaimReference uj \<and> hookId x = hookId orig \<and> ResourceVersion x = ResourceVersion orig
    \<and> (upd \<longrightarrow> ClaimedBy orig = emptyClaim) \<and> (\<not> upd \<longrightarrow> x = orig)"
  using assms by (auto simp: Claim_def Let_def hookId_def split: if_splits)

lemma reference_nonempty: "nn_Name req \<noteq> '''' \<Longrightarrow> hookId uj = req \<Longrightarrow> buildClaimReference uj \<noteq> emptyClaim"
  by (auto simp: buildClaimReference_def emptyClaim_def hookId_def)

lemma claim_keeps_id: "Claim orig uj = (x, ok, upd) \<Longrightarrow> hookId x = hookId orig"
  by (auto simp: Claim_def Let_def hookId_def split: if_splits)

text \<open>A claim that is stored was made on the present version, which was free.\<close>

lemma claim_accepted:
  assumes ok: "storeOk H vs" "\<forall>e \<in> set h. callOk H vs e" and run: "jobRuns req (h @ StatusUpdateHook sent res # es)"
    and acc: "hookId sent = H" "acceptsClaim vs sent stored"
  shows "ClaimedBy (hd vs) = emptyClaim"
proof -
  from claim_discipline [OF run] obtain uj orig where as: "runsAs req h uj" "listedHook uj h orig"
    and cl: "Claim orig uj = (sent, True, True)" by blast
  from claim_keeps_id [OF cl] acc(1) listed_stored [OF ok(2) as(2)] have orig: "orig \<in> set vs" by simp
  with ok(1) have "GetRun (hk_Spec orig) = RunNext" by (simp add: storeOk_def)
  from claim_reference [OF cl this] have c: "ResourceVersion sent = ResourceVersion orig" "ClaimedBy orig = emptyClaim" by auto
  from c(1) acc(2) have "ResourceVersion orig = ResourceVersion (hd vs)" by (simp add: acceptsClaim_def)
  with ok(1) orig have "orig = hd vs"
    by (auto simp: storeOk_def distinct_map intro: inj_onD [of ResourceVersion "set vs"] dest: hd_in_set)
  with c(2) show ?thesis by simp
qed

lemma storeOk_claimed:
  assumes "storeOk H vs" and "acceptsClaim vs sent stored" and "ClaimedBy (hd vs) = emptyClaim"
  shows "storeOk H (stored # vs)"
  using assms hd_in_set [of vs] by (auto simp: storeOk_def acceptsClaim_def)

text \<open>What is created is created under the stored claim.\<close>

lemma created_owned:
  assumes ok: "storeOk H vs" "\<forall>e \<in> set h. callOk H vs e" and run: "jobRuns req (h @ CreateJob j res # es)"
    and req: "nn_Name req \<noteq> ''''"
  shows "ownedBatch H (hd vs) j"
  unfolding ownedBatch_def
proof (intro impI, elim conjE)
  assume ns: "Namespace j = nn_Namespace H" and lab: "Labels j hookJobTrackingLabelUpgradeJobHook = Some (nn_Name H)"
  from create_discipline [OF run] obtain uj hook where as: "runsAs req h uj" and cl: "claimsFor uj h hook"
    and j: "createdFor uj hook j" by blast
  from cl obtain orig where orig: "listedHook uj h orig"
    and claim: "Claim orig uj = (hook, True, False) \<or> (\<exists>sent. Claim orig uj = (sent, True, True) \<and> StatusUpdateHook sent (Inr hook) \<in> set h)"
    unfolding claimsFor_def by blast
  have id: "hookId hook = hookId orig"
    using claim ok(2) by (fastforce simp: callOk_def dest: claim_keeps_id)
  have "Namespace orig = Namespace uj" using listed_stored [OF ok(2) orig] by simp
  with id j ns lab have "hookId orig = H" by (simp add: hookId_def createdFor_def)
  with listed_stored [OF ok(2) orig] have "orig \<in> set vs" by simp
  with ok(1) have run_next: "GetRun (hk_Spec orig) = RunNext" by (simp add: storeOk_def)
  have "hook \<in> set vs \<and> ClaimedBy hook = buildClaimReference uj"
    using claim
  proof (elim disjE exE conjE)
    assume "Claim orig uj = (hook, True, False)"
    with claim_reference [OF this run_next] \<open>orig \<in> set vs\<close> show ?thesis by auto
  next
    fix sent assume c: "Claim orig uj = (sent, True, True)" and u: "StatusUpdateHook sent (Inr hook) \<in> set h"
    from claim_reference [OF c run_next] \<open>hookId orig = H\<close> ok(2) u show ?thesis by (fastforce simp: callOk_def)
  qed
  with ok(1) reference_nonempty [OF req runsAs_id [OF ok(2) as]] have "ClaimedBy (hd vs) = buildClaimReference uj"
    by (auto simp: storeOk_def)
  with reference_nonempty [OF req runsAs_id [OF ok(2) as]] j
  show "ClaimedBy (hd vs) \<noteq> emptyClaim \<and> Labels j hookJobTrackingLabelUpgradeJob = Some (cr_Name (ClaimedBy (hd vs)))"
    by (simp add: createdFor_def buildClaimReference_def)
qed

lemma hookSound_step:
  assumes "hookSound H a" and "hookStep jobRuns H a a'"
  shows "hookSound H a'"
  using assms(2)
proof cases
  case (callRun req e es vs)
  from assms(1) have ok: "storeOk H (hookVersions a)" "\<forall>e \<in> set (hookCalls a req). callOk H (hookVersions a) e"
    and calls: "\<forall>req. \<forall>e \<in> set (hookCalls a req). callOk H (hookVersions a) e"
    and batch: "\<forall>j \<in> set (createdBatch a). ownedBatch H (currentHook a) j" by (auto simp: hookSound_def)
  have new: "\<forall>j \<in> set (createdBy e). ownedBatch H (currentHook a) j"
    using created_owned [OF ok _ callRun(2)] callRun(3) by (cases e rule: createdBy.cases) auto
  have "callOk H vs e" by (rule hookEffect_call [OF ok(1) callRun(4)])
  from callRun(4) have "storeOk H vs \<and> set (hookVersions a) \<subseteq> set vs \<and> (\<forall>j. ownedBatch H (currentHook a) j \<longrightarrow> ownedBatch H (hd vs) j)"
  proof (cases rule: hookEffect_cases)
    case (2 sent stored)
    from claim_accepted [OF ok callRun(3) [unfolded 2(1)] 2(2,3)] have free: "ClaimedBy (currentHook a) = emptyClaim" .
    with storeOk_claimed [OF ok(1) 2(3) free] 2(4) show ?thesis by (auto simp: ownedBatch_def)
  qed (use ok in auto)
  with calls batch new \<open>callOk H vs e\<close> callRun(1) show ?thesis
    by (auto simp: hookSound_def intro: callOk_grows)
next
  case (otherWriter x)
  with assms(1) show ?thesis
    by (auto simp: hookSound_def storeOk_def ownedBatch_def intro: callOk_Cons)
qed (use assms(1) in \<open>auto simp: hookSound_def\<close>)

lemma hookSound_reachable: "hookReachable jobRuns H a \<Longrightarrow> hookSound H a"
proof (induction rule: hookReachable.induct)
  case (initial x)
  then show ?case by (simp add: hookSound_def storeOk_def)
qed (rule hookSound_step)

lemma batch_owned:
  assumes "hookReachable jobRuns H a" and "j \<in> set (createdBatch a)" and "Namespace j = nn_Namespace H"
    and "Labels j hookJobTrackingLabelUpgradeJobHook = Some (nn_Name H)"
  shows "Labels j hookJobTrackingLabelUpgradeJob = Some (cr_Name (ClaimedBy (currentHook a)))"
  using hookSound_reachable [OF assms(1)] assms(2-4) by (auto simp: hookSound_def ownedBatch_def)

end

section \<open>The handler\<close>

definition hookCallOf :: "'z lib_scheme \<Rightarrow> UpgradeJob \<Rightarrow> ujCall list \<Rightarrow> ujCall \<Rightarrow> bool" where
  "hookCallOf L read h e \<longleftrightarrow> (\<exists>uj event key t. sameObject read uj \<and> hookProtocol L uj event key t h e)"

lemma hookCallOf_intros [intro]:
  "hookProtocol L uj event key t h e \<Longrightarrow> hookCallOf L uj h e"
  "sameObject uj uj' \<Longrightarrow> hookProtocol L uj' event key t h e \<Longrightarrow> hookCallOf L uj h e"
  "sameVerdict L uj uj' \<Longrightarrow> hookProtocol L uj' event key t h e \<Longrightarrow> hookCallOf L uj h e"
  unfolding hookCallOf_def using sameObject_refl sameVerdict_object by blast+

definition ofHook :: "ujCall \<Rightarrow> bool" where
  "ofHook e \<longleftrightarrow> (case e of StatusUpdateHook sent res \<Rightarrow> True | CreateJob j res \<Rightarrow> True | _ \<Rightarrow> False)"

lemma only_hooks:
  assumes "ofHook e"
  shows "\<not> trackProtocol L req h e" "\<not> pendingProtocol L uj h e" "\<not> releaseProtocol r uj h e" "\<not> failureProtocol L uj h e"
    "pauseProtocol L uj h e \<Longrightarrow> hookCallOf L uj h e" "cleanupProtocol L uj h e \<Longrightarrow> hookCallOf L uj h e"
  using assms
  by (auto simp: ofHook_def trackProtocol_def pendingProtocol_def releaseProtocol_def failureProtocol_def pauseProtocol_def
      cleanupProtocol_def split: ujCall.splits)

lemma start_hooks: "ofHook e \<Longrightarrow> startProtocol L r uj h e \<Longrightarrow> hookCallOf L uj h e"
  unfolding startProtocol_def by (cases e) (auto simp: ofHook_def dest!: only_hooks(5) [rotated])

lemma job_hooks: "ofHook e \<Longrightarrow> jobProtocol L r uj h e \<Longrightarrow> hookCallOf L uj h e"
  by (auto simp: jobProtocol_def succeededProtocol_def failedProtocol_def only_hooks
      split: option.splits if_splits dest: only_hooks(6) start_hooks)

lemma reconcile_hook_call:
  assumes "reconcileProtocol L r req h e" and "ofHook e"
  shows "\<exists>uj event key t. runsAs req h uj \<and> hookProtocol L uj event key t h e"
  using assms job_hooks [OF assms(2)]
  by (auto simp: reconcileProtocol_def only_hooks runsAs_def hookCallOf_def) blast

lemma reconcileRun_hook_call:
  fixes T :: "'s itself"
  assumes "reconcileRun T L req (h @ e # es)" and "ofHook e"
  shows "\<exists>uj event key t. runsAs req h uj \<and> hookProtocol L uj event key t h e"
  using assms(1) unfolding reconcileRun_def
proof (elim exE conjE)
  fix r :: "'s UpgradeJobReconciler" and s
  assume "reconcile_api r L" and run: "h @ e # es = callsOf (Reconcile L r req) s"
  from Reconcile_allowed [OF this(1), of req "reconcileProtocol L r req" s]
  have "reconcileProtocol L r req ([] @ h) e" unfolding run [symmetric] by (auto dest: allowed_split)
  with reconcile_hook_call [OF _ assms(2)] show ?thesis by simp
qed

interpretation hookRuns: hook_agents "reconcileRun T L" for T L
proof
  fix req h sent res es
  assume "reconcileRun T L req (h @ StatusUpdateHook sent res # es)"
  from reconcileRun_hook_call [OF this]
  show "\<exists>uj orig. runsAs req h uj \<and> listedHook uj h orig \<and> Claim orig uj = (sent, True, True)"
    by (auto simp: hookProtocol_def ofHook_def)
next
  fix req h j res' es
  assume "reconcileRun T L req (h @ CreateJob j res' # es)"
  from reconcileRun_hook_call [OF this] obtain uj event key t where as: "runsAs req h uj"
    and p: "hookProtocol L uj event key t h (CreateJob j res')" by (auto simp: ofHook_def)
  from p obtain hook where c: "claimedIn L uj event t h hook" and ns: "Namespace j = Namespace uj"
    and lab: "jobLabels (Name uj) (Name hook) event key \<subseteq>\<^sub>m Labels j" by (auto simp: hookProtocol_def)
  have "createdFor uj hook j"
    using ns lab by (auto simp: createdFor_def jobLabels_def map_le_def)
  moreover from c have "claimsFor uj h hook" by (auto simp: claimedIn_def claimsFor_def)
  ultimately show "\<exists>uj hook. runsAs req h uj \<and> claimsFor uj h hook \<and> createdFor uj hook j" using as by blast
qed

text \<open>C3: a hook that runs for the next upgrade runs for one upgrade. In every interleaving of the runs of any number of
  upgrade jobs, with stale lists of hooks and other writers of the hook, every batch job that any run asks to create
  for a hook with the policy \<^verbatim>\<open>Next\<close> carries the label of the upgrade job whose claim is stored in the hook.\<close>

theorem next_hook_one_job:
  assumes "hookReachable (reconcileRun T L) H a"
    and "j \<in> set (createdBatch a)" and "Namespace j = nn_Namespace H"
    and "Labels j hookJobTrackingLabelUpgradeJobHook = Some (nn_Name H)"
  shows "Labels j hookJobTrackingLabelUpgradeJob = Some (cr_Name (ClaimedBy (currentHook a)))"
  by (rule hookRuns.batch_owned [OF assms])

text \<open>A run that claims the free sample hook and creates its batch job.\<close>

definition hookServer :: "unit UpgradeJobReconciler" where
  "hookServer = (quietServer pendingJob sampleVersion)\<lparr>c_listHooks := (\<lambda>ns s. (Inr [sampleHook], s)),
     c_statusUpdateHook := (\<lambda>sent s. (Inr (bump sent), s))\<rparr>"

lemma hookServer_simps [simp]:
  "c_getUpgradeJob hookServer nn s = (Inr (pendingJob\<lparr>Namespace := nn_Namespace nn, Name := nn_Name nn\<rparr>), s)"
  "c_statusUpdateUpgradeJob hookServer sent s = (Inr (bump sent), s)"
  "c_listHooks hookServer ns s = (Inr [sampleHook], s)"
  "c_statusUpdateHook hookServer sent' s = (Inr (bump sent'), s)"
  "c_listJobs hookServer ns ls s = (Inr [], s)"
  "c_createJob hookServer j s = (Inl (ApiError AlreadyExists (Name j)), s)"
  "c_now hookServer s = (minute, s)"
  by (simp_all add: hookServer_def) (simp_all add: quietServer_def)

lemma hookServer_api: "reconcile_api hookServer refLib"
  by (intro reconcile_api.intro upgrade_api.intro job_api.intro upgrade_api_axioms.intro ref_laws)
    (auto simp: answers_def bump_def sameJob_def sameObject_def hookServer_def quietServer_def)

definition claimedSample :: UpgradeJobHook where
  "claimedSample = sampleHook\<lparr>ClaimedBy := buildClaimReference pendingJob\<rparr>"

definition beforeCreate :: "ujCall list" where
  "beforeCreate = [GetUpgradeJob sampleRequest (Inr pendingJob),
     ListJobs ''ns'' [hookJobTrackingLabelUpgradeJob \<mapsto> ''job''] (Inr []), GetUpgradeJob sampleRequest (Inr pendingJob),
     ListHooks ''ns'' (Inr [sampleHook]), StatusUpdateHook claimedSample (Inr (bump claimedSample)),
     ListJobs ''ns'' (jobLabels ''job'' ''hook'' EventCreate noTrackingKey) (Inr [])]"

lemma sampleHook_simps [simp]:
  "EventCreate \<in> set (Events (hk_Spec sampleHook))" "Claim sampleHook pendingJob = (claimedSample, True, True)"
  "Name (bump claimedSample) = ''hook''" "Template (hk_Spec (bump claimedSample)) = Template sampleHookSpec"
  "LabelSelectorAsSelector refLib (Some (hk_Selector (hk_Spec sampleHook))) = Inr \<lparr>Matches = (\<lambda>_. True), Empty = True\<rparr>"
  "Disruptive (hk_Spec (bump claimedSample)) = False" "findTrackedHookJob n ev key pendingJob = []"
  "Combine refLib [Some e] = Some e"
  by (simp_all add: sampleHook_def sampleHookSpec_def claimedSample_def bump_def pendingJob_def sampleJob_def sampleMeta_def
      ObjectMeta.extend_def Claim_def buildClaimReference_def emptyClaim_def GetRun_def refLib_def refSelector_def
      sampleSelector_def
      findTrackedHookJob_def)

lemma claim_sample:
  "claimHooks refLib hookServer pendingJob EventCreate zeroTime [sampleHook] []
     = do { res \<leftarrow> statusUpdateHook hookServer claimedSample;
          case res of Inl e \<Rightarrow> ret (Inl e) | Inr hook \<Rightarrow> ret (Inr [hook]) }"
  by (simp del: claimHooks.simps(1) add: claimHooks.simps(1))

lemma refLib_creates:
  "\<exists>x. NormalizeUpgradeJob refLib uj = Inr x" "\<exists>x. SetControllerReference refLib owner [] = Inr x"
  by (simp_all add: refLib_def)

lemma create_sample:
  "\<exists>j. createHookJob refLib hookServer (bump claimedSample) pendingJob event key info meta =
       do { res \<leftarrow> createJobObject hookServer j;
            ret (case res of Inl e \<Rightarrow> Inl (Errorf ''failed to create hook job'' e) | Inr job \<Rightarrow> Inr job) }
     \<and> Namespace j = ''ns'' \<and> Labels j hookJobTrackingLabelUpgradeJobHook = Some ''hook''"
  using refLib_creates(1) [of pendingJob] refLib_creates(2) [of "ObjectMeta.truncate pendingJob"]
  unfolding createHookJob_def Let_def by (auto simp: jobLabels_def)

lemma creating_calls:
  "\<exists>j res es. callsOf (Reconcile refLib hookServer sampleRequest) () = beforeCreate @ CreateJob j res # es
     \<and> Namespace j = ''ns'' \<and> Labels j hookJobTrackingLabelUpgradeJobHook = Some ''hook''"
proof -
  obtain j where j: "createHookJob refLib hookServer (bump claimedSample) pendingJob EventCreate noTrackingKey (eventInfoWithReason noTrackingKey)
        \<lparr>MatchesDisruptiveHooks = False\<rparr> = do { res \<leftarrow> createJobObject hookServer j;
            ret (case res of Inl e \<Rightarrow> Inl (Errorf ''failed to create hook job'' e) | Inr job \<Rightarrow> Inr job) }"
    and ns: "Namespace j = ''ns''" "Labels j hookJobTrackingLabelUpgradeJobHook = Some ''hook''"
    using create_sample by blast
  then show ?thesis
    by (simp add: run_evaluation beforeCreate_def claim_sample j jobForUpgradeJobAndHook_def)
qed

text \<open>The calls of one run as steps.\<close>

fun hookEffects :: "NamespacedName \<Rightarrow> UpgradeJobHook list \<Rightarrow> ujCall list \<Rightarrow> UpgradeJobHook list \<Rightarrow> bool" where
  "hookEffects H vs [] vs' \<longleftrightarrow> vs' = vs"
| "hookEffects H vs (e # es) vs' \<longleftrightarrow> (\<exists>v. hookEffect H vs e v \<and> hookEffects H v es vs')"

lemma run_reachable:
  assumes "hookReachable R H a" and "nn_Name req \<noteq> ''''" and "R req (hookCalls a req @ h @ es)"
    and "hookEffects H (hookVersions a) h vs"
  shows "hookReachable R H (a\<lparr>hookVersions := vs, hookCalls := (hookCalls a)(req := hookCalls a req @ h),
    createdBatch := concat (rev (map createdBy h)) @ createdBatch a\<rparr>)"
  using assms
proof (induction h arbitrary: a)
  case (Cons e h)
  from Cons.prems(4) obtain v where v: "hookEffect H (hookVersions a) e v" "hookEffects H v h vs" by auto
  let ?a = "a\<lparr>hookVersions := v, hookCalls := (hookCalls a)(req := hookCalls a req @ [e]), createdBatch := createdBy e @ createdBatch a\<rparr>"
  have "hookStep R H a ?a" by (rule callRun [where es = "h @ es"]) (use Cons.prems v in auto)
  from Cons.IH [OF step [OF Cons.prems(1) this]] Cons.prems v show ?case by (simp cong: if_cong)
qed simp

definition sampleHookId :: NamespacedName where
  "sampleHookId = \<lparr>nn_Namespace = ''ns'', nn_Name = ''hook''\<rparr>"

lemma claiming_effects:
  "hookEffects sampleHookId [sampleHook] (beforeCreate @ [CreateJob j res]) [bump claimedSample, sampleHook]"
  by (simp add: beforeCreate_def hookId_def sampleRequest_def sampleHookId_def acceptsClaim_def claimedSample_def bump_def
      sampleHook_def sampleMeta_def ObjectMeta.extend_def)

theorem next_hook_one_job_witness:
  "\<exists>a j. hookReachable (reconcileRun TYPE(unit) refLib) sampleHookId a \<and> j \<in> set (createdBatch a)
     \<and> Labels j hookJobTrackingLabelUpgradeJob = Some (cr_Name (ClaimedBy (currentHook a)))
     \<and> cr_Name (ClaimedBy (currentHook a)) = ''job''"
proof -
  let ?R = "reconcileRun TYPE(unit) refLib"
  obtain j res es where calls: "callsOf (Reconcile refLib hookServer sampleRequest) () = beforeCreate @ CreateJob j res # es"
    and j: "Namespace j = ''ns''" "Labels j hookJobTrackingLabelUpgradeJobHook = Some ''hook''"
    using creating_calls by blast
  have run: "?R sampleRequest ((beforeCreate @ [CreateJob j res]) @ es)"
    unfolding reconcileRun_def using hookServer_api calls by (metis append.assoc append_Cons append_Nil)
  have "hookReachable ?R sampleHookId \<lparr>hookVersions = [sampleHook], hookCalls = (\<lambda>_. []), createdBatch = []\<rparr>"
    by (rule initial) (simp_all add: hookId_def sampleHook_def sampleHookSpec_def sampleMeta_def ObjectMeta.extend_def
        sampleHookId_def GetRun_def)
  from run_reachable [OF this, of sampleRequest "beforeCreate @ [CreateJob j res]" es "[bump claimedSample, sampleHook]"]
    run claiming_effects
  have reach: "hookReachable ?R sampleHookId \<lparr>hookVersions = [bump claimedSample, sampleHook],
      hookCalls = (\<lambda>_. [])(sampleRequest := beforeCreate @ [CreateJob j res]), createdBatch = [j]\<rparr>" (is "hookReachable _ _ ?a")
    by (simp add: sampleRequest_def beforeCreate_def)
  have "j \<in> set (createdBatch ?a)" by simp
  from next_hook_one_job [OF reach this] j
  have "Labels j hookJobTrackingLabelUpgradeJob = Some (cr_Name (ClaimedBy (currentHook ?a)))"
    by (simp add: sampleHookId_def)
  moreover have "cr_Name (ClaimedBy (currentHook ?a)) = ''job''"
    by (simp add: claimedSample_def bump_def buildClaimReference_def)
  ultimately show ?thesis using reach \<open>j \<in> set (createdBatch ?a)\<close> by blast
qed

end
