(* ===== verification/Job_Lifecycle.thy ===== *)
theory Job_Lifecycle
  imports Lock_Exclusion
begin

text \<open>
  The life cycle of an upgrade job, as an abstract machine of phases, and the refinement: in every
  interleaving of the runs of \<open>Reconcile\<close> for one job, with stale reads and other writers, the stored job
  moves along this machine. What makes it work is the optimistic concurrency control of the API server:
  a status is only stored when it was computed from the stored version.
\<close>

section \<open>The abstract machine\<close>

datatype phase = Pending | Started | Checked | Upgraded | Verified | Skipped | Succeeded | Failed

definition finalPhase :: "phase \<Rightarrow> bool" where
  "finalPhase p \<longleftrightarrow> p \<in> {Skipped, Succeeded, Failed}"

text \<open>A job that asks for a version is verified only after it was upgraded.\<close>

inductive lifecycle :: "bool \<Rightarrow> phase \<Rightarrow> phase \<Rightarrow> bool" for hasVersion where
  stay: "lifecycle hasVersion p p"
| start: "lifecycle hasVersion Pending Started"
| check: "lifecycle hasVersion Started Checked"
| upgrade: "lifecycle hasVersion Checked Upgraded"
| verify: "lifecycle hasVersion Upgraded Verified"
| verifyOnly: "\<not> hasVersion \<Longrightarrow> lifecycle hasVersion Checked Verified"
| succeed: "lifecycle hasVersion Verified Succeeded"
| skip: "\<not> finalPhase p \<Longrightarrow> lifecycle hasVersion p Skipped"
| fail: "\<not> finalPhase p \<Longrightarrow> lifecycle hasVersion p Failed"

inductive_cases lifecycleE: "lifecycle hasVersion p q"

lemma lifecycle_final: "lifecycle w p q \<Longrightarrow> finalPhase p \<Longrightarrow> q = p"
  by (cases rule: lifecycle.cases) (auto simp: finalPhase_def)

text \<open>The phases in the order of their progress; the three final ones are not compared.\<close>

fun phaseProgress :: "phase \<Rightarrow> nat" where
  "phaseProgress Pending = 0"
| "phaseProgress Started = 1"
| "phaseProgress Checked = 2"
| "phaseProgress Upgraded = 3"
| "phaseProgress Verified = 4"
| "phaseProgress _ = 5"

instantiation phase :: order
begin

definition less_eq_phase :: "phase \<Rightarrow> phase \<Rightarrow> bool" where
  "less_eq_phase p q \<longleftrightarrow> p = q \<or> phaseProgress p < phaseProgress q"

definition less_phase :: "phase \<Rightarrow> phase \<Rightarrow> bool" where
  "less_phase p q \<longleftrightarrow> phaseProgress p < phaseProgress q"

instance
  by standard (auto simp: less_eq_phase_def less_phase_def)

end

lemma open_phaseProgress: "phaseProgress p < 5 \<longleftrightarrow> \<not> finalPhase p"
  by (cases p) (simp_all add: finalPhase_def)

lemma lifecycle_le: "lifecycle w p q \<Longrightarrow> p \<le> q"
  by (induction rule: lifecycle.induct) (auto simp: less_eq_phase_def open_phaseProgress)

lemma final_maximal: "finalPhase p \<Longrightarrow> p \<le> q \<Longrightarrow> q = p"
  by (cases q) (auto simp: less_eq_phase_def finalPhase_def)

section \<open>The phase of a job\<close>

definition phaseIn :: "view \<Rightarrow> phase" where
  "phaseIn v =
     (if reached v UpgradeJobConditionSucceeded then
        if v UpgradeJobConditionSucceeded = Some (ConditionTrue, UpgradeJobReasonSucceeded) then Succeeded else Skipped
      else if reached v UpgradeJobConditionFailed then Failed
      else if reached v UpgradeJobConditionPostHealthCheckDone then Verified
      else if reached v UpgradeJobConditionUpgradeCompleted then Upgraded
      else if reached v UpgradeJobConditionPreHealthCheckDone then Checked
      else if reached v UpgradeJobConditionStarted then Started
      else Pending)"

definition phaseOf :: "'z lib_scheme \<Rightarrow> UpgradeJob \<Rightarrow> phase" where
  "phaseOf L uj = phaseIn (viewOf L uj)"

definition milestones :: "string set" where
  "milestones = {UpgradeJobConditionStarted, UpgradeJobConditionPreHealthCheckDone, UpgradeJobConditionUpgradeCompleted,
     UpgradeJobConditionPostHealthCheckDone, UpgradeJobConditionSucceeded, UpgradeJobConditionFailed}"

definition open_view :: "view \<Rightarrow> bool" where
  "open_view v \<longleftrightarrow> \<not> reached v UpgradeJobConditionSucceeded \<and> \<not> reached v UpgradeJobConditionFailed"

text \<open>Which condition may be set on a job, given its view and whether it asks for a version.\<close>

inductive permits :: "bool \<Rightarrow> view \<Rightarrow> Condition \<Rightarrow> bool" for w v c where
  detail: "Type c \<notin> milestones \<Longrightarrow> permits w v c"
| progress: "open_view v \<Longrightarrow> Status c = ConditionFalse \<Longrightarrow> v (Type c) = None \<Longrightarrow> permits w v c"
| started: "open_view v \<Longrightarrow> Status c = ConditionTrue \<Longrightarrow> Type c = UpgradeJobConditionStarted \<Longrightarrow> permits w v c"
| checked: "open_view v \<Longrightarrow> Status c = ConditionTrue \<Longrightarrow> Type c = UpgradeJobConditionPreHealthCheckDone
    \<Longrightarrow> reached v UpgradeJobConditionStarted \<Longrightarrow> permits w v c"
| upgraded: "open_view v \<Longrightarrow> Status c = ConditionTrue \<Longrightarrow> Type c = UpgradeJobConditionUpgradeCompleted
    \<Longrightarrow> reached v UpgradeJobConditionPreHealthCheckDone \<Longrightarrow> permits w v c"
| verified: "open_view v \<Longrightarrow> Status c = ConditionTrue \<Longrightarrow> Type c = UpgradeJobConditionPostHealthCheckDone
    \<Longrightarrow> reached v UpgradeJobConditionPreHealthCheckDone
    \<Longrightarrow> (w \<Longrightarrow> reached v UpgradeJobConditionUpgradeCompleted) \<Longrightarrow> permits w v c"
| succeeded: "open_view v \<Longrightarrow> Status c = ConditionTrue \<Longrightarrow> Type c = UpgradeJobConditionSucceeded
    \<Longrightarrow> (Reason c = UpgradeJobReasonSucceeded \<Longrightarrow> reached v UpgradeJobConditionPostHealthCheckDone) \<Longrightarrow> permits w v c"
| failed: "open_view v \<Longrightarrow> Status c = ConditionTrue \<Longrightarrow> Type c = UpgradeJobConditionFailed \<Longrightarrow> permits w v c"

lemma phaseIn_cong: "(\<And>t. t \<in> milestones \<Longrightarrow> v t = v' t) \<Longrightarrow> phaseIn v = phaseIn v'"
  by (simp add: phaseIn_def reached_def milestones_def)

lemma reached_upd: "reached (v(t := Some (st, rsn))) t' \<longleftrightarrow> (if t' = t then st = ConditionTrue else reached v t')"
  by (auto simp: reached_def)

lemma reached_none: "v t = None \<Longrightarrow> \<not> reached v t"
  by (simp add: reached_def)

text \<open>A condition set to false for the first time changes nothing.\<close>

lemma phaseIn_false: "v t = None \<Longrightarrow> phaseIn (v(t := Some (ConditionFalse, rsn))) = phaseIn v"
  by (auto simp: phaseIn_def reached_upd reached_none)

lemma open_not_final: "open_view v \<Longrightarrow> \<not> finalPhase (phaseIn v)"
  by (simp add: open_view_def phaseIn_def finalPhase_def)

lemma permits_lifecycle:
  assumes "permits w v c"
  shows "lifecycle w (phaseIn v) (phaseIn (v(Type c := Some (Status c, Reason c))))"
  using assms
proof cases
  case detail
  then have "phaseIn (v(Type c := Some (Status c, Reason c))) = phaseIn v"
    by (intro phaseIn_cong) auto
  then show ?thesis by (simp add: stay)
next
  case progress
  then show ?thesis by (simp add: phaseIn_false stay)
next
  case succeeded
  show ?thesis
  proof (cases "Reason c = UpgradeJobReasonSucceeded")
    case True
    with succeeded have "phaseIn v = Verified" "phaseIn (v(Type c := Some (Status c, Reason c))) = Succeeded"
      by (simp_all add: open_view_def phaseIn_def reached_upd)
    then show ?thesis by (simp add: succeed)
  next
    case False
    with succeeded have "phaseIn (v(Type c := Some (Status c, Reason c))) = Skipped"
      by (simp add: open_view_def phaseIn_def reached_upd)
    with open_not_final [OF succeeded(1)] show ?thesis by (simp add: skip)
  qed
next
  case failed
  then have "phaseIn (v(Type c := Some (Status c, Reason c))) = Failed"
    by (simp add: open_view_def phaseIn_def reached_upd)
  with open_not_final failed show ?thesis by (simp add: fail)
qed (auto simp: open_view_def phaseIn_def reached_upd intro: lifecycle.intros)

section \<open>The status writes of a run\<close>

text \<open>A job the run was given, and a job variable that agrees with such a job up to conditions that do not
  matter for the phase.\<close>

definition jobKnown :: "ujCall list \<Rightarrow> UpgradeJob \<Rightarrow> bool" where
  "jobKnown h uj \<longleftrightarrow> (\<exists>n. GetUpgradeJob n (Inr uj) \<in> set h) \<or> (\<exists>sent. StatusUpdateUpgradeJob sent (Inr uj) \<in> set h)"

definition sameView :: "'z lib_scheme \<Rightarrow> UpgradeJob \<Rightarrow> UpgradeJob \<Rightarrow> bool" where
  "sameView L a b \<longleftrightarrow> ResourceVersion a = ResourceVersion b \<and> uj_Spec a = uj_Spec b
     \<and> (\<forall>t \<in> milestones. viewOf L a t = viewOf L b t)"

definition basedOn :: "'z lib_scheme \<Rightarrow> ujCall list \<Rightarrow> UpgradeJob \<Rightarrow> bool" where
  "basedOn L h uj \<longleftrightarrow> (\<exists>uj0. jobKnown h uj0 \<and> sameView L uj0 uj)"

abbreviation asksVersion :: "UpgradeJob \<Rightarrow> bool" where
  "asksVersion uj \<equiv> DesiredVersion (uj_Spec uj) \<noteq> None"

definition lifeWrite :: "'z lib_scheme \<Rightarrow> ujCall list \<Rightarrow> UpgradeJob \<Rightarrow> bool" where
  "lifeWrite L h sent \<longleftrightarrow> (\<exists>base. basedOn L h base \<and> (sent = base\<lparr>uj_HookJobTracker := uj_HookJobTracker sent\<rparr>
     \<or> (\<exists>c. statusWith L base c sent \<and> permits (asksVersion base) (viewOf L base) c)))"

definition lifeProtocol :: "'z lib_scheme \<Rightarrow> ujCall list \<Rightarrow> ujCall \<Rightarrow> bool" where
  "lifeProtocol L h e = (case e of StatusUpdateUpgradeJob sent _ \<Rightarrow> lifeWrite L h sent | _ \<Rightarrow> True)"

lemma lifeProtocol_simps [simp]:
  "lifeProtocol L h (Now t)" "lifeProtocol L h (ListPools sel ps)" "lifeProtocol L h (GetClusterVersion n cv)"
  "lifeProtocol L h (UpdateClusterVersion v res)" "lifeProtocol L h (GetUpgradeJob nn j)"
  "lifeProtocol L h (StatusUpdateUpgradeJob sent x) = lifeWrite L h sent"
  by (simp_all add: lifeProtocol_def)

lemma jobKnown_mono [history_mono]: "jobKnown h uj \<Longrightarrow> jobKnown (h @ es) uj"
  by (auto simp: jobKnown_def)

lemma basedOn_mono [history_mono]: "basedOn L h uj \<Longrightarrow> basedOn L (h @ es) uj"
  by (auto simp: basedOn_def intro: jobKnown_mono)

lemma sameView_refl [simp]: "sameView L a a"
  by (simp add: sameView_def)

lemma sameView_trans: "sameView L a b \<Longrightarrow> sameView L b c \<Longrightarrow> sameView L a c"
  by (simp add: sameView_def)

lemma basedOn_known: "jobKnown h uj \<Longrightarrow> basedOn L h uj"
  unfolding basedOn_def by (blast intro: sameView_refl)

lemma basedOn_same: "basedOn L h a \<Longrightarrow> sameView L a b \<Longrightarrow> basedOn L h b"
  unfolding basedOn_def by (blast intro: sameView_trans)

lemma lifeWrite_cond:
  "basedOn L h base \<Longrightarrow> statusWith L base c sent \<Longrightarrow> permits (asksVersion base) (viewOf L base) c \<Longrightarrow> lifeWrite L h sent"
  unfolding lifeWrite_def by blast

lemma lifeWrite_detail:
  "basedOn L h base \<Longrightarrow> statusWith L base c sent \<Longrightarrow> Type c \<notin> milestones \<Longrightarrow> lifeWrite L h sent"
  by (rule lifeWrite_cond) (auto intro: detail)

text \<open>A job variable at a stage: it is not finished and has passed some milestones.\<close>

definition atStage :: "'z lib_scheme \<Rightarrow> ujCall list \<Rightarrow> UpgradeJob \<Rightarrow> string set \<Rightarrow> bool" where
  "atStage L h uj ms \<longleftrightarrow> basedOn L h uj \<and> open_view (viewOf L uj) \<and> ms \<subseteq> milestones
     \<and> (\<forall>t \<in> ms. reached (viewOf L uj) t)"

lemma atStage_mono [history_mono]: "atStage L h uj ms \<Longrightarrow> atStage L (h @ es) uj ms"
  by (auto simp: atStage_def intro: basedOn_mono)

lemma open_view_cong: "(\<And>t. t \<in> milestones \<Longrightarrow> v t = v' t) \<Longrightarrow> open_view v = open_view v'"
  by (simp add: open_view_def reached_def milestones_def)

lemma atStage_same:
  assumes "atStage L h a ms" and "sameView L a b"
  shows "atStage L h b ms"
proof -
  from assms(2) have v: "\<And>t. t \<in> milestones \<Longrightarrow> viewOf L b t = viewOf L a t" by (simp add: sameView_def)
  with assms open_view_cong [OF v] show ?thesis
    by (auto simp: atStage_def reached_def subset_iff intro: basedOn_same)
qed

lemma viewOf_None: "viewOf L uj t = None \<longleftrightarrow> FindStatusCondition L (uj_Conditions uj) t = None"
  by (simp add: viewOf_def)

lemma reached_find: "FindStatusCondition L (uj_Conditions uj) t = Some c \<Longrightarrow> reached (viewOf L uj) t \<longleftrightarrow> Status c = ConditionTrue"
  by (auto simp: reached_def viewOf_def)

lemma reached_conditionTrue:
  "reached (viewOf L uj) t \<longleftrightarrow> conditionTrue (FindStatusCondition L (uj_Conditions uj) t) \<noteq> None"
  by (auto simp: reached_def viewOf_def conditionTrue_def split: option.splits)

lemma open_view_unfinished: "open_view (viewOf L uj) \<longleftrightarrow> succeededCondition L uj = None \<and> failedCondition L uj = None"
  by (simp add: open_view_def reached_conditionTrue succeededCondition_def failedCondition_def)

lemma open_of_unfinished:
  assumes "\<not> jobFinished L uj"
  shows "open_view (viewOf L uj)"
proof -
  have "succeededCondition L uj = None" "failedCondition L uj = None"
    using assms finished_of_conditions [of L uj] by fastforce+
  then show ?thesis by (simp add: open_view_unfinished)
qed

context condition_laws
begin

lemma statusWith_sameView: "statusWith L uj c sent \<Longrightarrow> Type c \<notin> milestones \<Longrightarrow> sameView L uj sent"
  by (auto simp: sameView_def view_statusWith statusWith_def view_SetStatusCondition)

end

context reconcile_api
begin

lemma life_setCondition:
  assumes "basedOn L h uj" and "permits (asksVersion uj) (viewOf L uj) c"
  shows "follows (lifeProtocol L) h (setConditionAndUpdate L r uj c) (\<lambda>(uj', err) h'. err = None \<longrightarrow>
    basedOn L h' uj' \<and> uj_Spec uj' = uj_Spec uj \<and> viewOf L uj' = (viewOf L uj)(Type c := Some (Status c, Reason c)))"
proof (rule follows_mono [OF follows_setConditionAndUpdate
      [where E = "lifeProtocol L"]], goal_cases)
  case (2 now sent res)
  from lifeWrite_cond [OF basedOn_mono [OF assms(1)] 2 assms(2)] show ?case by simp
next
  case (4 x es)
  then obtain now sent res where *: "statusWith L uj c sent" "h @ es = h @ [Now now, StatusUpdateUpgradeJob sent res]"
    "x = (okOr sent res, errOf res)" "sameJob sent (okOr sent res)" by auto
  show ?case
  proof (cases res)
    case (Inr stored)
    have "StatusUpdateUpgradeJob sent (Inr stored) \<in> set (h @ es)" unfolding *(2) Inr by simp
    then have "basedOn L (h @ es) stored" by (intro basedOn_known) (auto simp: jobKnown_def)
    moreover have "viewOf L stored = (viewOf L uj)(Type c := Some (Status c, Reason c))"
      using view_sameJob [OF *(4)] view_statusWith [OF *(1)] Inr by simp
    moreover have "uj_Spec stored = uj_Spec uj"
      using *(1,4) Inr by (auto simp: statusWith_def sameJob_def sameObject_def)
    ultimately show ?thesis using *(3) Inr by simp
  qed (use * in auto)
qed auto

lemma life_setReturn:
  assumes "basedOn L h uj" and "permits (asksVersion uj) (viewOf L uj) c"
  shows "follows (lifeProtocol L) h (do { (uj', err) \<leftarrow> setConditionAndUpdate L r uj c; ret (f uj' err) }) (\<lambda>_ _. True)"
  by (rule follows_bind [OF life_setCondition [OF assms]]) (auto intro: follows_ret)

text \<open>The code's helper protocols write the status of the job variable they are given.\<close>

lemma hook_lifeWrite:
  assumes "basedOn L h uj" and "hookProtocol L uj event key t h (StatusUpdateUpgradeJob sent res)"
  shows "lifeWrite L h sent"
proof -
  from assms(2) obtain c where c: "statusWith L uj c sent" "hookVerdictCause L uj event key t h c"
    by (auto simp: hookProtocol_status)
  then have "open_view (viewOf L uj)"
    by (intro open_of_unfinished) (auto simp: hookVerdictCause_def)
  with c(2) have "permits (asksVersion uj) (viewOf L uj) c"
    by (auto simp: hookVerdictCause_def intro: permits.intros)
  with assms(1) c(1) show ?thesis by (rule lifeWrite_cond)
qed

lemma life_executeHooks:
  assumes "basedOn L h uj"
  shows "follows (lifeProtocol L) h (executeHooks L r uj event key info t) (\<lambda>(uj', res) h'. res = Inr True \<longrightarrow> uj' = uj)"
proof -
  have "follows (lifeProtocol L) h (executeHooks L r uj event key info t)
    (\<lambda>(uj', res) h'. sameObject uj uj' \<and> (jobFinished L uj \<longrightarrow> uj' = uj)
       \<and> (res = Inr True \<longrightarrow> uj' = uj \<and> hooksDone L uj event key t h'))"
  proof (rule follows_mono_from [OF executeHooks_follows [OF combine_laws_axioms]])
    fix es e assume "hookProtocol L uj event key t (h @ es) e"
    then show "lifeProtocol L (h @ es) e"
      using hook_lifeWrite [OF basedOn_mono [OF assms, of es]] by (cases e) (auto simp: lifeProtocol_def)
  qed
  then show ?thesis by (rule follows_mono) auto
qed

lemma atStage_open: "atStage L h uj ms \<Longrightarrow> open_view (viewOf L uj)"
  and atStage_based: "atStage L h uj ms \<Longrightarrow> basedOn L h uj"
  by (simp_all add: atStage_def)

lemma life_update:
  assumes st: "atStage L h uj ms" and c: "permits (asksVersion uj) (viewOf L uj) c"
    and b: "b \<longrightarrow> Type c = ty \<and> Status c = ConditionTrue \<and> ty \<in> milestones
      \<and> ty \<noteq> UpgradeJobConditionSucceeded \<and> ty \<noteq> UpgradeJobConditionFailed"
  shows "follows (lifeProtocol L) h (do {
      (uj', err) \<leftarrow> setConditionAndUpdate L r uj c;
      ret (uj', case err of Some e \<Rightarrow> Inl e | None \<Rightarrow> Inr b) })
    (\<lambda>(uj', res) h'. res = Inr True \<longrightarrow> atStage L h' uj' (insert ty ms) \<and> uj_Spec uj' = uj_Spec uj)"
proof (rule follows_bind [OF life_setCondition [OF atStage_based [OF st] c]], goal_cases)
  case post: (1 x es)
  obtain uj' err where x: "x = (uj', err)" by (cases x)
  show ?case unfolding x prod.case
  proof (rule follows_ret, clarsimp split: option.splits)
    assume "err = None" and b
    with post x have "basedOn L (h @ es) uj'" "uj_Spec uj' = uj_Spec uj"
      "viewOf L uj' = (viewOf L uj)(Type c := Some (Status c, Reason c))" by auto
    then show "atStage L (h @ es) uj' (insert ty ms) \<and> uj_Spec uj' = uj_Spec uj"
      using st b \<open>b\<close> by (auto simp: atStage_def open_view_def reached_upd)
  qed
qed

lemma life_runHealthCheck:
  assumes st: "atStage L h uj ms" and ty: "ty \<in> {UpgradeJobConditionPreHealthCheckDone, UpgradeJobConditionPostHealthCheckDone}"
    and c: "\<And>rsn msg. permits (asksVersion uj) (viewOf L uj) (newCondition ty ConditionTrue rsn msg)"
  shows "follows (lifeProtocol L) h (runHealthCheck L r uj cv hc ty rsn)
    (\<lambda>(uj', res) h'. res = Inr True \<longrightarrow> atStage L h' uj' (insert ty ms) \<and> uj_Spec uj' = uj_Spec uj)"
  unfolding runHealthCheck_def Let_def
proof (intro follows_case_option follows_if follows_bind_call, goal_cases)
  case 1
  show ?case
    by (rule life_update [OF st]) (use 1 atStage_open [OF st] in \<open>auto intro: progress simp: viewOf_None\<close>)
next
  case (2 c)
  then have "reached (viewOf L uj) ty" by (simp add: reached_find)
  then show ?case using st ty by (intro follows_ret) (auto simp: atStage_def milestones_def)
next
  case (4 c now)
  show ?case
    by (rule life_update [OF atStage_mono [OF st]]) (use atStage_open [OF st] in \<open>auto intro: failed\<close>)
next
  case (6 hcond)
  show ?case by (rule life_update [OF st c]) (use ty in \<open>auto simp: milestones_def\<close>)
qed (auto intro: follows_ret)

text \<open>Pausing the pools keeps the stage.\<close>

lemma stored_atStage:
  assumes "atStage L h uj ms" and "statusWith L uj c sent" and "Type c \<notin> milestones" and "sameJob sent stored"
    and "jobKnown h' stored"
  shows "atStage L h' stored ms \<and> uj_Spec stored = uj_Spec uj"
proof -
  have "viewOf L stored = (viewOf L uj)(Type c := Some (Status c, Reason c))"
    using view_sameJob [OF assms(4)] view_statusWith [OF assms(2)] by simp
  then show ?thesis
    using assms by (auto simp: atStage_def open_view_def reached_upd milestones_def statusWith_def
        sameJob_def sameObject_def subset_iff intro!: basedOn_known)
qed

lemma pause_lifeWrite:
  assumes "basedOn L h uj" and "open_view (viewOf L uj)" and "pauseProtocol L uj h (StatusUpdateUpgradeJob sent res)"
  shows "lifeWrite L h sent"
  using assms(3) unfolding pauseProtocol_def ujCall.case
proof (elim disjE exE conjE)
  fix c assume "statusWith L uj c sent" "Type c = UpgradeJobConditionMachineConfigPoolsPaused"
  then show ?thesis by (intro lifeWrite_cond [OF assms(1)] detail) (auto simp: milestones_def)
next
  fix c assume "statusWith L uj c sent" "Type c = UpgradeJobConditionFailed" "Status c = ConditionTrue"
  with assms(2) show ?thesis by (intro lifeWrite_cond [OF assms(1)] failed)
next
  fix key assume "hookProtocol L uj EventMachineConfigPoolUnpause key zeroTime h (StatusUpdateUpgradeJob sent res)"
  with assms(1) show ?thesis by (rule hook_lifeWrite)
qed

lemma life_pauseUnpause:
  assumes st: "atStage L h uj ms"
  shows "follows (lifeProtocol L) h (pauseUnpauseMachineConfigPools L r uj)
    (\<lambda>(uj', res) h'. res = Inr True \<longrightarrow> atStage L h' uj' ms \<and> uj_Spec uj' = uj_Spec uj)"
proof -
  have loop: "follows (lifeProtocol L) h (pausePoolSpecs L r pools uj acc) (pauseLoopPost uj)"
    if "pools = MachineConfigPools (Config (uj_Spec uj))" for pools acc
  proof (rule follows_mono_from [OF pausePoolSpecs_follows [OF combine_laws_axioms]])
    fix es e assume "pauseProtocol L uj (h @ es) e"
    then show "lifeProtocol L (h @ es) e"
      using pause_lifeWrite [OF basedOn_mono [OF atStage_based [OF st], of es] atStage_open [OF st]]
      by (cases e) (auto simp: lifeProtocol_def)
  qed (simp add: that)
  show ?thesis unfolding pauseUnpauseMachineConfigPools_def
  proof (rule follows_bind [OF loop [OF refl]], intro emits_rules, goal_cases)
    case (2 x es uj' out acc manages paused)
    then have uj': "uj' = uj" by auto
    have st': "atStage L (h @ es) uj ms" by (rule atStage_mono [OF st])
    show ?case unfolding uj'
    proof (intro follows_setStatusCondition follows_case_prod follows_let follows_if follows_bind_call
        follows_ret, goal_cases)
      case (2 now cs changed csa changeda res)
      then show ?case
        using lifeWrite_detail [OF basedOn_mono [OF atStage_based [OF st'], of "[Now now]"] 2(2)] by (simp add: milestones_def)
    next
      case (3 now cs changed csa changeda res)
      have "sameJob (uj\<lparr>uj_Conditions := csa\<rparr>) (okOr (uj\<lparr>uj_Conditions := csa\<rparr>) res)"
        using 3 by (intro update_okOr) simp
      with 3 show ?case
        by (cases res) (simp_all, rule stored_atStage [OF st' 3(2)], auto simp: jobKnown_def milestones_def)
    next
      case (4 now cs changed csa changeda)
      then have "sameView L uj (uj\<lparr>uj_Conditions := csa\<rparr>)"
        by (auto intro!: statusWith_sameView simp: milestones_def)
      from atStage_same [OF atStage_mono [OF st'] this] show ?case by simp
    qed simp
  qed auto
qed

text \<open>The functions of a started job, from the last one on.\<close>

lemma life_settlePools:
  assumes st: "atStage L h uj ms" and "UpgradeJobConditionPostHealthCheckDone \<in> ms"
  shows "follows (lifeProtocol L) h (settlePools L r uj) (\<lambda>_ _. True)"
  unfolding settlePools_def Let_def
proof (intro follows_bind_call follows_case_sum follows_case_prod follows_setStatusCondition follows_if
    follows_ret, goal_cases)
  case (4 mcpl mcps paused updating now cs changed csa changeda res)
  then show ?case
    using lifeWrite_detail [OF basedOn_mono [OF atStage_based [OF st], of "[ListPools None mcpl, Now now]"] 4(5)]
    by (simp add: milestones_def)
next
  case (6 mcpl mcps paused updating now cs changed csa changeda)
  show ?case by (intro follows_bind [OF nextTimedReconcile_follows] follows_ret) auto
next
  case (8 mcpl mcps paused updating now cs changed csa changeda)
  then have "sameView L uj (uj\<lparr>uj_Conditions := csa\<rparr>)"
    by (auto intro!: statusWith_sameView simp: milestones_def)
  from atStage_same [OF atStage_mono [OF atStage_mono [OF st, of "[ListPools None mcpl]"], of "[Now now]"] this] assms(2)
  show ?case by (intro life_setReturn) (auto simp: atStage_def intro!: succeeded)
qed simp_all

lemma life_finishStartedJob:
  assumes st: "atStage L h uj ms" and "UpgradeJobConditionPreHealthCheckDone \<in> ms"
    and "asksVersion uj \<Longrightarrow> UpgradeJobConditionUpgradeCompleted \<in> ms"
  shows "follows (lifeProtocol L) h (finishStartedJob L r uj cv) (\<lambda>_ _. True)"
proof -
  have c: "permits (asksVersion uj) (viewOf L uj) (newCondition UpgradeJobConditionPostHealthCheckDone ConditionTrue rsn msg)"
    for rsn msg using assms by (intro verified) (auto simp: atStage_def)
  show ?thesis unfolding finishStartedJob_def
  proof (rule follows_bind [OF life_runHealthCheck [OF st _ c]], simp,
      intro follows_case_prod follows_case_sum follows_if, goal_cases)
    case (3 x es uj2 ok b)
    then have st2: "atStage L (h @ es) uj2 (insert UpgradeJobConditionPostHealthCheckDone ms)" by auto
    show ?case
    proof (rule follows_bind [OF life_executeHooks [OF atStage_based [OF st2]]],
        intro follows_case_prod follows_case_sum follows_if, goal_cases)
      case (3 y es' uj3 cont c)
      then show ?case using atStage_mono [OF st2] by (auto intro: life_settlePools)
    qed (auto intro: follows_ret)
  qed (auto intro: follows_ret)
qed

lemma life_driveUpgrade:
  assumes st: "atStage L h uj ms" and pre: "UpgradeJobConditionPreHealthCheckDone \<in> ms"
  shows "follows (lifeProtocol L) h (driveUpgrade L r uj cv dv) (\<lambda>_ _. True)"
  unfolding driveUpgrade_def
proof (intro follows_if follows_case_option, goal_cases)
  case 1
  show ?case by (rule life_setReturn [OF atStage_based [OF st]]) (use atStage_open [OF st] in \<open>auto intro: failed\<close>)
next
  case 2
  show ?case by (intro follows_bind_call follows_ret) auto
next
  case 3
  show ?case
    by (rule life_setReturn [OF atStage_based [OF st]]) (use 3 atStage_open [OF st] in \<open>auto intro: progress simp: viewOf_None\<close>)
next
  case (4 con)
  then show ?case by (intro follows_ret) auto
next
  case (5 con)
  show ?case
  proof (intro follows_bind_call follows_case_sum follows_case_prod follows_if follows_ret, goal_cases)
    case (4 mcpl mcps paused updating)
    show ?case
      by (rule life_setReturn [OF basedOn_mono [OF atStage_based [OF st]]])
        (use st pre in \<open>auto simp: atStage_def intro: upgraded\<close>)
  qed simp_all
next
  case (6 con)
  then have "reached (viewOf L uj) UpgradeJobConditionUpgradeCompleted" by (simp add: reached_find)
  then have "atStage L h uj (insert UpgradeJobConditionUpgradeCompleted ms)"
    using st by (auto simp: atStage_def milestones_def)
  from life_finishStartedJob [OF this] pre show ?case by simp
qed

lemma life_upgradeLocked:
  assumes st: "atStage L h uj ms" and "UpgradeJobConditionStarted \<in> ms"
  shows "follows (lifeProtocol L) h (upgradeLocked L r uj cv) (\<lambda>_ _. True)"
  unfolding upgradeLocked_def
proof (rule follows_bind [OF life_pauseUnpause [OF st]], intro follows_case_prod follows_case_sum follows_if, goal_cases)
  case (3 x es uj1 cont b)
  then have st1: "atStage L (h @ es) uj1 ms" by auto
  have c: "permits (asksVersion uj1) (viewOf L uj1) (newCondition UpgradeJobConditionPreHealthCheckDone ConditionTrue rsn msg)"
    for rsn msg using st1 assms(2) by (intro checked) (auto simp: atStage_def)
  show ?case
  proof (rule follows_bind [OF life_runHealthCheck [OF st1 _ c]], simp,
      intro follows_case_prod follows_case_sum follows_if, goal_cases)
    case (3 y es' uj2 ok b)
    then have st2: "atStage L ((h @ es) @ es') uj2 (insert UpgradeJobConditionPreHealthCheckDone ms)" by auto
    show ?case
      by (intro follows_case_option life_finishStartedJob [OF st2] life_driveUpgrade [OF st2]) auto
  qed (auto intro: follows_ret)
qed (auto intro: follows_ret)

lemma life_reconcileStartedJob:
  assumes st: "atStage L h uj {UpgradeJobConditionStarted}"
  shows "follows (lifeProtocol L) h (reconcileStartedJob L r uj) (\<lambda>_ _. True)"
  unfolding reconcileStartedJob_def timeSinceStartAfter_def tryLockClusterVersion_def State_Monad.bind_assoc State_Monad.bind_left_identity
proof (intro follows_bind_call follows_if, goal_cases)
  case (2 now)
  show ?case
    by (rule life_setReturn [OF basedOn_mono [OF atStage_based [OF st]]]) (use atStage_open [OF st] in \<open>auto intro: failed\<close>)
next
  case (3 now)
  show ?case
  proof (rule follows_bind [OF life_executeHooks [OF basedOn_mono [OF atStage_based [OF st]]]],
      intro follows_case_prod follows_case_sum follows_if follows_bind_call, goal_cases)
    case (5 x es uj' cont b got version)
    then have uj': "uj' = uj" by auto
    have st': "atStage L (h @ es') uj {UpgradeJobConditionStarted}" for es' by (rule atStage_mono [OF st])
    show ?case unfolding uj'
      using life_upgradeLocked [OF st'] 
      by (auto split: option.splits sum.splits intro!: emits_rules)
  qed (auto intro: follows_ret)
qed simp

lemma pending_permits:
  "open_view v \<Longrightarrow> pendingVerdict L uj h c \<Longrightarrow> permits w v c"
  unfolding pendingVerdict_def by (auto intro: succeeded failed started)

lemma life_reconcilePending:
  assumes "basedOn L h uj" and "open_view (viewOf L uj)"
  shows "follows (lifeProtocol L) h (reconcilePending L r uj) (\<lambda>_ _. True)"
proof (rule follows_mono_from [OF reconcilePending_follows])
  fix es e assume "pendingProtocol L uj (h @ es) e"
  then show "lifeProtocol L (h @ es) e"
    using lifeWrite_cond [OF basedOn_mono [OF assms(1), of es] _ pending_permits [OF assms(2)]]
    by (cases e) (auto simp: lifeProtocol_def pendingProtocol_def)
qed

lemma life_reconcileJob:
  assumes known: "jobKnown h uj" and zero: "isZeroPtr (DeletionTimestamp uj)"
  shows "follows (lifeProtocol L) h (reconcileJob L r uj) (\<lambda>_ _. True)"
proof (cases "unfinished L uj")
  case False
  show ?thesis
  proof (rule follows_mono_from [OF reconcileJob_follows [OF zero]])
    fix es e assume "jobProtocol L r uj (h @ es) e"
    from jobProtocol_finished [OF False this] show "lifeProtocol L (h @ es) e"
      by (cases e) (auto simp: lifeProtocol_def finishedProtocol_def milestones_def
          intro!: lifeWrite_detail [OF basedOn_mono [OF basedOn_known [OF known]]])
  qed
next
  case True
  then have un: "succeededCondition L uj = None" "failedCondition L uj = None" by (simp_all add: unfinished_def)
  then have op: "open_view (viewOf L uj)" by (simp add: open_view_unfinished)
  show ?thesis
    unfolding reconcileJob_def succeededCondition_def [symmetric] failedCondition_def [symmetric] un option.case
  proof (rule follows_bind [OF life_executeHooks [OF basedOn_known [OF known]]],
      intro follows_case_prod follows_case_sum follows_if, goal_cases)
    case (3 x es uj' cont b)
    then have "uj' = uj" "atStage L (h @ es) uj {UpgradeJobConditionStarted}"
      using op by (auto simp: atStage_def reached_true milestones_def intro: basedOn_known jobKnown_mono [OF known])
    then show ?case by (auto intro: life_reconcileStartedJob)
  next
    case (4 x es uj' cont b)
    then have "uj' = uj" by auto
    then show ?case by (auto intro: life_reconcilePending basedOn_known jobKnown_mono [OF known] op)
  qed (auto intro: follows_ret)
qed

lemma life_Reconcile: "follows (lifeProtocol L) h (Reconcile L r req) (\<lambda>_ _. True)"
proof -
  have track: "follows (lifeProtocol L) h (trackHookJobs L r req) (\<lambda>_ _. True)"
  proof (rule follows_mono [OF trackHookJobs_follows [OF tracker_laws_axioms]])
    fix h e assume t: "trackProtocol L req h e"
    show "lifeProtocol L h e"
    proof (cases e)
      case (StatusUpdateUpgradeJob sent res)
      with t obtain uj where "GetUpgradeJob req (Inr uj) \<in> set h" "sent = uj\<lparr>uj_HookJobTracker := uj_HookJobTracker sent\<rparr>"
        by (auto simp: trackProtocol_def)
      moreover from this have "basedOn L h uj" by (intro basedOn_known) (auto simp: jobKnown_def)
      ultimately show ?thesis unfolding StatusUpdateUpgradeJob lifeProtocol_simps lifeWrite_def by blast
    qed (simp_all add: lifeProtocol_def)
  qed simp
  show ?thesis unfolding Reconcile_def
  proof (rule follows_bind [OF track], intro follows_case_option follows_bind_call follows_case_sum follows_if, goal_cases)
    case (4 x es got uj)
    then show ?case by (intro life_reconcileJob) (auto simp: jobKnown_def)
  qed (auto intro: follows_ret simp: lifeProtocol_def)
qed

end

section \<open>The stored job\<close>

text \<open>The versions of the job that were stored, the present one first, and the calls of the unfinished runs:
  several instances of the controller may work on the job.\<close>

record jobShared =
  jobVersions :: "UpgradeJob list"
  runCalls :: "nat \<Rightarrow> ujCall list"

abbreviation currentJob :: "jobShared \<Rightarrow> UpgradeJob" where
  "currentJob a \<equiv> hd (jobVersions a)"

text \<open>The server accepts a status update of the present version. It takes the status that was sent, up to
  the precision of times, and stores it under a fresh resource version; an update that changes nothing
  leaves the version as it is.\<close>

definition acceptsStatus :: "UpgradeJob list \<Rightarrow> UpgradeJob \<Rightarrow> UpgradeJob \<Rightarrow> bool" where
  "acceptsStatus vs sent stored \<longleftrightarrow> vs \<noteq> [] \<and> ResourceVersion sent = ResourceVersion (hd vs)
     \<and> conditionsKey (uj_Conditions stored) = conditionsKey (uj_Conditions sent)
     \<and> stored = (hd vs)\<lparr>uj_Conditions := uj_Conditions stored, uj_HookJobTracker := uj_HookJobTracker sent,
         ResourceVersion := ResourceVersion stored\<rparr>"

fun statusEffect :: "UpgradeJob list \<Rightarrow> ujCall \<Rightarrow> UpgradeJob list \<Rightarrow> bool" where
  "statusEffect vs (GetUpgradeJob nn (Inr uj)) vs' \<longleftrightarrow> vs' = vs \<and> uj \<in> set vs"
| "statusEffect vs (StatusUpdateUpgradeJob sent (Inr stored)) vs' \<longleftrightarrow> acceptsStatus vs sent stored
     \<and> (if stored = hd vs then vs' = vs else ResourceVersion stored \<notin> ResourceVersion ` set vs \<and> vs' = stored # vs)"
| "statusEffect vs e vs' \<longleftrightarrow> vs' = vs"

text \<open>The steps: a run starts, a run makes its next call, or someone else updates the job and leaves the
  conditions alone; the specification may change.\<close>

inductive jobStep :: "(ujCall list \<Rightarrow> bool) \<Rightarrow> jobShared \<Rightarrow> jobShared \<Rightarrow> bool" for runs where
  startRun: "jobStep runs a (a\<lparr>runCalls := (runCalls a)(i := [])\<rparr>)"
| callRun: "runs (runCalls a i @ e # es) \<Longrightarrow> statusEffect (jobVersions a) e vs \<Longrightarrow>
    jobStep runs a (a\<lparr>jobVersions := vs, runCalls := (runCalls a)(i := runCalls a i @ [e])\<rparr>)"
| otherJobWrite: "uj_Conditions uj = uj_Conditions (currentJob a) \<Longrightarrow> ResourceVersion uj \<notin> ResourceVersion ` set (jobVersions a)
    \<Longrightarrow> jobStep runs a (a\<lparr>jobVersions := uj # jobVersions a\<rparr>)"

inductive jobReachable :: "(ujCall list \<Rightarrow> bool) \<Rightarrow> jobShared \<Rightarrow> bool" for runs where
  created: "jobReachable runs \<lparr>jobVersions = [uj], runCalls = (\<lambda>_. [])\<rparr>"
| stepped: "jobReachable runs a \<Longrightarrow> jobStep runs a a' \<Longrightarrow> jobReachable runs a'"

section \<open>The refinement\<close>

text \<open>Whatever writes the status as \<open>lifeWrite\<close> says moves the job along the life cycle.\<close>

locale job_runs =
  fixes L :: "'z lib_scheme" and runs :: "ujCall list \<Rightarrow> bool"
  assumes run_laws: "runs es \<Longrightarrow> condition_laws L"
    and run_discipline: "runs (h @ StatusUpdateUpgradeJob sent res # es) \<Longrightarrow> lifeWrite L h sent"
begin

definition soundJobs :: "jobShared \<Rightarrow> bool" where
  "soundJobs a \<longleftrightarrow> jobVersions a \<noteq> [] \<and> distinct (map ResourceVersion (jobVersions a))
     \<and> (\<forall>i uj. jobKnown (runCalls a i) uj \<longrightarrow> uj \<in> set (jobVersions a))"

lemma soundJobs_current:
  assumes "soundJobs a" and "uj \<in> set (jobVersions a)" and "ResourceVersion uj = ResourceVersion (currentJob a)"
  shows "uj = currentJob a"
proof -
  from assms(1) obtain v vs where "jobVersions a = v # vs" by (cases "jobVersions a") (auto simp: soundJobs_def)
  with assms show ?thesis by (auto simp: soundJobs_def dest: image_eqI [of "ResourceVersion v" ResourceVersion, OF sym])
qed

lemma statusEffect_versions:
  "statusEffect vs e vs' \<Longrightarrow> vs' = vs \<or> (\<exists>sent stored. e = StatusUpdateUpgradeJob sent (Inr stored)
     \<and> acceptsStatus vs sent stored \<and> ResourceVersion stored \<notin> ResourceVersion ` set vs \<and> vs' = stored # vs)"
  by (cases "(vs, e, vs')" rule: statusEffect.cases) (auto split: if_splits)

lemma jobKnown_step: "vs \<noteq> [] \<Longrightarrow> statusEffect vs e vs' \<Longrightarrow> jobKnown (h @ [e]) uj \<Longrightarrow> jobKnown h uj \<or> uj \<in> set vs'"
  by (auto simp: jobKnown_def split: if_splits)

lemma soundJobs_step:
  assumes "soundJobs a" and "jobStep runs a a'"
  shows "soundJobs a'"
  using assms(2)
proof cases
  case (callRun i e es vs)
  have "set (jobVersions a) \<subseteq> set vs" "vs \<noteq> []" "distinct (map ResourceVersion vs)"
    using statusEffect_versions [OF callRun(3)] assms(1) by (auto simp: soundJobs_def)
  then show ?thesis using callRun assms(1) jobKnown_step [OF _ callRun(3)] by (fastforce simp: soundJobs_def)
qed (use assms(1) in \<open>auto simp: soundJobs_def jobKnown_def\<close>)

lemma soundJobs_reachable: "jobReachable runs a \<Longrightarrow> soundJobs a"
proof (induction rule: jobReachable.induct)
  case (created uj)
  show ?case by (simp add: soundJobs_def jobKnown_def)
qed (rule soundJobs_step)

lemma phaseOf_conditions: "uj_Conditions a = uj_Conditions b \<Longrightarrow> phaseOf L a = phaseOf L b"
  by (simp add: phaseOf_def viewOf_def [abs_def])

text \<open>The write of a run that the server accepts.\<close>

lemma accepted_lifecycle:
  assumes L: "condition_laws L" and sound: "soundJobs a" and "lifeWrite L (runCalls a i) sent"
    and acc: "acceptsStatus (jobVersions a) sent stored"
  shows "lifecycle (asksVersion (currentJob a)) (phaseOf L (currentJob a)) (phaseOf L stored)"
proof -
  have stored: "phaseOf L stored = phaseOf L sent"
  proof -
    have "map (\<lambda>c. (Type c, Status c, Reason c, Message c)) (uj_Conditions stored)
      = map (\<lambda>c. (Type c, Status c, Reason c, Message c)) (uj_Conditions sent)"
      using acc by (simp add: acceptsStatus_def conditionsKey_def)
    from condition_laws.find_upto_time [OF L this] show ?thesis by (simp add: phaseOf_def viewOf_def [abs_def])
  qed
  from assms(3) obtain base where base: "basedOn L (runCalls a i) base"
    and w: "sent = base\<lparr>uj_HookJobTracker := uj_HookJobTracker sent\<rparr>
      \<or> (\<exists>c. statusWith L base c sent \<and> permits (asksVersion base) (viewOf L base) c)"
    by (auto simp: lifeWrite_def)
  have "ResourceVersion sent = ResourceVersion base"
    using w
  proof (elim disjE exE conjE)
    assume "sent = base\<lparr>uj_HookJobTracker := uj_HookJobTracker sent\<rparr>"
    from arg_cong [OF this, of ResourceVersion] show ?thesis by simp
  qed (auto simp: statusWith_def)
  then have rv: "ResourceVersion base = ResourceVersion (currentJob a)" using acc by (simp add: acceptsStatus_def)
  from base obtain uj0 where "jobKnown (runCalls a i) uj0" "sameView L uj0 base" by (auto simp: basedOn_def)
  with sound rv have same: "sameView L (currentJob a) base"
    using soundJobs_current [OF sound] by (auto simp: soundJobs_def sameView_def)
  then have cur: "phaseOf L (currentJob a) = phaseIn (viewOf L base)" "asksVersion (currentJob a) = asksVersion base"
    using phaseIn_cong [of "viewOf L (currentJob a)" "viewOf L base"] by (simp_all add: phaseOf_def sameView_def)
  from w show ?thesis
  proof (elim disjE exE conjE)
    assume "sent = base\<lparr>uj_HookJobTracker := uj_HookJobTracker sent\<rparr>"
    from arg_cong [OF this, of uj_Conditions] have "phaseOf L sent = phaseOf L base" by (intro phaseOf_conditions) simp
    then show ?thesis unfolding stored cur by (simp add: phaseOf_def stay)
  next
    fix c assume "statusWith L base c sent" "permits (asksVersion base) (viewOf L base) c"
    then show ?thesis
      using permits_lifecycle unfolding stored cur by (simp add: phaseOf_def condition_laws.view_statusWith [OF L])
  qed
qed

lemma lifecycle_step:
  assumes "jobReachable runs a" and "jobStep runs a a'"
  shows "lifecycle (asksVersion (currentJob a)) (phaseOf L (currentJob a)) (phaseOf L (currentJob a'))"
  using assms(2)
proof cases
  case (callRun i e es vs)
  from statusEffect_versions [OF callRun(3)] show ?thesis
  proof (elim disjE exE conjE)
    fix sent stored assume e: "e = StatusUpdateUpgradeJob sent (Inr stored)"
      and acc: "acceptsStatus (jobVersions a) sent stored" and vs: "vs = stored # jobVersions a"
    from accepted_lifecycle [OF run_laws [OF callRun(2)] soundJobs_reachable [OF assms(1)]
        run_discipline [OF callRun(2) [unfolded e]] acc]
    show ?thesis using callRun vs by simp
  qed (use callRun in \<open>simp add: stay\<close>)
next
  case (otherJobWrite uj)
  then show ?thesis using phaseOf_conditions [OF otherJobWrite(2)] by (simp add: stay)
qed (simp add: stay)

text \<open>The order of the phases is transitive, so any number of steps only goes forward.\<close>

lemma steps_forward:
  assumes "(jobStep runs)\<^sup>*\<^sup>* a a'" and "jobReachable runs a"
  shows "phaseOf L (currentJob a) \<le> phaseOf L (currentJob a')"
proof -
  have "jobReachable runs a' \<and> phaseOf L (currentJob a) \<le> phaseOf L (currentJob a')"
    using assms(1)
  proof induction
    case (step b c)
    then show ?case by (blast intro: stepped order.trans lifecycle_le lifecycle_step)
  qed (simp add: assms(2))
  then show ?thesis by simp
qed

end

section \<open>The controller\<close>

lemma reconcileRun_lifeWrite:
  fixes T :: "'s itself"
  assumes "reconcileRun T L req (h @ StatusUpdateUpgradeJob sent res # es)"
  shows "lifeWrite L h sent"
  using assms unfolding reconcileRun_def
proof (elim exE conjE)
  fix r :: "'s UpgradeJobReconciler" and s
  assume api: "reconcile_api r L" and run: "h @ StatusUpdateUpgradeJob sent res # es = callsOf (Reconcile L r req) s"
  have "allowed (lifeProtocol L) [] (callsOf (Reconcile L r req) s)"
    by (rule conjunct1 [OF follows_run [OF reconcile_api.life_Reconcile [OF api]]])
  then have "lifeProtocol L ([] @ h) (StatusUpdateUpgradeJob sent res)"
    unfolding run [symmetric] by (rule allowed_split)
  then show ?thesis by simp
qed

interpretation upgradeJobs: job_runs L "reconcileRun T L req" for L T req
proof (rule job_runs.intro)
  show "condition_laws L" if "reconcileRun T L req es" for es
    using that reconcile_api.axioms(2) unfolding reconcileRun_def by blast
  show "lifeWrite L h sent" if "reconcileRun T L req (h @ StatusUpdateUpgradeJob sent res # es)" for h sent res es
    using that by (rule reconcileRun_lifeWrite)
qed

text \<open>The calls of a run that do not change the job.\<close>

lemma calls_reachable:
  assumes "jobReachable runs a" and "runs (runCalls a i @ h @ es)"
    and "\<forall>e \<in> set h. statusEffect (jobVersions a) e (jobVersions a)"
  shows "jobReachable runs (a\<lparr>runCalls := (runCalls a)(i := runCalls a i @ h)\<rparr>)"
  using assms
proof (induction h arbitrary: a)
  case (Cons e h)
  let ?a = "a\<lparr>runCalls := (runCalls a)(i := runCalls a i @ [e])\<rparr>"
  have "jobStep runs a (a\<lparr>jobVersions := jobVersions a, runCalls := (runCalls a)(i := runCalls a i @ [e])\<rparr>)"
    by (rule callRun [where es = "h @ es"]) (use Cons.prems in auto)
  then have "jobReachable runs ?a" by (intro stepped [OF Cons.prems(1)]) simp
  from Cons.IH [OF this] Cons.prems show ?case by (simp cong: if_cong)
qed simp

definition startedJobSent :: UpgradeJob where
  "startedJobSent = pendingJob\<lparr>uj_Conditions := [(newCondition UpgradeJobConditionStarted ConditionTrue UpgradeJobReasonStarted
     (''Upgrade started at '' @ FormatRFC3339 refLib minute))\<lparr>LastTransitionTime := minute\<rparr>]\<rparr>"

definition startReads :: "ujCall list" where
  "startReads = [GetUpgradeJob sampleRequest (Inr pendingJob),
     ListJobs ''ns'' [hookJobTrackingLabelUpgradeJob \<mapsto> ''job''] (Inr []), GetUpgradeJob sampleRequest (Inr pendingJob),
     ListHooks ''ns'' (Inr []), Now minute, ListWindows ''ns'' (Inr []), Now minute]"

lemma start_calls:
  "callsOf (Reconcile refLib (quietServer pendingJob sampleVersion) sampleRequest) ()
     = startReads @ [StatusUpdateUpgradeJob startedJobSent (Inr (bump startedJobSent))]"
  by (simp add: callsOf_def Reconcile_def trackHookJobs_def sampleRequest_def setNew_def setEqual_def isZeroPtr_def
      reconcileJob_def conditionTrue_def executeHooks_def emptyOutcome_def hookVerdict_def reconcilePending_def
      sampleSpec_def minute_def second_def checkAndMarkSkipped_def matchingUpgradeSuspensionWindow_def
      setConditionAndUpdate_def setStatusCondition_def Let_def startReads_def startedJobSent_def)

definition beforeStart :: jobShared where
  "beforeStart = \<lparr>jobVersions = [pendingJob], runCalls = (\<lambda>_. [])(0 := startReads)\<rparr>"

definition afterStart :: jobShared where
  "afterStart = \<lparr>jobVersions = [bump startedJobSent, pendingJob],
     runCalls = (\<lambda>_. [])(0 := startReads @ [StatusUpdateUpgradeJob startedJobSent (Inr (bump startedJobSent))])\<rparr>"

lemma start_run:
  "reconcileRun TYPE(unit) refLib sampleRequest
     (startReads @ [StatusUpdateUpgradeJob startedJobSent (Inr (bump startedJobSent))])"
  unfolding reconcileRun_def using quietServer_api start_calls by metis

lemma beforeStart_reachable: "jobReachable (reconcileRun TYPE(unit) refLib sampleRequest) beforeStart"
proof -
  have "jobReachable (reconcileRun TYPE(unit) refLib sampleRequest) (\<lparr>jobVersions = [pendingJob], runCalls = (\<lambda>_. [])\<rparr>
      \<lparr>runCalls := (\<lambda>_. [])(0 := [] @ startReads)\<rparr>)"
    using calls_reachable [OF created [where uj = pendingJob], where i = 0 and h = startReads] start_run
    by (auto simp: startReads_def)
  then show ?thesis by (simp add: beforeStart_def)
qed

lemma start_changes: "bump startedJobSent \<noteq> pendingJob" "ResourceVersion (bump startedJobSent) \<noteq> ResourceVersion pendingJob"
proof -
  show "ResourceVersion (bump startedJobSent) \<noteq> ResourceVersion pendingJob" by (simp add: startedJobSent_def bump_def)
  then show "bump startedJobSent \<noteq> pendingJob" by metis
qed

lemma start_step: "jobStep (reconcileRun TYPE(unit) refLib sampleRequest) beforeStart afterStart"
proof -
  have "acceptsStatus [pendingJob] startedJobSent (bump startedJobSent)"
    by (simp add: acceptsStatus_def startedJobSent_def bump_def)
  then have "statusEffect (jobVersions beforeStart) (StatusUpdateUpgradeJob startedJobSent (Inr (bump startedJobSent)))
      [bump startedJobSent, pendingJob]"
    using start_changes by (simp add: beforeStart_def)
  from callRun [where es = "[]" and i = 0, OF _ this] start_run show ?thesis
    by (simp add: beforeStart_def afterStart_def)
qed

lemma start_phases: "phaseOf refLib (currentJob beforeStart) = Pending" "phaseOf refLib (currentJob afterStart) = Started"
  by (simp_all add: beforeStart_def afterStart_def phaseOf_def phaseIn_def viewOf_def reached_def startedJobSent_def bump_def)

text \<open>C4: the controller refines the life cycle. In every interleaving of runs of \<open>Reconcile\<close> for a job, with
  stale reads and with other writers that leave the conditions alone, each step moves the stored job
  along the abstract machine: from pending over started, checked, upgraded and verified to succeeded, a
  job that asks for a version only by way of upgraded, and from every open phase to skipped or failed.\<close>

theorem job_lifecycle:
  assumes "jobReachable (reconcileRun T L req) a" and "jobStep (reconcileRun T L req) a a'"
  shows "lifecycle (asksVersion (currentJob a)) (phaseOf L (currentJob a)) (phaseOf L (currentJob a'))"
  by (rule upgradeJobs.lifecycle_step [OF assms])

theorem job_lifecycle_witness:
  "phaseOf refLib (currentJob beforeStart) = Pending \<and> phaseOf refLib (currentJob afterStart) = Started
     \<and> lifecycle True Pending Started"
  using job_lifecycle [OF beforeStart_reachable start_step]
  by (simp add: start_phases) (simp add: beforeStart_def sampleSpec_def)

text \<open>C5: a job never goes back and a verdict is final. In every continuation of such an interleaving the phase of
  the stored job only moves forward, in the order pending, started, checked, upgraded, verified, and then one of
  skipped, succeeded and failed; once it is one of the last three, it stays so.\<close>

theorem verdict_final:
  assumes "jobReachable (reconcileRun T L req) a" and "(jobStep (reconcileRun T L req))\<^sup>*\<^sup>* a a'"
  shows "phaseOf L (currentJob a) \<le> phaseOf L (currentJob a')
    \<and> (finalPhase (phaseOf L (currentJob a)) \<longrightarrow> phaseOf L (currentJob a') = phaseOf L (currentJob a))"
  using upgradeJobs.steps_forward [OF assms(2,1)] final_maximal by blast

definition skippedJob :: UpgradeJob where
  "skippedJob = pendingJob\<lparr>uj_Conditions := [newCondition UpgradeJobConditionSucceeded ConditionTrue UpgradeJobReasonSkipped '''']\<rparr>"

definition skippedState :: "UpgradeJob list \<Rightarrow> jobShared" where
  "skippedState ujs = \<lparr>jobVersions = ujs @ [skippedJob], runCalls = (\<lambda>_. [])\<rparr>"

lemma relabel_step:
  "jobStep (reconcileRun TYPE(unit) refLib sampleRequest) (skippedState [])
     (skippedState [skippedJob\<lparr>Labels := Map.empty, ResourceVersion := ''2''\<rparr>])"
  using otherJobWrite [where a = "skippedState []" and uj = "skippedJob\<lparr>Labels := Map.empty, ResourceVersion := ''2''\<rparr>"]
  by (simp add: skippedState_def) (simp add: skippedJob_def)

theorem verdict_final_witness:
  "phaseOf refLib (currentJob (skippedState [])) = Skipped
     \<and> phaseOf refLib (currentJob (skippedState [skippedJob\<lparr>Labels := Map.empty, ResourceVersion := ''2''\<rparr>])) = Skipped"
proof -
  have "jobReachable (reconcileRun TYPE(unit) refLib sampleRequest) (skippedState [])"
    using created [where uj = skippedJob] by (simp add: skippedState_def)
  moreover have skipped: "phaseOf refLib (currentJob (skippedState [])) = Skipped"
    by (simp add: skippedState_def skippedJob_def phaseOf_def phaseIn_def viewOf_def reached_def)
  ultimately show ?thesis
    using verdict_final [OF _ r_into_rtranclp, OF _ relabel_step] by (simp add: finalPhase_def)
qed

end
