(* ===== verification/Outcomes.thy ===== *)
theory Outcomes
  imports Prelude
begin

text \<open>
  Runs that are followed to their end: where \<open>follows\<close> speaks of every behaviour of the API, \<open>outcome\<close> computes
  what a handler does with a server whose answers are known. The progress theorems are proved with it.
\<close>

section \<open>The outcome of a run\<close>

text \<open>\<open>outcome m s Q\<close>: run from the store \<open>s\<close>, \<open>m\<close> ends with a result and a store that satisfy \<open>Q\<close>.\<close>

definition outcome :: "('s, 'e, 'a) io \<Rightarrow> 's \<Rightarrow> ('a \<Rightarrow> 's \<Rightarrow> bool) \<Rightarrow> bool" where
  "outcome m s Q \<longleftrightarrow> (\<forall>cs. case run_state m \<lparr>store = s, calls = cs\<rparr> of (x, w) \<Rightarrow> Q x (store w))"

lemma outcome_run: "outcome m s Q \<Longrightarrow> Q (resultOf m s) (storeOf m s)"
  by (auto simp: outcome_def resultOf_def storeOf_def split: prod.splits dest!: spec [of _ "[]"])

lemma outcome_ret: "Q x s \<Longrightarrow> outcome (ret x) s Q"
  by (simp add: outcome_def)

lemma outcome_bind:
  assumes "outcome m s (\<lambda>x s'. outcome (f x) s' Q)"
  shows "outcome (State_Monad.bind m f) s Q"
  unfolding outcome_def
proof (intro allI)
  fix cs
  obtain x w where m: "run_state m \<lparr>store = s, calls = cs\<rparr> = (x, w)" by fastforce
  with assms have "outcome (f x) (store w) Q" by (auto simp: outcome_def split: prod.splits)
  then have "case run_state (f x) \<lparr>store = store w, calls = calls w\<rparr> of (x, w) \<Rightarrow> Q x (store w)"
    unfolding outcome_def by (rule spec)
  with m show "case run_state (State_Monad.bind m f) \<lparr>store = s, calls = cs\<rparr> of (x, w) \<Rightarrow> Q x (store w)"
    by (cases w) simp
qed

lemma outcome_call: "f s = (x, s') \<Longrightarrow> Q x s' \<Longrightarrow> outcome (call ev f) s Q"
  by (simp add: outcome_def)

lemma outcome_bind_call: "f s = (x, s') \<Longrightarrow> outcome (k x) s' Q \<Longrightarrow> outcome (State_Monad.bind (call ev f) k) s Q"
  by (rule outcome_bind) (auto intro: outcome_call)

lemma outcome_mono: "outcome m s Q \<Longrightarrow> (\<And>x s'. Q x s' \<Longrightarrow> Q' x s') \<Longrightarrow> outcome m s Q'"
  by (auto simp: outcome_def split: prod.splits)

end
