(* ===== verification/Upgrade_Progress.thy ===== *)
theory Upgrade_Progress
  imports Job_Lifecycle Outcomes
begin

text \<open>
  Progress: on a calm cluster an upgrade job succeeds. The API server answers every call, there are no
  hooks and no pools to wait for, and between two runs the cluster carries out the update that was
  asked for. Then each run of \<open>Reconcile\<close> raises the rank of the job, so a bounded number of runs takes
  every job, whatever its conditions are, from where it is to success.
\<close>

section \<open>A calm cluster\<close>

record calm =
  k_job :: UpgradeJob
  k_version :: ClusterVersion
  k_pools :: "MachineConfigPool list"
  k_windows :: "UpgradeSuspensionWindow list"
  k_time :: time

text \<open>The server of a calm cluster stores what it is sent.\<close>

definition calmServer :: "calm UpgradeJobReconciler" where
  "calmServer = \<lparr>
     c_getUpgradeJob = (\<lambda>nn s. (if Namespace (k_job s) = nn_Namespace nn \<and> Name (k_job s) = nn_Name nn
       then Inr (k_job s) else Inl (ApiError NotFound (nn_Name nn)), s)),
     c_statusUpdateUpgradeJob = (\<lambda>sent s. (Inr sent, s\<lparr>k_job := sent\<rparr>)),
     c_getClusterVersion = (\<lambda>n s. (Inr (k_version s), s)),
     c_updateClusterVersion = (\<lambda>cv s. (Inr cv, s\<lparr>k_version := cv\<rparr>)),
     c_listHooks = (\<lambda>ns s. (Inr [], s)),
     c_statusUpdateHook = (\<lambda>h s. (Inl (ApiError NotFound (Name h)), s)),
     c_listJobs = (\<lambda>ns ls s. (Inr [], s)),
     c_createJob = (\<lambda>j s. (Inl (ApiError AlreadyExists (Name j)), s)),
     c_updateJob = (\<lambda>j s. (Inl (ApiError NotFound (Name j)), s)),
     c_listPools = (\<lambda>sel s. (Inr (k_pools s), s)),
     c_updatePool = (\<lambda>p s. (Inl (ApiError Conflict (Name p)), s)),
     c_listWindows = (\<lambda>ns s. (Inr (k_windows s), s)),
     c_now = (\<lambda>s. (k_time s, s)),
     ManagedUpstreamClusterVersionName = ''version''\<rparr>"

lemma calmServer_simps [simp]:
  "c_getUpgradeJob calmServer nn s = (if Namespace (k_job s) = nn_Namespace nn \<and> Name (k_job s) = nn_Name nn
     then Inr (k_job s) else Inl (ApiError NotFound (nn_Name nn)), s)"
  "c_statusUpdateUpgradeJob calmServer sent s = (Inr sent, s\<lparr>k_job := sent\<rparr>)"
  "c_getClusterVersion calmServer n s = (Inr (k_version s), s)"
  "c_updateClusterVersion calmServer cv s = (Inr cv, s\<lparr>k_version := cv\<rparr>)"
  "c_listHooks calmServer ns s = (Inr [], s)"
  "c_listJobs calmServer ns ls s = (Inr [], s)"
  "c_listPools calmServer sel s = (Inr (k_pools s), s)"
  "c_listWindows calmServer ns s = (Inr (k_windows s), s)"
  "c_now calmServer s = (k_time s, s)"
  by (simp_all add: calmServer_def)

text \<open>What is asked of the job and of the cluster, which is in a later state \<open>s\<close> than \<open>u\<close>, and of the time of a
  run.\<close>

definition calmJob :: "UpgradeJob \<Rightarrow> bool" where
  "calmJob uj \<longleftrightarrow> isZeroPtr (DeletionTimestamp uj) \<and> uj_HookJobTracker uj = []
     \<and> (\<forall>p \<in> set (MachineConfigPools (Config (uj_Spec uj))). DelayUpgrade p = noDelay)"

definition calmVersion :: "UpgradeJob \<Rightarrow> ClusterVersion \<Rightarrow> bool" where
  "calmVersion uj cv \<longleftrightarrow> \<not> IsOperatorDegraded cv
     \<and> (Annotations cv JobLockAnnotation = None \<or> Annotations cv JobLockAnnotation = Some (lockVal uj))
     \<and> (\<forall>dv. DesiredVersion (uj_Spec uj) = Some dv \<longrightarrow> DesiredUpdate (cv_Spec cv) = Some dv
         \<or> \<not> GetDesiredVersionCheckAvailability (uj_Spec uj) \<or> FindAvailableUpdate cv (upd_Image dv) (upd_Version dv) \<noteq> None)"

definition calmCluster :: "'z lib_scheme \<Rightarrow> NamespacedName \<Rightarrow> calm \<Rightarrow> calm \<Rightarrow> bool" where
  "calmCluster L req u s \<longleftrightarrow> uj_Spec (k_job s) = uj_Spec (k_job u) \<and> Labels (k_job s) = Labels (k_job u)
     \<and> k_windows s = k_windows u \<and> Namespace (k_job s) = nn_Namespace req \<and> Name (k_job s) = nn_Name req
     \<and> calmJob (k_job s) \<and> open_view (viewOf L (k_job s)) \<and> calmVersion (k_job s) (k_version s)
     \<and> (\<forall>p \<in> set (k_pools s). MachineCount p = UpdatedMachineCount p)"

definition timely :: "'z lib_scheme \<Rightarrow> calm \<Rightarrow> time \<Rightarrow> bool" where
  "timely L s t \<longleftrightarrow> StartAfter (uj_Spec (k_job s)) \<le> t \<and> t \<le> StartBefore (uj_Spec (k_job s))
     \<and> timeSub t (StartAfter (uj_Spec (k_job s))) \<le> UpgradeTimeout (Config (uj_Spec (k_job s)))
     \<and> (\<forall>w \<in> set (k_windows s). \<not> windowCovers L JobSelector (Labels (k_job s)) t w)"

text \<open>Between two runs the cluster carries out the desired update.\<close>

definition carryOut :: "ClusterVersion \<Rightarrow> ClusterVersion" where
  "carryOut cv = (case DesiredUpdate (cv_Spec cv) of
     None \<Rightarrow> cv
   | Some u \<Rightarrow> cv\<lparr>cv_History := \<lparr>uh_State = CompletedUpdate, uh_Version = upd_Version u, uh_Image = upd_Image u\<rparr> # cv_History cv\<rparr>)"

definition cycle :: "'z lib_scheme \<Rightarrow> NamespacedName \<Rightarrow> time \<Rightarrow> calm \<Rightarrow> calm" where
  "cycle L req t s = (let s' = storeOf (Reconcile L calmServer req) (s\<lparr>k_time := t\<rparr>)
     in s'\<lparr>k_version := carryOut (k_version s')\<rparr>)"

section \<open>The rank of a job\<close>

text \<open>How far a job has come, with the steps between two phases.\<close>

definition pausedNoted :: "'z lib_scheme \<Rightarrow> UpgradeJob \<Rightarrow> bool" where
  "pausedNoted L uj \<longleftrightarrow> (\<exists>c. FindStatusCondition L (uj_Conditions uj) UpgradeJobConditionPaused = Some c
     \<and> Status c = ConditionFalse \<and> Reason c = UpgradeJobReasonDelaySet \<and> Message c = '''')"

definition upgradeRank :: "view \<Rightarrow> bool \<Rightarrow> bool \<Rightarrow> nat" where
  "upgradeRank v asks desired =
     (if \<not> reached v UpgradeJobConditionStarted then 0
      else if v UpgradeJobConditionPreHealthCheckDone = None then 1
      else if \<not> reached v UpgradeJobConditionPreHealthCheckDone then 2
      else if asks \<and> \<not> desired then 3
      else if asks \<and> v UpgradeJobConditionUpgradeCompleted = None then 4
      else if asks \<and> \<not> reached v UpgradeJobConditionUpgradeCompleted then 5
      else 6)"

definition finishRank :: "view \<Rightarrow> bool \<Rightarrow> nat" where
  "finishRank v noted =
     (if v UpgradeJobConditionPostHealthCheckDone = None then 0
      else if \<not> reached v UpgradeJobConditionPostHealthCheckDone then 1
      else if \<not> noted then 2
      else 3)"

abbreviation upgradeRankOf :: "'z lib_scheme \<Rightarrow> UpgradeJob \<Rightarrow> ClusterVersion \<Rightarrow> nat" where
  "upgradeRankOf L uj cv \<equiv> upgradeRank (viewOf L uj) (asksVersion uj)
     (DesiredUpdate (cv_Spec cv) = DesiredVersion (uj_Spec uj))"

definition rank :: "'z lib_scheme \<Rightarrow> UpgradeJob \<Rightarrow> ClusterVersion \<Rightarrow> nat" where
  "rank L uj cv = (let n = upgradeRankOf L uj cv in
     if n < 6 then n else 6 + finishRank (viewOf L uj) (pausedNoted L uj))"

lemma upgradeRank_le: "upgradeRank v asks desired \<le> 6"
  by (simp add: upgradeRank_def)

lemma upgradeRank_upd:
  "t \<noteq> UpgradeJobConditionStarted \<Longrightarrow> t \<noteq> UpgradeJobConditionPreHealthCheckDone \<Longrightarrow> t \<noteq> UpgradeJobConditionUpgradeCompleted
    \<Longrightarrow> upgradeRank (v(t := x)) asks desired = upgradeRank v asks desired"
  by (simp add: upgradeRank_def reached_def)

lemma finishRank_le: "finishRank v noted \<le> 3"
  by (simp add: finishRank_def)

lemma rank_le: "rank L uj cv \<le> 9"
  using finishRank_le [of "viewOf L uj" "pausedNoted L uj"] by (simp add: rank_def Let_def)

lemma rank_early: "rank L uj cv < 6 \<Longrightarrow> rank L uj cv = upgradeRankOf L uj cv"
  by (simp add: rank_def Let_def split: if_splits)

lemma rank_low: "upgradeRankOf L uj cv = n \<Longrightarrow> n < 6 \<Longrightarrow> rank L uj cv = n"
  by (simp add: rank_def Let_def)

lemma rank_upgrade: "upgradeRankOf L uj cv \<le> rank L uj cv"
  using upgradeRank_le [of "viewOf L uj" "asksVersion uj" "DesiredUpdate (cv_Spec cv) = DesiredVersion (uj_Spec uj)"]
  unfolding rank_def Let_def by simp

lemma rank_grows:
  "k \<le> rank L uj cv \<Longrightarrow> upgradeRankOf L uj cv = n \<Longrightarrow> n < upgradeRankOf L uj' cv' \<Longrightarrow> k < rank L uj' cv'"
  using upgradeRank_le [of "viewOf L uj'" "asksVersion uj'" "DesiredUpdate (cv_Spec cv') = DesiredVersion (uj_Spec uj')"]
    rank_low [of L uj cv n] rank_upgrade [of L uj' cv'] by linarith

lemma rank_late: "6 \<le> rank L uj cv \<longleftrightarrow> upgradeRankOf L uj cv = 6"
  using upgradeRank_le [of "viewOf L uj" "asksVersion uj" "DesiredUpdate (cv_Spec cv) = DesiredVersion (uj_Spec uj)"]
  unfolding rank_def Let_def by (auto split: if_splits)

lemma rank_finish: "upgradeRankOf L uj cv = 6 \<Longrightarrow> rank L uj cv = 6 + finishRank (viewOf L uj) (pausedNoted L uj)"
  by (simp add: rank_def Let_def)

text \<open>The job with a condition set, and a job variable that differs from the stored job in the note on the
  pools only.\<close>

definition withCondition :: "'z lib_scheme \<Rightarrow> UpgradeJob \<Rightarrow> Condition \<Rightarrow> time \<Rightarrow> UpgradeJob" where
  "withCondition L uj c t =
     uj\<lparr>uj_Conditions := fst (SetStatusCondition L (uj_Conditions uj) (c\<lparr>LastTransitionTime := t\<rparr>))\<rparr>"

definition noteOnly :: "'z lib_scheme \<Rightarrow> UpgradeJob \<Rightarrow> UpgradeJob \<Rightarrow> bool" where
  "noteOnly L a b \<longleftrightarrow> (\<exists>cs. b = a\<lparr>uj_Conditions := cs\<rparr> \<and> (\<forall>t. t \<noteq> UpgradeJobConditionMachineConfigPoolsPaused
     \<longrightarrow> FindStatusCondition L cs t = FindStatusCondition L (uj_Conditions a) t))"

lemma noteOnly_refl [simp]: "noteOnly L a a"
  unfolding noteOnly_def by (rule exI [of _ "uj_Conditions a"]) simp

lemma noteOnly_fields:
  "noteOnly L a b \<Longrightarrow> uj_Spec b = uj_Spec a \<and> Namespace b = Namespace a \<and> Name b = Name a \<and> Labels b = Labels a"
  by (auto simp: noteOnly_def)

lemma noteOnly_find:
  "noteOnly L a b \<Longrightarrow> t \<noteq> UpgradeJobConditionMachineConfigPoolsPaused
    \<Longrightarrow> FindStatusCondition L (uj_Conditions b) t = FindStatusCondition L (uj_Conditions a) t"
  by (auto simp: noteOnly_def)

lemma noteOnly_view:
  "noteOnly L a b \<Longrightarrow> t \<noteq> UpgradeJobConditionMachineConfigPoolsPaused \<Longrightarrow> viewOf L b t = viewOf L a t"
  by (simp add: viewOf_def noteOnly_find)

lemma noteOnly_open: "noteOnly L a b \<Longrightarrow> open_view (viewOf L b) = open_view (viewOf L a)"
  by (rule open_view_cong, rule noteOnly_view) (auto simp: milestones_def)

lemma noteOnly_rank:
  assumes "noteOnly L a b"
  shows "rank L b cv = rank L a cv"
proof -
  have view: "t \<in> milestones \<Longrightarrow> viewOf L b t = viewOf L a t" for t
    by (rule noteOnly_view [OF assms]) (auto simp: milestones_def)
  have noted: "pausedNoted L b = pausedNoted L a"
    using noteOnly_find [OF assms, of UpgradeJobConditionPaused] by (simp add: pausedNoted_def)
  have views: "viewOf L b UpgradeJobConditionStarted = viewOf L a UpgradeJobConditionStarted"
    "viewOf L b UpgradeJobConditionPreHealthCheckDone = viewOf L a UpgradeJobConditionPreHealthCheckDone"
    "viewOf L b UpgradeJobConditionUpgradeCompleted = viewOf L a UpgradeJobConditionUpgradeCompleted"
    "viewOf L b UpgradeJobConditionPostHealthCheckDone = viewOf L a UpgradeJobConditionPostHealthCheckDone"
    by (rule view, simp add: milestones_def)+
  from noteOnly_fields [OF assms] have spec: "uj_Spec b = uj_Spec a" by simp
  show ?thesis unfolding rank_def upgradeRank_def finishRank_def Let_def reached_def by (simp only: views noted spec)
qed

lemma withCondition_fields [simp]:
  "uj_Spec (withCondition L uj c t) = uj_Spec uj" "Namespace (withCondition L uj c t) = Namespace uj"
  "Name (withCondition L uj c t) = Name uj" "Labels (withCondition L uj c t) = Labels uj"
  "lockVal (withCondition L uj c t) = lockVal uj" "calmJob (withCondition L uj c t) = calmJob uj"
  "calmVersion (withCondition L uj c t) cv = calmVersion uj cv"
  by (simp_all add: withCondition_def lockVal_def calmJob_def calmVersion_def)

section \<open>The functions on a calm cluster\<close>

lemma outcome_setCondition:
  assumes "Q (withCondition L uj c (k_time s), None) (s\<lparr>k_job := withCondition L uj c (k_time s)\<rparr>)"
  shows "outcome (setConditionAndUpdate L calmServer uj c) s Q"
  using assms by (auto simp: setConditionAndUpdate_def setStatusCondition_def outcome_def Let_def withCondition_def
      split: prod.splits)

lemma outcome_setReturn:
  assumes "Q (f (withCondition L uj c (k_time s)) None) (s\<lparr>k_job := withCondition L uj c (k_time s)\<rparr>)"
  shows "outcome (do { (uj', err) \<leftarrow> setConditionAndUpdate L calmServer uj c; ret (f uj' err) }) s Q"
  by (rule outcome_bind, rule outcome_setCondition) (simp add: outcome_ret assms)

context combine_laws
begin

lemma Combine_Nil [simp]: "Combine L [] = None"
  by (simp add: combine_none)

lemma outcome_track:
  assumes "Namespace (k_job s) = nn_Namespace req" "Name (k_job s) = nn_Name req" "uj_HookJobTracker (k_job s) = []"
    and "Q None s"
  shows "outcome (trackHookJobs L calmServer req) s Q"
  using assms by (simp add: outcome_def trackHookJobs_def setNew_def setEqual_def)

lemma outcome_hooks:
  "Q (uj, Inr True) s \<Longrightarrow> outcome (executeHooks L calmServer uj event key info cutoff) s Q"
  by (simp add: outcome_def executeHooks_def emptyOutcome_def hookVerdict_def Let_def)

end

lemma pausePoolSpecs_none:
  "\<forall>p \<in> set ps. DelayUpgrade p = noDelay \<Longrightarrow> pausePoolSpecs L r ps uj acc = ret (uj, Inr acc)"
  by (induction ps) simp_all

text \<open>What a run that started at rank \<open>k\<close> reaches.\<close>

definition advanced :: "'z lib_scheme \<Rightarrow> NamespacedName \<Rightarrow> calm \<Rightarrow> nat \<Rightarrow> calm \<Rightarrow> bool" where
  "advanced L req u k s \<longleftrightarrow> phaseOf L (k_job s) = Succeeded
     \<or> calmCluster L req u s \<and> k < rank L (k_job s) (k_version s)"

locale calm_laws = condition_laws L + combine_laws L for L :: "'z lib_scheme"
begin

lemma view_withCondition [simp]:
  "viewOf L (withCondition L uj c t) = (viewOf L uj)(Type c := Some (Status c, Reason c))"
  by (simp add: withCondition_def view_SetStatusCondition)

lemma pausedNoted_withCondition:
  "pausedNoted L (withCondition L uj c t) \<longleftrightarrow>
     (if Type c = UpgradeJobConditionPaused then Status c = ConditionFalse \<and> Reason c = UpgradeJobReasonDelaySet \<and> Message c = ''''
      else pausedNoted L uj)"
  using set_status [of "uj_Conditions uj" "c\<lparr>LastTransitionTime := t\<rparr>"]
    set_other [of UpgradeJobConditionPaused "c\<lparr>LastTransitionTime := t\<rparr>" "uj_Conditions uj"]
  by (auto simp: pausedNoted_def withCondition_def)

lemma calm_store:
  assumes "calmCluster L req u s" and "noteOnly L (k_job s) uj"
    and "Type c \<noteq> UpgradeJobConditionSucceeded" "Type c \<noteq> UpgradeJobConditionFailed"
  shows "calmCluster L req u (s\<lparr>k_job := withCondition L uj c t\<rparr>)"
proof -
  from assms(2) obtain cs where uj: "uj = (k_job s)\<lparr>uj_Conditions := cs\<rparr>" by (auto simp: noteOnly_def)
  have "calmJob uj = calmJob (k_job s)" "calmVersion uj cv = calmVersion (k_job s) cv" for cv
    by (simp_all add: uj calmJob_def calmVersion_def lockVal_def)
  moreover have "open_view (viewOf L uj) = open_view (viewOf L (k_job s))" by (rule noteOnly_open [OF assms(2)])
  moreover have "open_view ((viewOf L uj)(Type c := v)) = open_view (viewOf L uj)" for v
    using assms(3,4) by (simp add: open_view_def reached_def)
  ultimately show ?thesis using assms(1) noteOnly_fields [OF assms(2)] by (simp add: calmCluster_def)
qed

lemma advance_store:
  assumes "calmCluster L req u s" and "noteOnly L (k_job s) uj"
    and "Type c \<noteq> UpgradeJobConditionSucceeded" "Type c \<noteq> UpgradeJobConditionFailed"
    and "k < rank L (withCondition L uj c t) (k_version s)"
  shows "advanced L req u k (s\<lparr>k_job := withCondition L uj c t\<rparr>)"
  using calm_store [OF assms(1-4)] assms(5) by (simp add: advanced_def)

lemma succeed_store:
  "open_view (viewOf L uj) \<Longrightarrow> Type c = UpgradeJobConditionSucceeded \<Longrightarrow> Status c = ConditionTrue \<Longrightarrow> Reason c = UpgradeJobReasonSucceeded
    \<Longrightarrow> advanced L req u k (s\<lparr>k_job := withCondition L uj c t\<rparr>)"
  by (simp add: advanced_def phaseOf_def phaseIn_def reached_upd)

lemma outcome_settlePools:
  assumes calm: "calmCluster L req u s" and nt: "noteOnly L (k_job s) uj"
    and rank: "8 \<le> rank L uj (k_version s)" and k: "k \<le> rank L uj (k_version s)"
  shows "outcome (settlePools L calmServer uj) s (\<lambda>_. advanced L req u k)"
proof -
  let ?c = "newCondition UpgradeJobConditionPaused ConditionFalse UpgradeJobReasonDelaySet ''''"
  let ?d = "newCondition UpgradeJobConditionSucceeded ConditionTrue UpgradeJobReasonSucceeded ''Upgrade succeeded''"
  let ?p = "withCondition L uj ?c (k_time s)"
  obtain cs changed where set: "SetStatusCondition L (uj_Conditions uj) (?c\<lparr>LastTransitionTime := k_time s\<rparr>) = (cs, changed)"
    by fastforce
  then have p: "uj\<lparr>uj_Conditions := cs\<rparr> = ?p" by (simp add: withCondition_def)
  have changed: "changed \<longleftrightarrow> \<not> pausedNoted L uj"
    using set_changed [of "uj_Conditions uj" "?c\<lparr>LastTransitionTime := k_time s\<rparr>"] set
    by (auto simp: conditionChanged_def pausedNoted_def split: option.splits)
  have idle: "MachineConfigPoolsUpdating (k_pools s) = []"
    using calm by (auto simp: MachineConfigPoolsUpdating_eq filter_empty_conv calmCluster_def)
  have "open_view (viewOf L uj)"
    using calm noteOnly_open [OF nt] by (simp add: calmCluster_def)
  then have op: "open_view (viewOf L ?p)" by (simp add: open_view_def reached_def)
  show ?thesis unfolding settlePools_def setStatusCondition_def State_Monad.bind_assoc State_Monad.bind_left_identity
  proof (rule outcome_bind_call, simp, simp only: sum.case idle filterPaused.simps prod.case Let_def,
      rule outcome_bind_call, simp, simp add: boolToStatus_def set p changed, intro conjI impI, goal_cases)
    case 1
    have up: "upgradeRankOf L uj (k_version s) = 6" using rank rank_late [of L uj "k_version s"] by simp
    then have up': "upgradeRankOf L ?p (k_version s) = 6" by (simp add: upgradeRank_upd)
    have "2 \<le> finishRank (viewOf L uj) (pausedNoted L uj)" using rank by (simp add: rank_finish [OF up])
    then have "rank L ?p (k_version s) = 9" "k < 9"
      using k 1 unfolding rank_finish [OF up] rank_finish [OF up']
      by (auto simp: finishRank_def pausedNoted_withCondition reached_def split: if_splits)
    then show ?case
      by (intro outcome_bind_call outcome_ret, simp) (auto intro!: advance_store [OF calm nt])
  next
    case 2
    show ?case by (rule outcome_setReturn) (auto intro: succeed_store op)
  qed
qed

lemma outcome_healthCheck:
  assumes "\<not> IsOperatorDegraded cv"
    and "viewOf L uj ty = None \<Longrightarrow> Q (withCondition L uj (newCondition ty ConditionFalse UpgradeJobReasonInProgress
        ''Health checks started'') (k_time s), Inr False) (s\<lparr>k_job := withCondition L uj (newCondition ty ConditionFalse
        UpgradeJobReasonInProgress ''Health checks started'') (k_time s)\<rparr>)"
    and "reached (viewOf L uj) ty \<Longrightarrow> Q (uj, Inr True) s"
    and "viewOf L uj ty \<noteq> None \<Longrightarrow> \<not> reached (viewOf L uj) ty \<Longrightarrow> Q (withCondition L uj (newCondition ty ConditionTrue
        UpgradeJobReasonCompleted ''Health checks ok'') (k_time s), Inr True) (s\<lparr>k_job := withCondition L uj (newCondition ty
        ConditionTrue UpgradeJobReasonCompleted ''Health checks ok'') (k_time s)\<rparr>)"
  shows "outcome (runHealthCheck L calmServer uj cv hc ty rsn) s Q"
proof (cases "FindStatusCondition L (uj_Conditions uj) ty")
  case None
  then show ?thesis
    using assms(2) by (simp add: runHealthCheck_def viewOf_None) (rule outcome_setReturn, simp)
next
  case (Some c)
  show ?thesis
  proof (cases "Status c = ConditionTrue")
    case True
    then show ?thesis using Some assms(3) by (simp add: runHealthCheck_def reached_find outcome_ret)
  next
    case False
    then show ?thesis
      using Some assms(1,4) by (simp add: runHealthCheck_def reached_find viewOf_None) (rule outcome_setReturn, simp)
  qed
qed

lemma rank_Post:
  assumes "6 \<le> rank L uj cv"
  shows "viewOf L uj UpgradeJobConditionPostHealthCheckDone = None \<Longrightarrow> rank L uj cv = 6"
    and "reached (viewOf L uj) UpgradeJobConditionPostHealthCheckDone \<Longrightarrow> 8 \<le> rank L uj cv"
    and "viewOf L uj UpgradeJobConditionPostHealthCheckDone \<noteq> None
      \<Longrightarrow> \<not> reached (viewOf L uj) UpgradeJobConditionPostHealthCheckDone \<Longrightarrow> rank L uj cv = 7"
    and "rank L (withCondition L uj (newCondition UpgradeJobConditionPostHealthCheckDone ConditionFalse rsn msg) t) cv = 7"
    and "8 \<le> rank L (withCondition L uj (newCondition UpgradeJobConditionPostHealthCheckDone ConditionTrue rsn msg) t) cv"
proof -
  have up: "upgradeRankOf L uj cv = 6" using assms by (simp add: rank_late)
  then have up': "upgradeRankOf L (withCondition L uj (newCondition UpgradeJobConditionPostHealthCheckDone st rsn msg) t) cv = 6" for st
    by (simp add: upgradeRank_upd)
  show "viewOf L uj UpgradeJobConditionPostHealthCheckDone = None \<Longrightarrow> rank L uj cv = 6"
    "reached (viewOf L uj) UpgradeJobConditionPostHealthCheckDone \<Longrightarrow> 8 \<le> rank L uj cv"
    "viewOf L uj UpgradeJobConditionPostHealthCheckDone \<noteq> None
      \<Longrightarrow> \<not> reached (viewOf L uj) UpgradeJobConditionPostHealthCheckDone \<Longrightarrow> rank L uj cv = 7"
    unfolding rank_finish [OF up] by (auto simp: finishRank_def reached_def)
  show "rank L (withCondition L uj (newCondition UpgradeJobConditionPostHealthCheckDone ConditionFalse rsn msg) t) cv = 7"
    "8 \<le> rank L (withCondition L uj (newCondition UpgradeJobConditionPostHealthCheckDone ConditionTrue rsn msg) t) cv"
    unfolding rank_finish [OF up'] by (simp_all add: finishRank_def reached_def)
qed

lemma outcome_finishStartedJob:
  assumes calm: "calmCluster L req u s" and nt: "noteOnly L (k_job s) uj"
    and rank: "6 \<le> rank L uj (k_version s)" and k: "k \<le> rank L uj (k_version s)" and cv: "\<not> IsOperatorDegraded cv"
  shows "outcome (finishStartedJob L calmServer uj cv) s (\<lambda>_. advanced L req u k)"
  unfolding finishStartedJob_def
proof (rule outcome_bind, rule outcome_healthCheck [OF cv], goal_cases)
  case 1
  from rank_Post(1) [OF rank 1] k
  show ?case by (simp, intro outcome_ret advance_store [OF calm nt]) (simp_all add: rank_Post(4) [OF rank])
next
  case 2
  from rank_Post(2) [OF rank 2] show ?case
    by (simp, intro outcome_bind outcome_hooks, simp) (rule outcome_settlePools [OF calm nt _ k])
next
  case 3
  let ?uj = "withCondition L uj (newCondition UpgradeJobConditionPostHealthCheckDone ConditionTrue
    UpgradeJobReasonCompleted ''Health checks ok'') (k_time s)"
  have eight: "8 \<le> rank L ?uj (k_version s)" by (rule rank_Post(5) [OF rank])
  have "rank L uj (k_version s) = 7" by (rule rank_Post(3) [OF rank 3])
  with k eight have "k \<le> rank L ?uj (k_version s)" by linarith
  with eight show ?case
    using calm_store [OF calm nt, of "newCondition UpgradeJobConditionPostHealthCheckDone ConditionTrue
      UpgradeJobReasonCompleted ''Health checks ok''" "k_time s"]
    by (simp, intro outcome_bind outcome_hooks, simp) (rule outcome_settlePools, auto)
qed

lemma advance_version:
  assumes "calmCluster L req u s" and "calmVersion (k_job s) cv" and "k < rank L (k_job s) cv"
  shows "advanced L req u k (s\<lparr>k_version := cv\<rparr>)"
  using assms by (simp add: advanced_def calmCluster_def)

lemma outcome_driveUpgrade:
  assumes calm: "calmCluster L req u s" and nt: "noteOnly L (k_job s) uj"
    and fin: "IsVersionUpgradeCompleted (k_version s)" and dv: "DesiredVersion (uj_Spec uj) = Some dv"
    and rank: "3 \<le> rank L uj (k_version s)" and k: "k \<le> rank L uj (k_version s)"
  shows "outcome (driveUpgrade L calmServer uj (k_version s) dv) s (\<lambda>_. advanced L req u k)"
proof -
  let ?cv = "k_version s" and ?v = "viewOf L uj"
  have spec: "uj_Spec (k_job s) = uj_Spec uj" using noteOnly_fields [OF nt] by simp
  have three: "3 \<le> upgradeRankOf L uj ?cv" using rank rank_early [of L uj ?cv] rank_late [of L uj ?cv] by fastforce
  have avail: "DesiredUpdate (cv_Spec ?cv) = Some dv \<or> \<not> GetDesiredVersionCheckAvailability (uj_Spec uj)
      \<or> FindAvailableUpdate ?cv (upd_Image dv) (upd_Version dv) \<noteq> None"
    using calm dv spec by (simp add: calmCluster_def calmVersion_def)
  have idle: "MachineConfigPoolsUpdating (k_pools s) = []"
    using calm by (auto simp: MachineConfigPoolsUpdating_eq filter_empty_conv calmCluster_def)
  have cv: "\<not> IsOperatorDegraded ?cv" using calm by (simp add: calmCluster_def calmVersion_def)
  consider (set) "DesiredUpdate (cv_Spec ?cv) \<noteq> Some dv"
    | (wait) "DesiredUpdate (cv_Spec ?cv) = Some dv" "?v UpgradeJobConditionUpgradeCompleted = None"
    | (complete) con where "DesiredUpdate (cv_Spec ?cv) = Some dv"
        "FindStatusCondition L (uj_Conditions uj) UpgradeJobConditionUpgradeCompleted = Some con" "Status con \<noteq> ConditionTrue"
    | (finish) con where "DesiredUpdate (cv_Spec ?cv) = Some dv"
        "FindStatusCondition L (uj_Conditions uj) UpgradeJobConditionUpgradeCompleted = Some con" "Status con = ConditionTrue"
    by (cases "FindStatusCondition L (uj_Conditions uj) UpgradeJobConditionUpgradeCompleted") (auto simp: viewOf_None)
  then show ?thesis
  proof cases
    case set
    let ?new = "?cv\<lparr>cv_Spec := (cv_Spec ?cv)\<lparr>DesiredUpdate := Some dv\<rparr>\<rparr>"
    have "upgradeRankOf L uj ?cv = 3" using three set dv by (simp add: upgradeRank_def split: if_splits)
    moreover have "3 < upgradeRankOf L uj ?new" using three set dv by (simp add: upgradeRank_def split: if_splits)
    ultimately have "k < rank L uj ?new" by (rule rank_grows [OF k])
    then have "k < rank L (k_job s) ?new" using noteOnly_rank [OF nt] by simp
    moreover have "calmVersion (k_job s) ?new"
      using calm dv spec by (simp add: calmCluster_def calmVersion_def IsOperatorDegraded_def)
    ultimately have adv: "advanced L req u k (s\<lparr>k_version := ?new\<rparr>)" by (intro advance_version [OF calm])
    have "outcome (do {
        res \<leftarrow> updateClusterVersion calmServer ?new;
        ret (case res of
          Inl e \<Rightarrow> Inl (Errorf ''failed to update desired version in cluster version'' e)
        | Inr _ \<Rightarrow> Inr noRequeue) }) s (\<lambda>_. advanced L req u k)"
      by (rule outcome_bind_call, simp) (rule outcome_ret, rule adv)
    then show ?thesis using avail set by (auto simp: driveUpgrade_def)
  next
    case wait
    then have "upgradeRankOf L uj ?cv = 4" using three dv by (simp add: upgradeRank_def split: if_splits)
    moreover have "4 < upgradeRankOf L (withCondition L uj (newCondition UpgradeJobConditionUpgradeCompleted ConditionFalse
        rsn msg) t) ?cv" for rsn msg t
      using three wait dv by (simp add: upgradeRank_def reached_upd split: if_splits)
    ultimately have "k < rank L (withCondition L uj (newCondition UpgradeJobConditionUpgradeCompleted ConditionFalse rsn msg) t) ?cv"
      for rsn msg t by (rule rank_grows [OF k])
    then show ?thesis using wait
      by (simp add: driveUpgrade_def viewOf_None, intro outcome_setReturn advance_store [OF calm nt]) simp_all
  next
    case complete
    then have v: "?v UpgradeJobConditionUpgradeCompleted \<noteq> None" "\<not> reached ?v UpgradeJobConditionUpgradeCompleted"
      by (simp_all add: viewOf_None reached_find)
    then have "upgradeRankOf L uj ?cv = 5" using complete three dv by (simp add: upgradeRank_def split: if_splits)
    moreover have "5 < upgradeRankOf L (withCondition L uj (newCondition UpgradeJobConditionUpgradeCompleted ConditionTrue
        rsn msg) t) ?cv" for rsn msg t
      using three complete dv by (simp add: upgradeRank_def reached_upd split: if_splits)
    ultimately have "k < rank L (withCondition L uj (newCondition UpgradeJobConditionUpgradeCompleted ConditionTrue rsn msg) t) ?cv"
      for rsn msg t by (rule rank_grows [OF k])
    then show ?thesis using complete fin idle
      by (simp add: driveUpgrade_def, intro outcome_bind_call, simp)
        (simp, intro outcome_setReturn advance_store [OF calm nt], simp_all)
  next
    case finish
    then have "upgradeRankOf L uj ?cv = 6" using three dv by (simp add: upgradeRank_def reached_find viewOf_None split: if_splits)
    then have "6 \<le> rank L uj ?cv" by (simp add: rank_late)
    with finish show ?thesis
      by (simp add: driveUpgrade_def) (rule outcome_finishStartedJob [OF calm nt _ k cv])
  qed
qed

lemma outcome_pauseUnpause:
  assumes calm: "calmCluster L req u s"
  shows "outcome (pauseUnpauseMachineConfigPools L calmServer (k_job s)) s (\<lambda>(uj, res) s'. res = Inr True
    \<and> calmCluster L req u s' \<and> noteOnly L (k_job s') uj \<and> rank L uj (k_version s') = rank L (k_job s) (k_version s)
    \<and> k_version s' = k_version s \<and> uj_Spec uj = uj_Spec (k_job s))"
proof -
  let ?uj = "k_job s" and ?c = "newCondition UpgradeJobConditionMachineConfigPoolsPaused ConditionFalse UpgradeJobReasonNoManagedPools ''''"
  let ?p = "withCondition L ?uj ?c (k_time s)"
  obtain cs changed where set: "SetStatusCondition L (uj_Conditions ?uj) (?c\<lparr>LastTransitionTime := k_time s\<rparr>) = (cs, changed)"
    by fastforce
  then have p: "?uj\<lparr>uj_Conditions := cs\<rparr> = ?p" by (simp add: withCondition_def)
  have "noteOnly L ?uj ?p" using set_other [of _ "?c\<lparr>LastTransitionTime := k_time s\<rparr>" "uj_Conditions ?uj"]
    unfolding noteOnly_def withCondition_def by auto
  moreover from noteOnly_rank [OF this] have "rank L ?p cv = rank L ?uj cv" for cv .
  moreover have "calmCluster L req u (s\<lparr>k_job := ?p\<rparr>)" by (rule calm_store [OF calm noteOnly_refl]) simp_all
  moreover have "pausePoolSpecs L calmServer (MachineConfigPools (Config (uj_Spec ?uj))) ?uj acc = ret (?uj, Inr acc)" for acc
    by (rule pausePoolSpecs_none) (use calm in \<open>simp add: calmCluster_def calmJob_def\<close>)
  ultimately show ?thesis using calm
    unfolding pauseUnpauseMachineConfigPools_def setStatusCondition_def
    by (auto simp: boolToStatus_def outcome_def set p Let_def)
qed

lemma outcome_upgradeLocked:
  assumes calm: "calmCluster L req u s" and fin: "IsVersionUpgradeCompleted (k_version s)"
    and rank: "1 \<le> rank L (k_job s) (k_version s)"
  shows "outcome (upgradeLocked L calmServer (k_job s) (k_version s)) s
    (\<lambda>_. advanced L req u (rank L (k_job s) (k_version s)))"
  unfolding upgradeLocked_def
proof (rule outcome_bind, rule outcome_mono [OF outcome_pauseUnpause [OF calm]], goal_cases)
  case (1 x s')
  then obtain uj where x: "x = (uj, Inr True)" and calm': "calmCluster L req u s'" and nt: "noteOnly L (k_job s') uj"
    and eq: "rank L uj (k_version s) = rank L (k_job s) (k_version s)" and cv: "k_version s' = k_version s"
    by (cases x) auto
  let ?k = "rank L (k_job s) (k_version s)" and ?v = "viewOf L uj"
  let ?P = UpgradeJobConditionPreHealthCheckDone
  have up: "1 \<le> upgradeRankOf L uj (k_version s)"
    using rank [folded eq] unfolding rank_def Let_def by (simp split: if_splits)
  have healthy: "\<not> IsOperatorDegraded (k_version s)" using calm by (simp add: calmCluster_def calmVersion_def)
  have on: "outcome (case DesiredVersion (uj_Spec uj') of
        None \<Rightarrow> finishStartedJob L calmServer uj' (k_version s)
      | Some dv \<Rightarrow> driveUpgrade L calmServer uj' (k_version s) dv) s'' (\<lambda>_. advanced L req u ?k)"
    if "calmCluster L req u s''" "noteOnly L (k_job s'') uj'" "k_version s'' = k_version s"
      "3 \<le> upgradeRankOf L uj' (k_version s)" "?k \<le> rank L uj' (k_version s)" for s'' uj'
  proof (cases "DesiredVersion (uj_Spec uj')")
    case None
    with that(4) have "upgradeRankOf L uj' (k_version s) = 6" by (simp add: upgradeRank_def split: if_splits)
    then have "6 \<le> rank L uj' (k_version s)" by (simp add: rank_late)
    with None that show ?thesis by (simp, intro outcome_finishStartedJob) (simp_all add: healthy)
  next
    case (Some dv)
    have "3 \<le> rank L uj' (k_version s)" using that(4) rank_upgrade [of L uj' "k_version s"] by linarith
    with Some that show ?thesis
      using outcome_driveUpgrade [of req u s'' uj' dv ?k] fin by simp
  qed
  show ?case unfolding x prod.case sum.case not_True_eq_False if_False
  proof (rule outcome_bind, rule outcome_healthCheck [OF healthy], goal_cases)
    case 1
    then have "upgradeRankOf L uj (k_version s) = 1" using up by (simp add: upgradeRank_def split: if_splits)
    moreover have "1 < upgradeRankOf L (withCondition L uj (newCondition ?P ConditionFalse rsn msg) t) (k_version s)" for rsn msg t
      using 1 up by (simp add: upgradeRank_def reached_upd split: if_splits)
    ultimately have "?k < rank L (withCondition L uj (newCondition ?P ConditionFalse rsn msg) t) (k_version s)" for rsn msg t
      by (rule rank_grows [OF eq_refl [OF eq [symmetric]]])
    then show ?case by (simp, intro outcome_ret advance_store [OF calm' nt]) (simp_all add: cv)
  next
    case 2
    then have "3 \<le> upgradeRankOf L uj (k_version s)" using up by (auto simp: upgradeRank_def reached_def split: if_splits)
    then show ?case by simp (rule on [OF calm' nt cv], simp_all add: eq)
  next
    case 3
    let ?p = "withCondition L uj (newCondition ?P ConditionTrue UpgradeJobReasonCompleted ''Health checks ok'') (k_time s')"
    have "upgradeRankOf L uj (k_version s) = 2" using 3 up by (auto simp: upgradeRank_def split: if_splits)
    moreover have three: "3 \<le> upgradeRankOf L ?p (k_version s)"
      using 3 up by (simp add: upgradeRank_def reached_upd split: if_splits)
    ultimately have "?k < rank L ?p (k_version s)"
      by (intro rank_grows [OF eq_refl [OF eq [symmetric]]]) (assumption, linarith)
    moreover have "calmCluster L req u (s'\<lparr>k_job := ?p\<rparr>)" by (rule calm_store [OF calm' nt]) simp_all
    ultimately show ?case using three on [of "s'\<lparr>k_job := ?p\<rparr>" ?p] by (simp add: cv)
  qed
qed

lemma outcome_reconcileStartedJob:
  assumes calm: "calmCluster L req u s" and fin: "IsVersionUpgradeCompleted (k_version s)"
    and rank: "1 \<le> rank L (k_job s) (k_version s)"
    and time: "timeSub (k_time s) (StartAfter (uj_Spec (k_job s))) \<le> UpgradeTimeout (Config (uj_Spec (k_job s)))"
  shows "outcome (reconcileStartedJob L calmServer (k_job s)) s
    (\<lambda>_. advanced L req u (rank L (k_job s) (k_version s)))"
proof -
  let ?lv = "lockVal (k_job s)"
  let ?locked = "(k_version s)\<lparr>Annotations := (Annotations (k_version s))(JobLockAnnotation \<mapsto> ?lv)\<rparr>"
  have taken: "calmCluster L req u (s\<lparr>k_version := ?locked\<rparr>)"
    using calm by (simp add: calmCluster_def calmVersion_def IsOperatorDegraded_def FindAvailableUpdate_def)
  have same: "rank L (k_job s) ?locked = rank L (k_job s) (k_version s)" by (simp add: rank_def Let_def)
  have fin': "IsVersionUpgradeCompleted ?locked" using fin by (simp add: IsVersionUpgradeCompleted_def split: option.splits)
  have lock: "outcome (tryLockClusterVersion calmServer (k_version s) ?lv) s (\<lambda>res s'. res = Inr (k_version s')
      \<and> (s' = s \<or> s' = s\<lparr>k_version := ?locked\<rparr>))"
    using calm by (auto simp: tryLockClusterVersion_def calmCluster_def calmVersion_def outcome_def split: option.splits)
  show ?thesis
    unfolding reconcileStartedJob_def timeSinceStartAfter_def State_Monad.bind_assoc State_Monad.bind_left_identity
  proof (rule outcome_bind_call [OF calmServer_simps(9)], subst if_not_P, use time in simp,
      rule outcome_bind, rule outcome_hooks, simp, rule outcome_bind_call [OF calmServer_simps(3)], simp,
      rule outcome_bind, rule outcome_mono [OF lock], clarsimp)
    fix s' assume "s' = s \<or> s' = s\<lparr>k_version := ?locked\<rparr>"
    then show "outcome (upgradeLocked L calmServer (k_job s) (k_version s')) s'
        (\<lambda>_. advanced L req u (rank L (k_job s) (k_version s)))"
      using outcome_upgradeLocked [OF calm fin rank] outcome_upgradeLocked [OF taken] fin' rank same by auto
  qed
qed

lemma outcome_reconcilePending:
  assumes calm: "calmCluster L req u s" and time: "timely L s (k_time s)" and "rank L (k_job s) (k_version s) = 0"
  shows "outcome (reconcilePending L calmServer (k_job s)) s (\<lambda>_. advanced L req u 0)"
proof -
  let ?c = "newCondition UpgradeJobConditionStarted ConditionTrue UpgradeJobReasonStarted (''Upgrade started at '' @ FormatRFC3339 L (k_time s))"
  have "findWindow L JobSelector (Labels (k_job s)) (k_time s) (k_windows s) = None"
    using time by (simp add: timely_def findWindow_None)
  then have skip: "outcome (checkAndMarkSkipped L calmServer (k_job s) (k_time s)) s (\<lambda>res s'. res = Inr False \<and> s' = s)"
    by (simp add: checkAndMarkSkipped_def matchingUpgradeSuspensionWindow_def outcome_def)
  have "0 < upgradeRankOf L (withCondition L (k_job s) ?c t) cv" for t cv
    by (simp add: upgradeRank_def reached_def)
  then have "0 < rank L (withCondition L (k_job s) ?c t) cv" for t cv
    using rank_upgrade less_le_trans by blast
  then have adv: "advanced L req u 0 (s\<lparr>k_job := withCondition L (k_job s) ?c (k_time s)\<rparr>)"
    by (intro advance_store [OF calm noteOnly_refl]) simp_all
  have "outcome (do { (uj, err) \<leftarrow> setConditionAndUpdate L calmServer (k_job s) ?c;
      ret (case err of Some e \<Rightarrow> Inl e | None \<Rightarrow> Inr noRequeue) }) s (\<lambda>_. advanced L req u 0)"
    by (rule outcome_setReturn) (rule adv)
  then show ?thesis
    using time unfolding reconcilePending_def
    by (intro outcome_bind_call, simp, auto simp: timely_def not_less intro!: outcome_bind outcome_mono [OF skip])
qed

lemma outcome_Reconcile:
  assumes calm: "calmCluster L req u s" and fin: "IsVersionUpgradeCompleted (k_version s)" and time: "timely L s (k_time s)"
  shows "outcome (Reconcile L calmServer req) s (\<lambda>_. advanced L req u (rank L (k_job s) (k_version s)))"
proof -
  have id: "Namespace (k_job s) = nn_Namespace req" "Name (k_job s) = nn_Name req" "uj_HookJobTracker (k_job s) = []"
      "isZeroPtr (DeletionTimestamp (k_job s))" "open_view (viewOf L (k_job s))"
    using calm by (simp_all add: calmCluster_def calmJob_def)
  have "outcome (if IsStatusConditionTrue L (uj_Conditions (k_job s)) UpgradeJobConditionStarted
      then reconcileStartedJob L calmServer (k_job s) else reconcilePending L calmServer (k_job s)) s
    (\<lambda>_. advanced L req u (rank L (k_job s) (k_version s)))"
  proof (cases "reached (viewOf L (k_job s)) UpgradeJobConditionStarted")
    case True
    then have "1 \<le> upgradeRankOf L (k_job s) (k_version s)" by (simp add: upgradeRank_def)
    with rank_upgrade have "1 \<le> rank L (k_job s) (k_version s)" using le_trans by blast
    with True show ?thesis
      using outcome_reconcileStartedJob [OF calm fin] time by (simp add: reached_true timely_def)
  next
    case False
    then have "upgradeRankOf L (k_job s) (k_version s) = 0" by (simp add: upgradeRank_def)
    then have "rank L (k_job s) (k_version s) = 0" by (rule rank_low) simp
    with False show ?thesis using outcome_reconcilePending [OF calm time] by (simp add: reached_true)
  qed
  then have job: "outcome (reconcileJob L calmServer (k_job s)) s (\<lambda>_. advanced L req u (rank L (k_job s) (k_version s)))"
    using id(5) unfolding reconcileJob_def succeededCondition_def [symmetric] failedCondition_def [symmetric] open_view_unfinished
    by (simp, intro outcome_bind outcome_hooks) simp
  show ?thesis unfolding Reconcile_def
    by (rule outcome_bind, rule outcome_track [OF id(1-3)], simp, rule outcome_bind_call, simp add: id, simp add: id job)
qed

end

section \<open>The upgrade\<close>

lemma carryOut_keeps:
  "IsOperatorDegraded (carryOut cv) = IsOperatorDegraded cv" "Annotations (carryOut cv) = Annotations cv"
  "cv_Spec (carryOut cv) = cv_Spec cv" "FindAvailableUpdate (carryOut cv) img ver = FindAvailableUpdate cv img ver"
  "IsVersionUpgradeCompleted (carryOut cv)"
  by (auto simp: carryOut_def IsOperatorDegraded_def FindAvailableUpdate_def IsVersionUpgradeCompleted_def split: option.splits)

context calm_laws
begin

lemma cycle_advances:
  assumes "calmCluster L req u s" and "IsVersionUpgradeCompleted (k_version s)" and "timely L s t"
  shows "advanced L req u (rank L (k_job s) (k_version s)) (cycle L req t s) \<and> IsVersionUpgradeCompleted (k_version (cycle L req t s))"
proof -
  have "calmCluster L req u (s\<lparr>k_time := t\<rparr>)" "timely L (s\<lparr>k_time := t\<rparr>) t" using assms by (simp_all add: calmCluster_def timely_def)
  from outcome_run [OF outcome_Reconcile [OF this(1) _]] this(2) assms(2)
  have "advanced L req u (rank L (k_job s) (k_version s)) (storeOf (Reconcile L calmServer req) (s\<lparr>k_time := t\<rparr>))" by simp
  then show ?thesis
    by (auto simp: cycle_def Let_def advanced_def calmCluster_def calmVersion_def carryOut_keeps rank_def)
qed

lemma timely_calm: "calmCluster L req u s \<Longrightarrow> timely L u t \<Longrightarrow> timely L s t"
  by (simp add: calmCluster_def timely_def)

lemma cycles_succeed:
  assumes "calmCluster L req u s" and "IsVersionUpgradeCompleted (k_version s)" and "\<forall>t \<in> set ts. timely L u t"
    and "10 \<le> rank L (k_job s) (k_version s) + length ts"
  shows "\<exists>n \<le> length ts. phaseOf L (k_job (fold (cycle L req) (take n ts) s)) = Succeeded"
  using assms
proof (induction ts arbitrary: s)
  case Nil
  then show ?case using rank_le [of L "k_job s" "k_version s"] by simp
next
  case (Cons t ts)
  let ?s = "cycle L req t s"
  have "timely L s t" using Cons.prems(1,3) by (auto intro: timely_calm)
  from cycle_advances [OF Cons.prems(1,2) this] consider "phaseOf L (k_job ?s) = Succeeded"
    | "calmCluster L req u ?s" "IsVersionUpgradeCompleted (k_version ?s)"
      "rank L (k_job s) (k_version s) < rank L (k_job ?s) (k_version ?s)" by (auto simp: advanced_def)
  then show ?case
  proof cases
    case 1
    then show ?thesis by (intro exI [of _ 1]) simp
  next
    case 2
    with Cons.IH [of ?s] Cons.prems(3,4) obtain n where "n \<le> length ts"
      "phaseOf L (k_job (fold (cycle L req) (take n ts) ?s)) = Succeeded" by auto
    then show ?thesis by (intro exI [of _ "Suc n"]) simp
  qed
qed

end

interpretation refCalm: calm_laws refLib
  by (intro calm_laws.intro ref_laws)

text \<open>C6: an upgrade job succeeds. On a calm cluster that is not upgrading, every unfinished upgrade job whose
  version is available and whose start window and timeout are kept is marked succeeded by one of its
  next ten reconciliations, whatever conditions it has: the cluster carries out the update in between,
  there are no hooks, every pool is up to date and no suspension window covers the time of a run.\<close>

theorem upgrade_succeeds:
  assumes "condition_laws L" and "combine_laws L"
    and "calmCluster L req s s" and "IsVersionUpgradeCompleted (k_version s)"
    and "\<forall>t \<in> set ts. timely L s t" and "length ts = 10"
  shows "\<exists>n \<le> 10. phaseOf L (k_job (fold (cycle L req) (take n ts) s)) = Succeeded"
proof -
  from assms(1,2) have "calm_laws L" by (rule calm_laws.intro)
  from calm_laws.cycles_succeed [OF this assms(3-5)] assms(6) show ?thesis by simp
qed

definition calmSample :: calm where
  "calmSample = \<lparr>k_job = pendingJob, k_version = sampleVersion, k_pools = [], k_windows = [], k_time = 0\<rparr>"

theorem upgrade_succeeds_witness:
  "\<exists>n \<le> 10. phaseOf refLib (k_job (fold (cycle refLib sampleRequest) (take n (replicate 10 minute)) calmSample)) = Succeeded"
proof (rule upgrade_succeeds [OF ref_laws(3,4)])
  show "calmCluster refLib sampleRequest calmSample calmSample"
    using lockedVersion_simps(4)
    by (simp add: calmCluster_def calmSample_def calmJob_def calmVersion_def sampleRequest_def isZeroPtr_def sampleSpec_def sampleConfig_def
        open_view_def reached_def viewOf_def sampleUpdate_def IsOperatorDegraded_def lockedVersion_def FindAvailableUpdate_def)
      (simp add: sampleVersion_def ObjectMeta.extend_def sampleMeta_def)
qed (simp_all add: calmSample_def IsVersionUpgradeCompleted_def timely_def sampleSpec_def sampleConfig_def minute_def
    second_def timeSub_def minDuration_def maxDuration_def)

end
