(* ===== verification/Config_Progress.thy ===== *)
theory Config_Progress
  imports UpgradeConfig_Properties Outcomes
begin

text \<open>
  Progress of the upgrade config controller: the next run of a schedule gets its job. The controller is run again
  whenever it asked to be, and the API answers every call. Then the time of a run reaches the moment the
  version of the next run is pinned, exactly, and this run creates the job.
\<close>

section \<open>A calm config\<close>

text \<open>The controller runs at the time of the store and is run again after the time it asks for.\<close>

definition configCycle :: "'z lib_scheme \<Rightarrow> 'c cron_lib_scheme \<Rightarrow> NamespacedName \<Rightarrow> configStore \<Rightarrow> configStore" where
  "configCycle L C req s = (let s' = storeOf (ReconcileConfig L C refConfigServer req) s in
     case resultOf (ReconcileConfig L C refConfigServer req) s of
       Inl e \<Rightarrow> s'
     | Inr res \<Rightarrow> s'\<lparr>cs_time := cs_time s' + RequeueAfter res\<rparr>)"

text \<open>What is asked of the config: it is the one of the request, not being deleted and not suspended; its time zone and
  cron expression are known, so that \<open>sched\<close> is its schedule and always has a next run; an earlier run has cleaned up
  the old jobs. And of the search for a run: it starts at \<open>t\<close> and finds \<open>run\<close>.\<close>

definition calmConfig ::
  "'z lib_scheme \<Rightarrow> 'c cron_lib_scheme \<Rightarrow> NamespacedName \<Rightarrow> Schedule \<Rightarrow> location \<Rightarrow> UpgradeConfig \<Rightarrow> bool"
where
  "calmConfig L C req sched loc uc \<longleftrightarrow> Namespace uc = nn_Namespace req \<and> Name uc = nn_Name req
     \<and> isZeroPtr (DeletionTimestamp uc) \<and> \<not> Suspend (ScheduleSpec (uc_Spec uc)) \<and> 0 \<le> MaxSchedulingDelay (uc_Spec uc)
     \<and> (if Location (ScheduleSpec (uc_Spec uc)) = '''' then LocalZone C = loc
        else LoadLocation C (Location (ScheduleSpec (uc_Spec uc))) = Inr loc)
     \<and> ParseStandard C (Cron (ScheduleSpec (uc_Spec uc))) = Inr (CronNext sched)
     \<and> IsoWeek (ScheduleSpec (uc_Spec uc)) = sc_IsoWeek sched
     \<and> (\<forall>t. \<exists>u. Next sched loc t = Inr u)
     \<and> (\<exists>owners. SetControllerReference L (ObjectMeta.truncate uc) [] = Inr owners)"

definition ownJobs :: "'z lib_scheme \<Rightarrow> configStore \<Rightarrow> UpgradeJob list" where
  "ownJobs L s = filterControlledJobs L (cs_config s) (inNamespace (Namespace (cs_config s)) (cs_jobs s))"

definition tidy :: "'z lib_scheme \<Rightarrow> configStore \<Rightarrow> bool" where
  "tidy L s \<longleftrightarrow> (let limit = GetSuccessfulJobsHistoryLimit (uc_Spec (cs_config s)) in
     limit \<le> 0 \<or> int (length (filterSuccessful L (ownJobs L s))) \<le> limit)"

definition awaitsRun ::
  "'z lib_scheme \<Rightarrow> Schedule \<Rightarrow> location \<Rightarrow> time \<Rightarrow> configStore \<Rightarrow> time \<Rightarrow> bool"
where
  "awaitsRun L sched loc run s t \<longleftrightarrow>
     searchedFrom L (cs_config s) (inNamespace (Namespace (cs_config s)) (cs_jobs s)) (cs_time s) t
     \<and> firstRun (uc_Spec (cs_config s)) sched loc (cs_time s) 100 t run"

section \<open>Waiting for the window\<close>

lemma refConfigServer_simps [simp]:
  "uc_getConfig refConfigServer nn s = (if Namespace (cs_config s) = nn_Namespace nn \<and> Name (cs_config s) = nn_Name nn
     then Inr (cs_config s) else Inl (ApiError NotFound (nn_Name nn)), s)"
  "uc_statusUpdate refConfigServer uc s = (Inr uc, s\<lparr>cs_config := uc\<rparr>)"
  "uc_listJobs refConfigServer ns s = (Inr (inNamespace ns (cs_jobs s)), s)"
  "uc_createJob refConfigServer job s = (case createObject job (cs_jobs s) of (res, jobs) \<Rightarrow> (res, s\<lparr>cs_jobs := jobs\<rparr>))"
  "uc_getVersion refConfigServer n s = (Inr (cs_version s), s)"
  "uc_listWindows refConfigServer ns s = (Inr (inNamespace ns (cs_windows s)), s)"
  "uc_now refConfigServer s = (cs_time s, s)"
  by (simp_all add: refConfigServer_def)

text \<open>The search finds the same run at any later time up to its window.\<close>

lemma windowOver_later: "now \<le> now' \<Longrightarrow> windowOver cfg now v \<Longrightarrow> windowOver cfg now' v"
  by (auto simp: windowOver_def)

lemma firstRun_later_time:
  assumes "firstRun cfg sched loc now left t run" and "now \<le> now'" and "now' \<le> createJobWindow cfg run"
    and "0 \<le> MaxSchedulingDelay cfg"
  shows "firstRun cfg sched loc now' left t run"
proof -
  have "\<not> windowOver cfg now' run" using assms(3,4) by (auto simp: windowOver_def)
  with assms(1) windowOver_later [OF assms(2)] show ?thesis unfolding firstRun_def by blast
qed

lemma search_waits:
  "firstRun cfg sched loc now 100 t run \<Longrightarrow> now < createJobWindow cfg run
    \<Longrightarrow> findNextRun cfg sched loc now 100 t = Inr (NotYet (timeSub (createJobWindow cfg run) now))"
  by (auto simp: findNextRun_wait)

lemma search_opens:
  "firstRun cfg sched loc (createJobWindow cfg run) 100 t run \<Longrightarrow> 0 \<le> MaxSchedulingDelay cfg
    \<Longrightarrow> findNextRun cfg sched loc (createJobWindow cfg run) 100 t = Inr (InWindow run)"
  by (simp add: findNextRun_open windowOpen_def)

text \<open>When a run is awaited, \<open>scheduleJob\<close> gets to the search.\<close>

lemma outcome_scheduleJob:
  assumes "searchedFrom L uc (inNamespace (Namespace uc) (cs_jobs s)) (cs_time s) t"
    and "outcome (searchRun L refConfigServer uc sched loc (cs_time s) t) s Q"
  shows "outcome (scheduleJob L refConfigServer uc sched loc) s Q"
  unfolding scheduleJob_def getControlledJobs_def State_Monad.bind_assoc State_Monad.bind_left_identity
  by (rule outcome_bind_call, simp, simp, rule outcome_bind_call, simp)
    (use assms in \<open>auto simp: searchedFrom_def split: option.splits\<close>)

lemma NextN_first:
  assumes "Next sched loc t = Inr u"
  shows "\<exists>us err. NextN sched loc t 10 = (u # us, err)"
  using assms NextN_Suc [of sched loc t 9] by (simp add: numeral_eq_Suc)

lemma outcome_updateNext:
  assumes "\<And>np. Q (uc\<lparr>NextPossibleSchedules := np\<rparr>, timeSub (hd np) (cs_time s), None)
      (s\<lparr>cs_config := uc\<lparr>NextPossibleSchedules := np\<rparr>\<rparr>)"
    and "\<exists>u. Next sched loc (cs_time s) = Inr u"
  shows "outcome (updateNextPossibleSchedulesStatus refConfigServer uc sched loc) s Q"
proof -
  obtain u us err where "NextN sched loc (cs_time s) 10 = (u # us, err)"
    using assms(2) NextN_first by blast
  with assms(1) [of "u # us"] show ?thesis unfolding updateNextPossibleSchedulesStatus_def
    by (intro outcome_bind_call) (auto simp: Let_def intro!: outcome_bind_call outcome_ret)
qed

text \<open>The last two parts of a run leave everything as it is but the list of schedules, and ask for another run after a
  positive time, at most the one \<open>scheduleJob\<close> asked for.\<close>

locale config_laws = condition_laws L + combine_laws L for L :: "'z lib_scheme" +
  assumes sorts_jobs: "sort_func (SortUpgradeJobs L)"
begin

lemma combine_nones [simp]: "Combine L [] = None" "Combine L [None, None, None] = None"
  by (simp_all add: combine_none)

lemma outcome_cleanup:
  assumes "tidy L s" and "Q None s"
  shows "outcome (cleanupSuccessfulJobs L refConfigServer (cs_config s)) s Q"
proof -
  have "length (SortUpgradeJobs L newestFirst xs) = length xs" for xs
    using sort_func.mset_sort [OF sorts_jobs] by (metis size_mset)
  then have "deleteSurplus L refConfigServer (cs_config s) (ownJobs L s) = ret None"
    using assms(1) by (auto simp: deleteSurplus_def tidy_def Let_def)
  then show ?thesis
    unfolding cleanupSuccessfulJobs_def getControlledJobs_def State_Monad.bind_assoc State_Monad.bind_left_identity
    using assms(2) by (intro outcome_bind_call) (auto simp: ownJobs_def intro: outcome_ret)
qed

lemma filterControlledJobs_same [simp]:
  "filterControlledJobs L (uc\<lparr>NextPossibleSchedules := np\<rparr>) jobs = filterControlledJobs L uc jobs"
  "filterControlledJobs L (uc\<lparr>LastScheduledUpgrade := lsu\<rparr>) jobs = filterControlledJobs L uc jobs"
  by (simp_all add: filterControlledJobs_filter IsControlledBy_def cong: option.case_cong)

lemma tidy_same [simp]:
  "tidy L (s\<lparr>cs_config := uc\<lparr>NextPossibleSchedules := np\<rparr>\<rparr>) = tidy L (s\<lparr>cs_config := uc\<rparr>)"
  "tidy L (s\<lparr>cs_config := uc\<lparr>LastScheduledUpgrade := lsu\<rparr>\<rparr>) = tidy L (s\<lparr>cs_config := uc\<rparr>)"
  "tidy L (s\<lparr>cs_time := t\<rparr>) = tidy L s"
  by (simp_all add: tidy_def ownJobs_def)

lemma soonestRequeue_bound: "0 < soonestRequeue d x \<and> (0 < d \<longrightarrow> soonestRequeue d x \<le> d)"
  by (auto simp: soonestRequeue_def Let_def minute_def second_def maxDuration_def)

lemma outcome_rest:
  assumes "uc = cs_config s" and "\<exists>u. Next sched loc (cs_time s) = Inr u" and "tidy L s"
    and "\<And>np ra. 0 < ra \<and> (0 < d \<longrightarrow> ra \<le> d) \<Longrightarrow>
      Q (Inr \<lparr>Requeue = False, RequeueAfter = ra\<rparr>) (s\<lparr>cs_config := uc\<lparr>NextPossibleSchedules := np\<rparr>\<rparr>)"
  shows "outcome (do {
      (uc, statusRequeue, stErr) \<leftarrow> updateNextPossibleSchedulesStatus refConfigServer uc sched loc;
      cleanupErr \<leftarrow> cleanupSuccessfulJobs L refConfigServer uc;
      ret (case Combine L [None, stErr, cleanupErr] of
        Some e \<Rightarrow> Inl e
      | None \<Rightarrow> Inr \<lparr>Requeue = False, RequeueAfter = soonestRequeue d statusRequeue\<rparr>) }) s Q"
proof (rule outcome_bind, rule outcome_updateNext [OF _ assms(2)], unfold prod.case, rule outcome_bind, goal_cases)
  case (1 np)
  let ?s = "s\<lparr>cs_config := uc\<lparr>NextPossibleSchedules := np\<rparr>\<rparr>"
  have tidy: "tidy L ?s" using assms(1,3) by simp
  have "cs_config ?s = uc\<lparr>NextPossibleSchedules := np\<rparr>" by simp
  from outcome_cleanup [OF tidy, unfolded this] assms(4) [OF soonestRequeue_bound] show ?case
    by (simp add: outcome_ret)
qed

lemma outcome_scheduleAndCleanUp:
  assumes "outcome (scheduleJob L refConfigServer uc sched loc) s (\<lambda>(uc', d, err) s'. err = None \<and> uc' = cs_config s'
      \<and> tidy L s' \<and> cs_time s' = t \<and> (\<forall>np ra. 0 < ra \<and> (0 < d \<longrightarrow> ra \<le> d) \<longrightarrow>
        Q (Inr \<lparr>Requeue = False, RequeueAfter = ra\<rparr>) (s'\<lparr>cs_config := uc'\<lparr>NextPossibleSchedules := np\<rparr>\<rparr>)))"
    and "\<exists>u. Next sched loc t = Inr u"
  shows "outcome (scheduleAndCleanUp L refConfigServer uc sched loc) s Q"
  unfolding scheduleAndCleanUp_def
proof (rule outcome_bind, rule outcome_mono [OF assms(1)], goal_cases)
  case (1 x s')
  then show ?case using assms(2) by (auto split: prod.splits intro!: outcome_rest)
qed

text \<open>A run before the window of the run.\<close>

lemma outcome_waiting:
  assumes "awaitsRun L sched loc run s t" and "tidy L s" and "\<exists>u. Next sched loc (cs_time s) = Inr u"
    and "cs_time s < createJobWindow (uc_Spec (cs_config s)) run"
    and "\<And>np ra. 0 < ra \<Longrightarrow> cs_time s + ra \<le> createJobWindow (uc_Spec (cs_config s)) run \<Longrightarrow>
      Q (Inr \<lparr>Requeue = False, RequeueAfter = ra\<rparr>) (s\<lparr>cs_config := (cs_config s)\<lparr>NextPossibleSchedules := np\<rparr>\<rparr>)"
  shows "outcome (scheduleAndCleanUp L refConfigServer (cs_config s) sched loc) s Q"
proof (rule outcome_scheduleAndCleanUp [OF _ assms(3)])
  let ?w = "createJobWindow (uc_Spec (cs_config s)) run"
  let ?d = "timeSub ?w (cs_time s)"
  have pos: "0 < ?d" using assms(4) by (simp add: timeSub_pos_iff)
  have bound: "cs_time s + ra \<le> ?w" if "ra \<le> ?d" for ra
    using that assms(4) by (simp add: timeSub_def min_def max_def minDuration_def split: if_splits)
  have "searchRun L refConfigServer (cs_config s) sched loc (cs_time s) t = ret (cs_config s, ?d, None)"
    unfolding searchRun_def by (subst search_waits [where run = run]) (use assms(1,4) in \<open>simp_all add: awaitsRun_def\<close>)
  then show "outcome (scheduleJob L refConfigServer (cs_config s) sched loc) s (\<lambda>(uc', d, err) s'. err = None
      \<and> uc' = cs_config s' \<and> tidy L s' \<and> cs_time s' = cs_time s \<and> (\<forall>np ra. 0 < ra \<and> (0 < d \<longrightarrow> ra \<le> d) \<longrightarrow>
        Q (Inr \<lparr>Requeue = False, RequeueAfter = ra\<rparr>) (s'\<lparr>cs_config := uc'\<lparr>NextPossibleSchedules := np\<rparr>\<rparr>)))"
    using assms(1,2,5) pos bound
    by (intro outcome_scheduleJob [where t = t]) (auto simp: awaitsRun_def intro!: outcome_ret)
qed

end

section \<open>The run that creates the job\<close>

text \<open>The job of a run: as the config's template says, with the latest version available.\<close>

definition jobOfRun :: "'z lib_scheme \<Rightarrow> configStore \<Rightarrow> time \<Rightarrow> OwnerReference list \<Rightarrow> UpgradeJob" where
  "jobOfRun L s run owners = scheduledJob (cs_config s) (LatestAvailableUpdate L (cs_version s)) run owners"

definition windowsAllow :: "'z lib_scheme \<Rightarrow> configStore \<Rightarrow> time \<Rightarrow> bool" where
  "windowsAllow L s now \<longleftrightarrow> (\<forall>w \<in> set (inNamespace (Namespace (cs_config s)) (cs_windows s)).
     \<not> windowCovers L ConfigSelector (Labels (cs_config s)) now w)"

definition nameFree :: "'z lib_scheme \<Rightarrow> configStore \<Rightarrow> time \<Rightarrow> bool" where
  "nameFree L s run \<longleftrightarrow> (\<forall>j \<in> set (cs_jobs s). \<not> sameName (jobOfRun L s run []) j)"

lemma jobOfRun_same [simp]:
  "jobOfRun L (s\<lparr>cs_config := uc\<lparr>NextPossibleSchedules := np\<rparr>\<rparr>) run owners = jobOfRun L (s\<lparr>cs_config := uc\<rparr>) run owners"
  "jobOfRun L (s\<lparr>cs_time := t\<rparr>) run owners = jobOfRun L s run owners"
  by (simp_all add: jobOfRun_def scheduledJob_def Let_def)

lemma createObject_free:
  assumes "nameFree L s run"
  shows "createObject (jobOfRun L s run owners) (cs_jobs s)
    = (Inr (bump (jobOfRun L s run owners)), cs_jobs s @ [bump (jobOfRun L s run owners)])"
proof -
  have "sameName (jobOfRun L s run owners) j = sameName (jobOfRun L s run []) j" for j :: UpgradeJob
    by (simp add: sameName_def jobOfRun_def scheduledJob_def Let_def)
  with assms show ?thesis by (auto simp: createObject_def nameFree_def list_ex_iff Let_def)
qed

text \<open>The store while a run is awaited: only the clock and the listed schedules change.\<close>

definition laterStore :: "configStore \<Rightarrow> time list \<Rightarrow> time \<Rightarrow> configStore" where
  "laterStore s np now = s\<lparr>cs_config := (cs_config s)\<lparr>NextPossibleSchedules := np\<rparr>, cs_time := now\<rparr>"

lemma laterStore_fields [simp]:
  "cs_time (laterStore s np now) = now" "uc_Spec (cs_config (laterStore s np now)) = uc_Spec (cs_config s)"
  "cs_jobs (laterStore s np now) = cs_jobs s"
  "ObjectMeta.truncate (cs_config (laterStore s np now)) = ObjectMeta.truncate (cs_config s)"
  by (simp_all add: laterStore_def ObjectMeta.truncate_def)

lemma laterStore_later [simp]: "laterStore (laterStore s np now) np' now' = laterStore s np' now'"
  by (simp add: laterStore_def)

context config_laws
begin

text \<open>A new job is not successful, so there is still nothing to clean up.\<close>

lemma tidy_created:
  assumes "tidy L s" and "uj_Conditions job = []"
  shows "tidy L (s\<lparr>cs_jobs := cs_jobs s @ [job]\<rparr>)"
proof -
  have "\<not> IsStatusConditionTrue L (uj_Conditions job) UpgradeJobConditionSucceeded"
    using assms(2) by (simp add: is_true find_first)
  then have "filterSuccessful L (ownJobs L (s\<lparr>cs_jobs := cs_jobs s @ [job]\<rparr>)) = filterSuccessful L (ownJobs L s)"
    by (simp add: filterSuccessful_filter ownJobs_def filterControlledJobs_filter inNamespace_def)
  with assms(1) show ?thesis by (simp add: tidy_def Let_def)
qed

lemma outcome_scheduleRun:
  assumes "\<not> Suspend (ScheduleSpec (uc_Spec (cs_config s)))" and "windowsAllow L s now"
    and "SetControllerReference L (ObjectMeta.truncate (cs_config s)) [] = Inr owners" and "nameFree L s run"
    and "Q ((cs_config s)\<lparr>LastScheduledUpgrade := Some run\<rparr>, 0, None)
      (s\<lparr>cs_jobs := cs_jobs s @ [bump (jobOfRun L s run owners)], cs_config := (cs_config s)\<lparr>LastScheduledUpgrade := Some run\<rparr>\<rparr>)"
  shows "outcome (scheduleRun L refConfigServer (cs_config s) now run) s Q"
proof -
  have "findWindow L ConfigSelector (Labels (cs_config s)) now (inNamespace (Namespace (cs_config s)) (cs_windows s)) = None"
    using assms(2) by (simp add: findWindow_None windowsAllow_def)
  then show ?thesis
    using assms createObject_free [OF assms(4), of owners]
    by (simp add: outcome_def scheduleRun_def matchingConfigWindow_def createJob_def setLastScheduledUpgrade_def
        jobOfRun_def Let_def)
qed

lemma outcome_creating:
  assumes "awaitsRun L sched loc run s t" and "tidy L s" and "\<exists>u. Next sched loc (cs_time s) = Inr u"
    and "cs_time s = createJobWindow (uc_Spec (cs_config s)) run" and "0 \<le> MaxSchedulingDelay (uc_Spec (cs_config s))"
    and calm: "\<not> Suspend (ScheduleSpec (uc_Spec (cs_config s)))" "windowsAllow L s (cs_time s)"
      "SetControllerReference L (ObjectMeta.truncate (cs_config s)) [] = Inr owners" "nameFree L s run"
    and "\<And>res s'. cs_jobs s' = cs_jobs s @ [bump (jobOfRun L s run owners)] \<Longrightarrow> Q (Inr res) s'"
  shows "outcome (scheduleAndCleanUp L refConfigServer (cs_config s) sched loc) s Q"
proof (rule outcome_scheduleAndCleanUp [OF _ assms(3)])
  let ?job = "bump (jobOfRun L s run owners)"
  have "uj_Conditions ?job = []" by (simp add: bump_def jobOfRun_def scheduledJob_def Let_def)
  from tidy_created [OF assms(2) this]
  have tidy: "tidy L (s\<lparr>cs_jobs := cs_jobs s @ [?job], cs_config := (cs_config s)\<lparr>LastScheduledUpgrade := Some run\<rparr>\<rparr>)"
    by simp
  have "searchRun L refConfigServer (cs_config s) sched loc (cs_time s) t
      = scheduleRun L refConfigServer (cs_config s) (cs_time s) run"
    unfolding searchRun_def assms(4) by (subst search_opens) (use assms in \<open>simp_all add: awaitsRun_def\<close>)
  then show "outcome (scheduleJob L refConfigServer (cs_config s) sched loc) s (\<lambda>(uc', d, err) s'. err = None
      \<and> uc' = cs_config s' \<and> tidy L s' \<and> cs_time s' = cs_time s \<and> (\<forall>np ra. 0 < ra \<and> (0 < d \<longrightarrow> ra \<le> d) \<longrightarrow>
        Q (Inr \<lparr>Requeue = False, RequeueAfter = ra\<rparr>) (s'\<lparr>cs_config := uc'\<lparr>NextPossibleSchedules := np\<rparr>\<rparr>)))"
    using assms(1,10) tidy
    by (intro outcome_scheduleJob [where t = t]) (auto simp: awaitsRun_def intro!: outcome_scheduleRun [OF calm])
qed

lemma outcome_ReconcileConfig:
  assumes "calmConfig L C req sched loc (cs_config s)"
    and "outcome (scheduleAndCleanUp L refConfigServer (cs_config s) sched loc) s Q"
  shows "outcome (ReconcileConfig L C refConfigServer req) s Q"
proof -
  have eq: "\<lparr>CronNext = CronNext sched, sc_IsoWeek = sc_IsoWeek sched\<rparr> = sched" by simp
  have get: "uc_getConfig refConfigServer req s = (Inr (cs_config s), s)"
    using assms(1) by (simp add: calmConfig_def)
  have loc: "(if Location (ScheduleSpec (uc_Spec (cs_config s))) = '''' then Inr (LocalZone C)
      else LoadLocation C (Location (ScheduleSpec (uc_Spec (cs_config s))))) = Inr loc"
    using assms(1) by (simp add: calmConfig_def split: if_splits)
  show ?thesis unfolding ReconcileConfig_def
    by (rule outcome_bind_call, rule get, unfold sum.case loc) (use assms in \<open>simp add: calmConfig_def eq\<close>)
qed

lemma laterStore_tidy [simp]: "tidy L (laterStore s np now) = tidy L s"
  using tidy_same(1) [where s = s and uc = "cs_config s" and np = np] by (simp add: laterStore_def)

lemma laterStore_jobOfRun [simp]: "jobOfRun L (laterStore s np now) run owners = jobOfRun L s run owners"
  by (simp add: laterStore_def)

lemma laterStore_windows [simp]: "windowsAllow L (laterStore s np now) t = windowsAllow L s t"
  unfolding windowsAllow_def laterStore_def by simp

lemma laterStore_nameFree [simp]: "nameFree L (laterStore s np now) run = nameFree L s run"
  unfolding nameFree_def by simp

lemma laterStore_calm [simp]:
  "calmConfig L C req sched loc (cs_config (laterStore s np now)) = calmConfig L C req sched loc (cs_config s)"
  unfolding calmConfig_def laterStore_fields by (simp add: laterStore_def)

lemma awaitsRun_later:
  assumes "awaitsRun L sched loc run s t" and "cs_time s \<le> now" and "now \<le> createJobWindow (uc_Spec (cs_config s)) run"
    and "0 \<le> MaxSchedulingDelay (uc_Spec (cs_config s))"
  shows "awaitsRun L sched loc run (laterStore s np now) t"
proof -
  have "searchedFrom L (cs_config s) jobs (cs_time s) t \<Longrightarrow> searchedFrom L (cs_config (laterStore s np now)) jobs now t" for jobs
    using assms(2) by (auto simp: laterStore_def searchedFrom_def split: option.splits)
  moreover have "inNamespace (Namespace (cs_config (laterStore s np now))) (cs_jobs s)
      = inNamespace (Namespace (cs_config s)) (cs_jobs s)" by (simp add: laterStore_def)
  ultimately show ?thesis
    using assms(1) firstRun_later_time [OF _ assms(2-4)] by (simp add: awaitsRun_def)
qed

text \<open>A run before the window leads to a later run, at most at the window.\<close>

lemma waiting_run:
  assumes "calmConfig L C req sched loc (cs_config s)" and "awaitsRun L sched loc run s t" and "tidy L s"
    and "cs_time s < createJobWindow (uc_Spec (cs_config s)) run"
  shows "outcome (ReconcileConfig L C refConfigServer req) s (\<lambda>res s'. \<exists>np ra.
      res = Inr \<lparr>Requeue = False, RequeueAfter = ra\<rparr> \<and> s' = s\<lparr>cs_config := (cs_config s)\<lparr>NextPossibleSchedules := np\<rparr>\<rparr>
      \<and> 0 < ra \<and> cs_time s + ra \<le> createJobWindow (uc_Spec (cs_config s)) run)"
proof (rule outcome_ReconcileConfig [OF assms(1)], rule outcome_waiting [OF assms(2,3) _ assms(4)], goal_cases)
  case 1
  show ?case using assms(1) by (simp add: calmConfig_def)
next
  case (2 np ra)
  then show ?case by (intro exI [of _ np] exI [of _ ra]) simp
qed

lemma cycle_waits:
  assumes "calmConfig L C req sched loc (cs_config s)" and "awaitsRun L sched loc run s t" and "tidy L s"
    and "cs_time s < createJobWindow (uc_Spec (cs_config s)) run"
  shows "\<exists>np now. configCycle L C req s = laterStore s np now \<and> cs_time s < now
    \<and> now \<le> createJobWindow (uc_Spec (cs_config s)) run"
proof -
  from outcome_run [OF waiting_run [OF assms]] obtain np ra where
    "resultOf (ReconcileConfig L C refConfigServer req) s = Inr \<lparr>Requeue = False, RequeueAfter = ra\<rparr>"
    "storeOf (ReconcileConfig L C refConfigServer req) s = s\<lparr>cs_config := (cs_config s)\<lparr>NextPossibleSchedules := np\<rparr>\<rparr>"
    and *: "0 < ra" "cs_time s + ra \<le> createJobWindow (uc_Spec (cs_config s)) run" by blast
  then have "configCycle L C req s = laterStore s np (cs_time s + ra)" by (simp add: configCycle_def laterStore_def)
  with * show ?thesis by (intro exI [of _ np] exI [of _ "cs_time s + ra"]) simp
qed

lemma funpow_first: "(f ^^ Suc n) x = (f ^^ n) (f x)"
  by (simp add: funpow_swap1)

text \<open>So the window is reached.\<close>

lemma cycles_reach:
  assumes "calmConfig L C req sched loc (cs_config s)" and "awaitsRun L sched loc run s t" and "tidy L s"
    and "cs_time s \<le> createJobWindow (uc_Spec (cs_config s)) run"
  shows "\<exists>n np. (configCycle L C req ^^ n) s = laterStore s np (createJobWindow (uc_Spec (cs_config s)) run)
    \<and> (\<forall>m \<le> n. cs_jobs ((configCycle L C req ^^ m) s) = cs_jobs s)"
  using assms
proof (induction "nat (createJobWindow (uc_Spec (cs_config s)) run - cs_time s)" arbitrary: s rule: less_induct)
  case less
  let ?w = "createJobWindow (uc_Spec (cs_config s)) run"
  show ?case
  proof (cases "cs_time s = ?w")
    case True
    then have "(configCycle L C req ^^ 0) s = laterStore s (NextPossibleSchedules (cs_config s)) ?w"
      by (simp add: laterStore_def)
    then show ?thesis by (intro exI [of _ 0] exI [of _ "NextPossibleSchedules (cs_config s)"]) simp
  next
    case False
    with less.prems(4) have before: "cs_time s < ?w" by simp
    from cycle_waits [OF less.prems(1-3) before] obtain np now where
      c: "configCycle L C req s = laterStore s np now" "cs_time s < now" "now \<le> ?w" by blast
    let ?s = "laterStore s np now"
    have delay: "0 \<le> MaxSchedulingDelay (uc_Spec (cs_config s))" using less.prems(1) by (simp add: calmConfig_def)
    have "awaitsRun L sched loc run ?s t"
      using awaitsRun_later [OF less.prems(2) _ c(3) delay] c(2) by simp
    moreover have "calmConfig L C req sched loc (cs_config ?s)" "tidy L ?s" using less.prems(1,3) by simp_all
    ultimately have "\<exists>n np'. (configCycle L C req ^^ n) ?s = laterStore ?s np' ?w
        \<and> (\<forall>m \<le> n. cs_jobs ((configCycle L C req ^^ m) ?s) = cs_jobs s)"
      using less.hyps [of ?s] c(2,3) before by simp
    then obtain n np' where n: "(configCycle L C req ^^ n) ?s = laterStore s np' ?w"
      and jobs: "\<And>m. m \<le> n \<Longrightarrow> cs_jobs ((configCycle L C req ^^ m) ?s) = cs_jobs s" by auto
    have "cs_jobs ((configCycle L C req ^^ m) s) = cs_jobs s" if "m \<le> Suc n" for m
      using that jobs by (cases m) (simp_all only: funpow_first c(1) Suc_le_mono, simp)
    moreover have "(configCycle L C req ^^ Suc n) s = laterStore s np' ?w" unfolding funpow_first c(1) by (rule n)
    ultimately show ?thesis by blast
  qed
qed

text \<open>The run in the window creates the job.\<close>

lemma cycle_creates:
  assumes "calmConfig L C req sched loc (cs_config s)" and "awaitsRun L sched loc run s t" and "tidy L s"
    and "cs_time s = createJobWindow (uc_Spec (cs_config s)) run"
    and "windowsAllow L s (cs_time s)" and "nameFree L s run"
    and "SetControllerReference L (ObjectMeta.truncate (cs_config s)) [] = Inr owners"
  shows "cs_jobs (configCycle L C req s) = cs_jobs s @ [bump (jobOfRun L s run owners)]"
proof -
  have calm: "\<exists>u. Next sched loc (cs_time s) = Inr u" "0 \<le> MaxSchedulingDelay (uc_Spec (cs_config s))"
    "\<not> Suspend (ScheduleSpec (uc_Spec (cs_config s)))" using assms(1) by (simp_all add: calmConfig_def)
  have "outcome (ReconcileConfig L C refConfigServer req) s
      (\<lambda>res s'. (\<exists>r. res = Inr r) \<and> cs_jobs s' = cs_jobs s @ [bump (jobOfRun L s run owners)])"
    by (rule outcome_ReconcileConfig [OF assms(1)],
        rule outcome_creating [OF assms(2,3) calm(1) assms(4) calm(2,3) assms(5,7,6)]) simp
  from outcome_run [OF this] show ?thesis by (auto simp: configCycle_def Let_def)
qed

lemma schedules_run:
  assumes "calmConfig L C req sched loc (cs_config s)" and "awaitsRun L sched loc run s t" and "tidy L s"
    and "cs_time s \<le> createJobWindow (uc_Spec (cs_config s)) run"
    and "windowsAllow L s (createJobWindow (uc_Spec (cs_config s)) run)" and "nameFree L s run"
    and "SetControllerReference L (ObjectMeta.truncate (cs_config s)) [] = Inr owners"
  shows "\<exists>n. cs_time ((configCycle L C req ^^ n) s) = createJobWindow (uc_Spec (cs_config s)) run
    \<and> (\<forall>m \<le> n. cs_jobs ((configCycle L C req ^^ m) s) = cs_jobs s)
    \<and> cs_jobs ((configCycle L C req ^^ Suc n) s) = cs_jobs s @ [bump (jobOfRun L s run owners)]"
proof -
  let ?w = "createJobWindow (uc_Spec (cs_config s)) run"
  from cycles_reach [OF assms(1-4)] obtain n np where n: "(configCycle L C req ^^ n) s = laterStore s np ?w"
    and jobs: "\<forall>m \<le> n. cs_jobs ((configCycle L C req ^^ m) s) = cs_jobs s" by blast
  have "0 \<le> MaxSchedulingDelay (uc_Spec (cs_config s))" using assms(1) by (simp add: calmConfig_def)
  from awaitsRun_later [OF assms(2,4) order_refl this] have "awaitsRun L sched loc run (laterStore s np ?w) t" .
  from cycle_creates [OF _ this, where C = C and req = req and owners = owners] assms
  have "cs_jobs (configCycle L C req (laterStore s np ?w)) = cs_jobs s @ [bump (jobOfRun L s run owners)]" by simp
  with n jobs show ?thesis by (intro exI [of _ n]) simp
qed

end

interpretation cfgRef: config_laws refLib
  by (intro config_laws.intro config_laws_axioms.intro refLib_sortUpgradeJobs; unfold_locales)

section \<open>A run gets its job\<close>

text \<open>C8: a run gets its job. On a calm config, whose schedule's next run is \<open>run\<close>, the controller, run again whenever
  it asked to be, reaches the moment at which the version of the run is pinned, exactly. Until then it creates no
  job; the run at this moment creates one, for \<open>run\<close>, as the config's template says and with the latest version
  available, when no suspension window covers the moment and no job has the name yet.\<close>

theorem config_schedules_run:
  assumes "config_laws L" and "calmConfig L C req sched loc (cs_config s)" and "awaitsRun L sched loc run s t"
    and "tidy L s" and "cs_time s \<le> createJobWindow (uc_Spec (cs_config s)) run"
    and "windowsAllow L s (createJobWindow (uc_Spec (cs_config s)) run)" and "nameFree L s run"
    and "SetControllerReference L (ObjectMeta.truncate (cs_config s)) [] = Inr owners"
  shows "\<exists>n. cs_time ((configCycle L C req ^^ n) s) = createJobWindow (uc_Spec (cs_config s)) run
    \<and> (\<forall>m \<le> n. cs_jobs ((configCycle L C req ^^ m) s) = cs_jobs s)
    \<and> cs_jobs ((configCycle L C req ^^ Suc n) s) = cs_jobs s @ [bump (jobOfRun L s run owners)]"
  by (rule config_laws.schedules_run [OF assms])

definition earlyStore :: configStore where
  "earlyStore = sampleStore\<lparr>cs_time := day - 600 * minute\<rparr>"

lemma earlyStore_calm:
  "calmConfig refLib refCron \<lparr>nn_Namespace = ''ns'', nn_Name = ''config''\<rparr> dailySchedule (\<lambda>_. 0) (cs_config earlyStore)"
  by (simp add: calmConfig_def earlyStore_def sampleStore_def sampleUpgradeConfig_def sampleMeta_def ObjectMeta.extend_def
      refCron_def isZeroPtr_def Next_daily) (simp add: dailySchedule_def refLib_def minute_def second_def)

lemma earlyStore_window: "createJobWindow (uc_Spec (cs_config earlyStore)) day = day - 60 * minute"
  by code_simp

lemma earlyStore_awaits: "awaitsRun refLib dailySchedule (\<lambda>_. 0) day earlyStore 0"
proof -
  have "runNo dailySchedule (\<lambda>_. 0) (Suc 0) 0 = Some day" by (simp add: Next_daily)
  moreover have "\<not> windowOver (uc_Spec (cs_config earlyStore)) (cs_time earlyStore) day" by code_simp
  ultimately have "firstRun (uc_Spec (cs_config earlyStore)) dailySchedule (\<lambda>_. 0) (cs_time earlyStore) 100 0 day"
    unfolding firstRun_def by (intro exI [of _ 0]) simp
  then show ?thesis
    by (simp add: awaitsRun_def searchedFrom_def earlyStore_def sampleStore_def sampleUpgradeConfig_def sampleMeta_def
        ObjectMeta.extend_def inNamespace_def latestScheduledJob_def)
qed

theorem config_schedules_run_witness:
  "\<exists>n. cs_time ((configCycle refLib refCron \<lparr>nn_Namespace = ''ns'', nn_Name = ''config''\<rparr> ^^ n) earlyStore) = day - 60 * minute
   \<and> map (\<lambda>j. StartAfter (uj_Spec j)) (cs_jobs ((configCycle refLib refCron \<lparr>nn_Namespace = ''ns'', nn_Name = ''config''\<rparr>
       ^^ Suc n) earlyStore)) = [day]"
proof -
  obtain owners where owners: "SetControllerReference refLib (ObjectMeta.truncate (cs_config earlyStore)) [] = Inr owners"
    using earlyStore_calm by (auto simp: calmConfig_def)
  have "tidy refLib earlyStore" by code_simp
  moreover have "cs_time earlyStore \<le> createJobWindow (uc_Spec (cs_config earlyStore)) day" by code_simp
  moreover have "windowsAllow refLib earlyStore (createJobWindow (uc_Spec (cs_config earlyStore)) day)"
    by (simp add: windowsAllow_def earlyStore_def sampleStore_def inNamespace_def)
  moreover have "nameFree refLib earlyStore day" by (simp add: nameFree_def earlyStore_def sampleStore_def)
  ultimately obtain n where
    "cs_time ((configCycle refLib refCron \<lparr>nn_Namespace = ''ns'', nn_Name = ''config''\<rparr> ^^ n) earlyStore)
      = createJobWindow (uc_Spec (cs_config earlyStore)) day"
    "cs_jobs ((configCycle refLib refCron \<lparr>nn_Namespace = ''ns'', nn_Name = ''config''\<rparr> ^^ Suc n) earlyStore)
      = cs_jobs earlyStore @ [bump (jobOfRun refLib earlyStore day owners)]"
    using config_schedules_run [OF cfgRef.config_laws_axioms earlyStore_calm earlyStore_awaits _ _ _ _ owners] by blast
  moreover have "cs_jobs earlyStore = []" by (simp add: earlyStore_def sampleStore_def)
  moreover have "StartAfter (uj_Spec (bump (jobOfRun refLib earlyStore day owners))) = day"
    by (simp add: bump_def jobOfRun_def scheduledJob_def Let_def)
  ultimately show ?thesis unfolding earlyStore_window by (intro exI [of _ n]) simp
qed

end
