(* ===== verification/Watches.thy ===== *)
theory Watches
  imports UpgradeJob_Controller UpgradeConfig_Controller SuspensionWindow_Controller ClusterVersion_Controller ForceDrain_Controller
begin

text \<open>
  The watches of the five controllers (the \<^verbatim>\<open>SetupWithManager\<close> methods): which objects a controller hears of
  and how an event becomes reconcile requests. The methods describe the watches to the builder of
  controller-runtime, so a method is a list of watches here. What the library does with them is a parameter,
  \<open>deliver\<close>, with the documented laws of \<open>event_delivery\<close>.
\<close>

section \<open>Events and watches\<close>

datatype kindName = JobKind | ConfigKind | WindowKind | ManagedKind | UpstreamKind | PoolKind | BatchKind
  | DrainKind | NodeKind

text \<open>An event carries the object it is about, as it is now.\<close>

datatype watchEvent =
    JobEvent UpgradeJob
  | ConfigEvent UpgradeConfig
  | WindowEvent UpgradeSuspensionWindow
  | ManagedEvent ManagedClusterVersion
  | UpstreamEvent ClusterVersion
  | PoolEvent MachineConfigPool
  | BatchEvent Job
  | DrainEvent NodeForceDrain
  | NodeEvent Node

fun kindOf :: "watchEvent \<Rightarrow> kindName" where
  "kindOf (JobEvent _) = JobKind"
| "kindOf (ConfigEvent _) = ConfigKind"
| "kindOf (WindowEvent _) = WindowKind"
| "kindOf (ManagedEvent _) = ManagedKind"
| "kindOf (UpstreamEvent _) = UpstreamKind"
| "kindOf (PoolEvent _) = PoolKind"
| "kindOf (BatchEvent _) = BatchKind"
| "kindOf (DrainEvent _) = DrainKind"
| "kindOf (NodeEvent _) = NodeKind"

fun metaOf :: "watchEvent \<Rightarrow> ObjectMeta" where
  "metaOf (JobEvent x) = ObjectMeta.truncate x"
| "metaOf (ConfigEvent x) = ObjectMeta.truncate x"
| "metaOf (WindowEvent x) = ObjectMeta.truncate x"
| "metaOf (ManagedEvent x) = ObjectMeta.truncate x"
| "metaOf (UpstreamEvent x) = ObjectMeta.truncate x"
| "metaOf (PoolEvent x) = ObjectMeta.truncate x"
| "metaOf (BatchEvent x) = ObjectMeta.truncate x"
| "metaOf (DrainEvent x) = ObjectMeta.truncate x"
| "metaOf (NodeEvent x) = x"

definition keyOf :: "('a ObjectMeta_scheme) \<Rightarrow> NamespacedName" where
  "keyOf m = \<lparr>nn_Namespace = Namespace m, nn_Name = Name m\<rparr>"

lemma keyOf_truncate [simp]: "keyOf (ObjectMeta.truncate m) = keyOf m"
  by (simp add: keyOf_def ObjectMeta.truncate_def)

lemma keyOf_iff: "keyOf m = req \<longleftrightarrow> Namespace m = nn_Namespace req \<and> Name m = nn_Name req"
  by (cases req) (simp add: keyOf_def)

text \<open>The three handlers the code uses: the object itself (\<^verbatim>\<open>For\<close> and \<^verbatim>\<open>EnqueueRequestForObject\<close>), its controller
  of some kind (\<^verbatim>\<open>Owns\<close>), and a mapping function (\<^verbatim>\<open>EnqueueRequestsFromMapFunc\<close>).\<close>

datatype ('s, 'e) watchHandler =
    ForObject
  | ForOwner kindName
  | Mapped "watchEvent \<Rightarrow> ('s, 'e, NamespacedName list) io"

record ('s, 'e) watches =
  watched :: "(kindName \<times> ('s, 'e) watchHandler) list"
  eventFilter :: "watchEvent \<Rightarrow> bool"

section \<open>SetupWithManager\<close>

definition setupUpgradeJob :: "'s UpgradeJobReconciler \<Rightarrow> ('s, ujCall) watches" where
  "setupUpgradeJob r =
     (let jm = Mapped (\<lambda>_. JobFromClusterVersionMapper r (ManagedUpstreamClusterVersionName r))
      in \<lparr>watched = [(JobKind, ForObject), (UpstreamKind, jm), (PoolKind, jm), (BatchKind, ForOwner JobKind)],
          eventFilter = (\<lambda>_. True)\<rparr>)"

definition setupUpgradeConfig :: "'s UpgradeConfigReconciler \<Rightarrow> ('s, ucCall) watches" where
  "setupUpgradeConfig r =
     \<lparr>watched = [(ConfigKind, ForObject), (JobKind, ForOwner ConfigKind)], eventFilter = (\<lambda>_. True)\<rparr>"

definition setupSuspensionWindow :: "'s UpgradeSuspensionWindowReconciler \<Rightarrow> ('s, uswCall) watches" where
  "setupSuspensionWindow r = \<lparr>watched = [(WindowKind, ForObject)], eventFilter = (\<lambda>_. True)\<rparr>"

text \<open>The object of an event as the filter of the cluster version controller sees it.\<close>

fun watchedOf :: "watchEvent \<Rightarrow> ClusterVersion_Controller.watched" where
  "watchedOf (ManagedEvent v) = WatchedManaged v"
| "watchedOf (UpstreamEvent v) = WatchedUpstream v"
| "watchedOf ev = WatchedOther (metaOf ev)"

definition setupClusterVersion :: "'s ClusterVersionReconciler \<Rightarrow> ('s, cvCall) watches" where
  "setupClusterVersion r = \<lparr>watched = [(ManagedKind, ForObject), (UpstreamKind, ForObject)],
     eventFilter = (\<lambda>ev. Filter r (watchedOf ev))\<rparr>"

definition setupForceDrain :: "'z lib_scheme \<Rightarrow> 's NodeForceDrainReconciler \<Rightarrow> ('s, nfdCall) watches" where
  "setupForceDrain L r =
     (let nm = Mapped (\<lambda>ev. NodeToNodeForceDrainMapper L r (metaOf ev))
      in \<lparr>watched = [(DrainKind, ForObject), (NodeKind, nm)], eventFilter = (\<lambda>_. True)\<rparr>)"

section \<open>The requests of an event\<close>

text \<open>The requests a controller gets for an event that arrives when the store is \<open>s\<close>.\<close>

definition requestsOf ::
  "(('s, 'e) watchHandler \<Rightarrow> watchEvent \<Rightarrow> ('s, 'e, NamespacedName list) io) \<Rightarrow> ('s, 'e) watches
     \<Rightarrow> watchEvent \<Rightarrow> 's \<Rightarrow> NamespacedName set"
where
  "requestsOf deliver c ev s = (if eventFilter c ev
     then \<Union>(k, handler) \<in> set (watched c). if k = kindOf ev then set (resultOf (deliver handler ev) s) else {}
     else {})"

text \<open>The documented behaviour of the handlers. An owner is found by the reference that
  \<^verbatim>\<open>SetControllerReference\<close> left on the object, whose owner is in the namespace of the object.\<close>

locale event_delivery =
  fixes L :: "'z lib_scheme"
    and deliver :: "('s, 'e) watchHandler \<Rightarrow> watchEvent \<Rightarrow> ('s, 'e, NamespacedName list) io"
  assumes for_object: "set (resultOf (deliver ForObject ev) s) = {keyOf (metaOf ev)}"
    and mapped: "set (resultOf (deliver (Mapped f) ev) s) = set (resultOf (f ev) s)"
    and job_owner: "SetControllerReference L (ObjectMeta.truncate (uj :: UpgradeJob)) []
        = Inr (OwnerReferences (metaOf ev))
      \<Longrightarrow> set (resultOf (deliver (ForOwner JobKind) ev) s)
        = {\<lparr>nn_Namespace = Namespace (metaOf ev), nn_Name = Name uj\<rparr>}"
    and config_owner: "SetControllerReference L (ObjectMeta.truncate (uc :: UpgradeConfig)) []
        = Inr (OwnerReferences (metaOf ev))
      \<Longrightarrow> set (resultOf (deliver (ForOwner ConfigKind) ev) s)
        = {\<lparr>nn_Namespace = Namespace (metaOf ev), nn_Name = Name uc\<rparr>}"

text \<open>A delivery that keeps the laws: the owner is the controller reference of the object.\<close>

fun refDeliver :: "('s, 'e) watchHandler \<Rightarrow> watchEvent \<Rightarrow> ('s, 'e, NamespacedName list) io" where
  "refDeliver ForObject ev = ret [keyOf (metaOf ev)]"
| "refDeliver (ForOwner k) ev = ret (case GetControllerOf refLib (OwnerReferences (metaOf ev)) of
     None \<Rightarrow> []
   | Some ref \<Rightarrow> [\<lparr>nn_Namespace = Namespace (metaOf ev), nn_Name = or_Name ref\<rparr>])"
| "refDeliver (Mapped f) ev = f ev"

lemma resultOf_ret [simp]: "resultOf (ret x) s = x"
  by (simp add: resultOf_def)

lemma refLib_controller:
  "SetControllerReference refLib owner [] = Inr refs
    \<Longrightarrow> \<exists>ref. GetControllerOf refLib refs = Some ref \<and> or_Name ref = Name owner"
  by (auto simp: refLib_def)

lemma truncate_fields [simp]:
  "Name (ObjectMeta.truncate m) = Name m" "Namespace (ObjectMeta.truncate m) = Namespace m"
  "OwnerReferences (ObjectMeta.truncate m) = OwnerReferences m"
  by (simp_all add: ObjectMeta.truncate_def)

interpretation refDelivery: event_delivery refLib refDeliver
  by unfold_locales (auto dest: refLib_controller)

text \<open>What each controller hears of.\<close>

lemma job_events:
  assumes "event_delivery L deliver"
  shows "requestsOf deliver (setupUpgradeJob r) (JobEvent uj) s = {keyOf uj}"
    and "requestsOf deliver (setupUpgradeJob r) (UpstreamEvent v) s
      = set (resultOf (JobFromClusterVersionMapper r (ManagedUpstreamClusterVersionName r)) s)"
    and "requestsOf deliver (setupUpgradeJob r) (PoolEvent p) s
      = set (resultOf (JobFromClusterVersionMapper r (ManagedUpstreamClusterVersionName r)) s)"
    and "SetControllerReference L (ObjectMeta.truncate (owner :: UpgradeJob)) [] = Inr (OwnerReferences j)
      \<Longrightarrow> requestsOf deliver (setupUpgradeJob r) (BatchEvent j) s = {\<lparr>nn_Namespace = Namespace j, nn_Name = Name owner\<rparr>}"
  using event_delivery.job_owner [OF assms, of owner "BatchEvent j" s]
  by (simp_all add: requestsOf_def setupUpgradeJob_def event_delivery.for_object [OF assms]
    event_delivery.mapped [OF assms] Let_def)

text \<open>A job a config created starts a run of that config whenever it changes.\<close>

lemma config_events:
  assumes "event_delivery L deliver"
  shows "requestsOf deliver (setupUpgradeConfig c) (ConfigEvent uc) s = {keyOf uc}"
    and "SetControllerReference L (ObjectMeta.truncate (owner :: UpgradeConfig)) [] = Inr (OwnerReferences uj)
      \<Longrightarrow> requestsOf deliver (setupUpgradeConfig c) (JobEvent uj) s = {\<lparr>nn_Namespace = Namespace uj, nn_Name = Name owner\<rparr>}"
  using event_delivery.config_owner [OF assms, of owner "JobEvent uj" s]
  by (simp_all add: requestsOf_def setupUpgradeConfig_def event_delivery.for_object [OF assms])

text \<open>The cluster version controller hears only of its two objects, each under its own key.\<close>

lemma version_events:
  assumes "event_delivery L deliver"
  shows "requestsOf deliver (setupClusterVersion c) (ManagedEvent m) s = (if
      Name m = cv_ManagedClusterVersionName c \<and> Namespace m = cv_ManagedClusterVersionNamespace c then {keyOf m} else {})"
    and "requestsOf deliver (setupClusterVersion c) (UpstreamEvent v) s
      = (if Name v = cv_ManagedUpstreamClusterVersionName c then {keyOf v} else {})"
  by (auto simp: requestsOf_def setupClusterVersion_def Filter_def event_delivery.for_object [OF assms])

lemma drain_events:
  assumes "event_delivery L deliver"
  shows "requestsOf deliver (setupForceDrain L' d) (DrainEvent fd) s = {keyOf fd}"
    and "requestsOf deliver (setupForceDrain L' d) (NodeEvent node) s
      = set (resultOf (NodeToNodeForceDrainMapper L' d node) s)"
  by (simp_all add: requestsOf_def setupForceDrain_def Let_def event_delivery.for_object [OF assms]
    event_delivery.mapped [OF assms])

lemma window_events:
  "event_delivery L deliver \<Longrightarrow> requestsOf deliver (setupSuspensionWindow c) (WindowEvent w) s = {keyOf w}"
  by (simp add: requestsOf_def setupSuspensionWindow_def event_delivery.for_object)

end
