(* ===== verification/Wake_Ups.thy ===== *)
theory Wake_Ups
  imports Watches Samples
begin

text \<open>
  No wake-up is lost: when a run of the upgrade job controller ends without asking for another one and the
  job is not over, the run has seen or caused something that is still to happen, and the watches of
  \<^verbatim>\<open>SetupWithManager\<close> turn the event of it into a request for exactly this job.
\<close>

section \<open>What a run can wait for\<close>

text \<open>The status of two versions of a job, up to transition times and the order of trackers.\<close>

definition condView :: "'z lib_scheme \<Rightarrow> UpgradeJob \<Rightarrow> string \<Rightarrow> (ConditionStatus \<times> string \<times> string) option" where
  "condView L uj t = map_option (\<lambda>c. (Status c, Reason c, Message c)) (FindStatusCondition L (uj_Conditions uj) t)"

definition sameStatus :: "'z lib_scheme \<Rightarrow> UpgradeJob \<Rightarrow> UpgradeJob \<Rightarrow> bool" where
  "sameStatus L a b \<longleftrightarrow> set (uj_HookJobTracker a) = set (uj_HookJobTracker b) \<and> condView L a = condView L b"

text \<open>The job itself changed: the run stored a status that differs from one it had read, or two reads of the
  run differ, so that somebody else wrote the job meanwhile.\<close>

definition statusMoved :: "'z lib_scheme \<Rightarrow> NamespacedName \<Rightarrow> ujCall list \<Rightarrow> bool" where
  "statusMoved L req h \<longleftrightarrow>
     (\<exists>base sent stored. GetUpgradeJob req (Inr base) \<in> set h \<and> StatusUpdateUpgradeJob sent (Inr stored) \<in> set h
        \<and> keyOf stored = req \<and> \<not> sameStatus L base sent)
     \<or> (\<exists>a b. GetUpgradeJob req a \<in> set h \<and> GetUpgradeJob req b \<in> set h \<and> a \<noteq> b)"

text \<open>A hook job of the upgrade job is under way: one is listed under the label of the upgrade job and not
  finished, or the run created one, controlled by the upgrade job.\<close>

definition hookJobOf :: "'z lib_scheme \<Rightarrow> NamespacedName \<Rightarrow> Job \<Rightarrow> bool" where
  "hookJobOf L req j \<longleftrightarrow> Namespace j = nn_Namespace req \<and> (\<exists>owner :: UpgradeJob. Name owner = nn_Name req
     \<and> SetControllerReference L (ObjectMeta.truncate owner) [] = Inr (OwnerReferences j))"

definition hookJobRuns :: "'z lib_scheme \<Rightarrow> NamespacedName \<Rightarrow> ujCall list \<Rightarrow> bool" where
  "hookJobRuns L req h \<longleftrightarrow>
     (\<exists>ls items j. ListJobs (nn_Namespace req) ls (Inr items) \<in> set h
        \<and> ls hookJobTrackingLabelUpgradeJob = Some (nn_Name req) \<and> j \<in> set items \<and> \<not> isJobFinished j)
     \<or> (\<exists>sent stored. CreateJob sent (Inr stored) \<in> set h \<and> hookJobOf L req sent)"

text \<open>The cluster version, which the job holds the lock of, is being upgraded or degraded, or the run set
  its desired update.\<close>

definition heldRead :: "NamespacedName \<Rightarrow> ujCall list \<Rightarrow> ClusterVersion \<Rightarrow> bool" where
  "heldRead req h cv \<longleftrightarrow> cvRead h cv \<and> lockHeld (lockOf req) cv"

definition versionBusy :: "NamespacedName \<Rightarrow> ujCall list \<Rightarrow> bool" where
  "versionBusy req h \<longleftrightarrow>
     (\<exists>cv. heldRead req h cv \<and> (\<not> IsVersionUpgradeCompleted cv \<or> IsOperatorDegraded cv))
     \<or> (\<exists>base dv sent stored. heldRead req h base \<and> setsDesired (lockOf req) dv base sent
          \<and> DesiredUpdate (cv_Spec base) \<noteq> Some dv \<and> UpdateClusterVersion sent (Inr stored) \<in> set h)"

text \<open>The job holds the lock, and a pool that is not paused has machines left to update.\<close>

definition poolsBusy :: "NamespacedName \<Rightarrow> ujCall list \<Rightarrow> bool" where
  "poolsBusy req h \<longleftrightarrow> (\<exists>cv. heldRead req h cv) \<and> (\<exists>mcps p. ListPools None (Inr mcps) \<in> set h \<and> p \<in> set mcps
     \<and> \<not> Paused p \<and> MachineCount p \<noteq> UpdatedMachineCount p)"

fun awaits :: "'z lib_scheme \<Rightarrow> NamespacedName \<Rightarrow> ujCall list \<Rightarrow> kindName \<Rightarrow> bool" where
  "awaits L req h JobKind = statusMoved L req h"
| "awaits L req h BatchKind = hookJobRuns L req h"
| "awaits L req h UpstreamKind = versionBusy req h"
| "awaits L req h PoolKind = poolsBusy req h"
| "awaits L req h _ = False"

text \<open>The events of these objects: of the job, of a Kubernetes job it controls, and of the cluster version or a
  pool as long as the version is read with the lock of the job.\<close>

fun concerns :: "'z lib_scheme \<Rightarrow> 's UpgradeJobReconciler \<Rightarrow> NamespacedName \<Rightarrow> 's \<Rightarrow> watchEvent \<Rightarrow> bool" where
  "concerns L r req s (JobEvent uj) \<longleftrightarrow> keyOf uj = req"
| "concerns L r req s (BatchEvent j) \<longleftrightarrow> hookJobOf L req j"
| "concerns L r req s (UpstreamEvent _) \<longleftrightarrow>
     (\<exists>cv. fst (c_getClusterVersion r (ManagedUpstreamClusterVersionName r) s) = Inr cv \<and> lockHeld (lockOf req) cv)"
| "concerns L r req s (PoolEvent _) \<longleftrightarrow>
     (\<exists>cv. fst (c_getClusterVersion r (ManagedUpstreamClusterVersionName r) s) = Inr cv \<and> lockHeld (lockOf req) cv)"
| "concerns L r req s _ \<longleftrightarrow> False"

text \<open>The job is over: gone, being deleted, or finished.\<close>

definition jobOver :: "'z lib_scheme \<Rightarrow> NamespacedName \<Rightarrow> ujCall list \<Rightarrow> bool" where
  "jobOver L req h \<longleftrightarrow> jobGone L req h \<or> (\<exists>uj. GetUpgradeJob req (Inr uj) \<in> set h
     \<and> (\<not> isZeroPtr (DeletionTimestamp uj) \<or> succeededCondition L uj \<noteq> None \<or> failedCondition L uj \<noteq> None))"

section \<open>Events reach the job\<close>

text \<open>The annotation of the lock is read back as the name of the job.\<close>

lemma lock_request:
  assumes "CHR ''/'' \<notin> set (nn_Namespace req)" and "CHR ''/'' \<notin> set (nn_Name req)" and "lockHeld (lockOf req) cv"
  shows "upgradeJobNameFromLockedClusterVersion cv = (True, req)"
  using assms splitOn_append [OF assms(1), of "nn_Name req"] splitOn_no_sep [OF assms(2)]
  by (cases req) (simp add: upgradeJobNameFromLockedClusterVersion_def annotation_def lockHeld_def lockOf_def)

lemma mapper_request:
  assumes "CHR ''/'' \<notin> set (nn_Namespace req)" and "CHR ''/'' \<notin> set (nn_Name req)"
    and "fst (c_getClusterVersion r n s) = Inr cv" and "lockHeld (lockOf req) cv"
  shows "resultOf (JobFromClusterVersionMapper r n) s = [req]"
  using assms(3) lock_request [OF assms(1,2,4)]
  by (cases "c_getClusterVersion r n s") (simp add: JobFromClusterVersionMapper_def resultOf_def)

lemma event_wakes:
  assumes "event_delivery L deliver"
    and "CHR ''/'' \<notin> set (nn_Namespace req)" and "CHR ''/'' \<notin> set (nn_Name req)"
    and "concerns L r req s ev"
  shows "requestsOf deliver (setupUpgradeJob r) ev s = {req}"
proof (cases ev)
  case (BatchEvent j)
  with assms(4) job_events(4) [OF assms(1)] show ?thesis by (fastforce simp: hookJobOf_def)
qed (use assms(4) in \<open>auto simp: job_events [OF assms(1)] mapper_request [OF assms(2,3)]\<close>)

section \<open>The state of a run\<close>

text \<open>The job or one of its hook jobs moved; something moved.\<close>

definition waking :: "'z lib_scheme \<Rightarrow> NamespacedName \<Rightarrow> ujCall list \<Rightarrow> bool" where
  "waking L req h \<longleftrightarrow> statusMoved L req h \<or> hookJobRuns L req h"

definition stirred :: "'z lib_scheme \<Rightarrow> NamespacedName \<Rightarrow> ujCall list \<Rightarrow> bool" where
  "stirred L req h \<longleftrightarrow> (\<exists>k. awaits L req h k)"

text \<open>A run for a job that was read as \<open>uj0\<close>, not finished, and is now held as \<open>uj\<close>.\<close>

definition inRun :: "'z lib_scheme \<Rightarrow> NamespacedName \<Rightarrow> UpgradeJob \<Rightarrow> ujCall list \<Rightarrow> UpgradeJob \<Rightarrow> bool" where
  "inRun L req uj0 h uj \<longleftrightarrow> GetUpgradeJob req (Inr uj0) \<in> set h \<and> keyOf uj = req
     \<and> succeededCondition L uj0 = None \<and> failedCondition L uj0 = None
     \<and> (waking L req h \<or> sameStatus L uj0 uj
          \<and> (\<forall>t \<in> set (uj_HookJobTracker uj0). ht_Status t \<noteq> HookJobTrackerStatusActive))"

lemma statusMoved_mono [history_mono]: "statusMoved L req h \<Longrightarrow> statusMoved L req (h @ es)"
  unfolding statusMoved_def by auto

lemma hookJobRuns_mono [history_mono]: "hookJobRuns L req h \<Longrightarrow> hookJobRuns L req (h @ es)"
  unfolding hookJobRuns_def by fastforce

lemma waking_mono [history_mono]: "waking L req h \<Longrightarrow> waking L req (h @ es)"
  unfolding waking_def by (blast intro: history_mono)

lemma heldRead_mono [history_mono]: "heldRead req h cv \<Longrightarrow> heldRead req (h @ es) cv"
  unfolding heldRead_def by (blast intro: history_mono)

lemma inRun_mono [history_mono]: "inRun L req uj0 h uj \<Longrightarrow> inRun L req uj0 (h @ es) uj"
  unfolding inRun_def by (auto intro: waking_mono)

lemma waking_stirred: "waking L req h \<Longrightarrow> stirred L req h"
  unfolding waking_def stirred_def by (metis awaits.simps(1,2))

lemma waking_listed:
  "ListJobs (nn_Namespace req) ls (Inr items) \<in> set h \<Longrightarrow> ls hookJobTrackingLabelUpgradeJob = Some (nn_Name req)
    \<Longrightarrow> j \<in> set items \<Longrightarrow> \<not> isJobFinished j \<Longrightarrow> waking L req h"
  unfolding waking_def hookJobRuns_def by blast

lemma versionBusy_stirred: "versionBusy req h \<Longrightarrow> stirred L req h"
  unfolding stirred_def by (metis awaits.simps(3))

lemma poolsBusy_stirred: "poolsBusy req h \<Longrightarrow> stirred L req h"
  unfolding stirred_def by (metis awaits.simps(4))

lemma inRun_waking: "inRun L req uj0 h uj \<Longrightarrow> waking L req h \<Longrightarrow> keyOf uj' = req \<Longrightarrow> inRun L req uj0 h uj'"
  by (simp add: inRun_def)

text \<open>What a run knows of the job it holds unless something moved already.\<close>

lemma inRun_quiet:
  assumes "condition_laws L" and "inRun L req uj0 h uj" and "\<not> waking L req h"
  shows "ht_Status t = HookJobTrackerStatusActive \<Longrightarrow> t \<notin> set (uj_HookJobTracker uj)"
    and "condView L uj UpgradeJobConditionFailed \<noteq> Some (ConditionTrue, rsn, msg)"
    and "condView L uj UpgradeJobConditionSucceeded \<noteq> Some (ConditionTrue, rsn, msg)"
proof -
  have same: "sameStatus L uj0 uj" and *: "succeededCondition L uj0 = None" "failedCondition L uj0 = None"
    and quiet: "\<forall>t \<in> set (uj_HookJobTracker uj0). ht_Status t \<noteq> HookJobTrackerStatusActive"
    using assms by (auto simp: inRun_def)
  show "ht_Status t = HookJobTrackerStatusActive \<Longrightarrow> t \<notin> set (uj_HookJobTracker uj)"
    using same quiet by (auto simp: sameStatus_def)
  have "condView L uj = condView L uj0" using same by (simp add: sameStatus_def)
  with * show "condView L uj UpgradeJobConditionFailed \<noteq> Some (ConditionTrue, rsn, msg)"
    "condView L uj UpgradeJobConditionSucceeded \<noteq> Some (ConditionTrue, rsn, msg)"
    by (auto simp: condView_def succeededCondition_def failedCondition_def conditionTrue_def split: option.splits if_splits)
qed

text \<open>A condition that is not there yet, or has another status, is a change.\<close>

lemma condView_fresh:
  "FindStatusCondition L (uj_Conditions uj) t = None \<Longrightarrow> condView L uj t \<noteq> Some x"
  "FindStatusCondition L (uj_Conditions uj) t = Some c \<Longrightarrow> Status c \<noteq> st \<Longrightarrow> condView L uj t \<noteq> Some (st, rsn, msg)"
  by (simp_all add: condView_def)

lemma sent_condView:
  assumes "condition_laws L" and "statusWith L uj c sent"
  shows "condView L sent (Type c) = Some (Status c, Reason c, Message c)"
proof -
  from assms(2) obtain now where sent: "sent = uj\<lparr>uj_Conditions :=
      fst (SetStatusCondition L (uj_Conditions uj) (c\<lparr>LastTransitionTime := now\<rparr>))\<rparr>"
    by (auto simp: statusWith_def)
  from condition_laws.set_status [OF assms(1), of "uj_Conditions uj" "c\<lparr>LastTransitionTime := now\<rparr>"]
  show ?thesis by (auto simp: sent condView_def)
qed

text \<open>Storing a changed condition moves the status.\<close>

lemma stored_moves:
  assumes "condition_laws L" and "inRun L req uj0 h uj" and "statusWith L uj c sent"
    and "waking L req h \<or> condView L uj (Type c) \<noteq> Some (Status c, Reason c, Message c)"
    and "keyOf stored = req"
  shows "waking L req (h @ [x, StatusUpdateUpgradeJob sent (Inr stored)])"
proof (cases "waking L req h")
  case False
  then have "condView L uj0 = condView L uj" and get: "GetUpgradeJob req (Inr uj0) \<in> set h"
    using assms(2) by (auto simp: inRun_def sameStatus_def)
  then have "\<not> sameStatus L uj0 sent"
    using False assms(4) sent_condView [OF assms(1,3)] by (auto simp: sameStatus_def)
  with get assms(5) show ?thesis unfolding waking_def statusMoved_def by auto
qed (rule waking_mono)

section \<open>Hooks\<close>

abbreviation after :: "'e list \<Rightarrow> ('s, 'e, 'a) io \<Rightarrow> ('a \<Rightarrow> 'e list \<Rightarrow> bool) \<Rightarrow> bool" where
  "after h m R \<equiv> follows (\<lambda>_ _. True) h m R"

text \<open>What a part that tells whether to go on leaves, and one that returns the result of the run.\<close>

definition goesOn ::
  "'z lib_scheme \<Rightarrow> NamespacedName \<Rightarrow> UpgradeJob \<Rightarrow> UpgradeJob \<times> (error + bool) \<Rightarrow> ujCall list \<Rightarrow> bool"
where
  "goesOn L req uj0 x h \<longleftrightarrow> (\<forall>b. snd x = Inr b \<longrightarrow> inRun L req uj0 h (fst x) \<and> (b \<or> stirred L req h))"

definition leaves :: "'z lib_scheme \<Rightarrow> NamespacedName \<Rightarrow> error + Result \<Rightarrow> ujCall list \<Rightarrow> bool" where
  "leaves L req res h \<longleftrightarrow> (res = Inr noRequeue \<longrightarrow> stirred L req h)"

lemma goesOn_simps [simp]:
  "goesOn L req uj0 (uj, Inl e) h"
  "goesOn L req uj0 (uj, Inr b) h \<longleftrightarrow> inRun L req uj0 h uj \<and> (b \<or> stirred L req h)"
  by (auto simp: goesOn_def)

lemma leaves_simps [simp]:
  "leaves L req (Inl e) h" "leaves L req (Inr noRequeue) h \<longleftrightarrow> stirred L req h"
  by (auto simp: leaves_def)

lemma after_claimHooks: "after h (claimHooks L r uj event cutoffTime items hooks) (\<lambda>_ _. True)"
  by (induction items arbitrary: h hooks) (auto intro!: emits_rules split: sum.split prod.split)

lemma after_removeFinalizers: "after h (removeFinalizers L r P js errs) (\<lambda>_ _. True)"
  by (induction js arbitrary: h errs) (auto intro!: emits_rules split: prod.split)

lemma set_findTracked: "set (findTrackedHookJob hookName event key uj) \<subseteq> set (uj_HookJobTracker uj)"
proof -
  have "set (findTracked hookName event key hs) \<subseteq> set hs" for hs by (induction hs) auto
  then show ?thesis by (simp add: findTrackedHookJob_def)
qed

lemma hookStatus_active: "fst (hookStatusFromJob j) = HookJobTrackerStatusActive \<longleftrightarrow> \<not> isJobFinished j"
  by (auto simp: hookStatusFromJob_def split: option.splits)

lemma tracker_active:
  "ht_Status (trackerOfJob event key hookName j) = HookJobTrackerStatusActive \<longleftrightarrow> \<not> isJobFinished j"
  "ht_Status (trackJob j) = HookJobTrackerStatusActive \<longleftrightarrow> \<not> isJobFinished j"
  using hookStatus_active [of j] by (auto simp: trackerOfJob_def trackJob_def split: prod.splits)

lemma jobLabels_job: "jobLabels job hookName event key hookJobTrackingLabelUpgradeJob = Some job"
  by (simp add: jobLabels_def)

context reconcile_api
begin

lemma after_set:
  assumes "inRun L req uj0 h uj"
    and "waking L req h \<or> condView L uj (Type c) \<noteq> Some (Status c, Reason c, Message c)"
  shows "after h (setConditionAndUpdate L r uj c)
    (\<lambda>(uj', err) h'. err = None \<longrightarrow> waking L req h' \<and> inRun L req uj0 h' uj')"
proof (rule follows_mono [OF follows_setConditionAndUpdate [where E = "\<lambda>_ _. True"]], goal_cases)
  case (4 x es)
  then obtain now sent res where *: "statusWith L uj c sent" "h @ es = h @ [Now now, StatusUpdateUpgradeJob sent res]"
    "x = (okOr sent res, errOf res)" "sameJob sent (okOr sent res)" by auto
  have key: "keyOf (okOr sent res) = req"
    using * assms(1) by (auto simp: inRun_def sameJob_def sameObject_def keyOf_def statusWith_def)
  show ?case
  proof (cases res)
    case (Inr stored)
    with * key have "waking L req (h @ [Now now, StatusUpdateUpgradeJob sent (Inr stored)])"
      by (intro stored_moves [OF condition_laws_axioms assms(1) *(1) assms(2)]) simp
    with * Inr key inRun_mono [OF assms(1)] show ?thesis by (auto intro: inRun_waking)
  qed (use * in auto)
qed simp_all

lemma after_set_return:
  assumes "inRun L req uj0 h uj"
    and "waking L req h \<or> condView L uj (Type c) \<noteq> Some (Status c, Reason c, Message c)"
    and "\<And>uj' h'. waking L req h' \<Longrightarrow> inRun L req uj0 h' uj' \<Longrightarrow> R (f uj' None) h'"
    and "\<And>uj' e h'. R (f uj' (Some e)) h'"
  shows "after h (do { (uj', err) \<leftarrow> setConditionAndUpdate L r uj c; ret (f uj' err) }) R"
  by (rule follows_bind [OF after_set [OF assms(1,2)]])
    (use assms(3,4) in \<open>auto intro!: follows_ret split: option.splits, metis not_Some_eq\<close>)

lemma after_createHookJob:
  assumes "keyOf uj = req"
  shows "after h (createHookJob L r hook uj event key info meta) (\<lambda>res h'. \<forall>j. res = Inr j \<longrightarrow> waking L req h')"
  unfolding createHookJob_def Let_def
proof (intro follows_case_sum follows_bind_call, goal_cases)
  case (4 normalized owners res)
  have "hookJobOf L req \<lparr>Kind = k, APIVersion = a, Name = n, Namespace = Namespace uj, UID = u, ResourceVersion = rv,
      Labels = l, Annotations = an, CreationTimestamp = t, DeletionTimestamp = d, DeletionGracePeriodSeconds = g,
      Finalizers = fs, OwnerReferences = owners, job_Spec = js, job_Conditions = jc\<rparr>" for k a n u rv l an t d g fs js jc
    using 4 assms by (auto simp: hookJobOf_def keyOf_iff)
  then show ?case
    by (intro follows_ret) (auto simp: waking_def hookJobRuns_def split: sum.splits)
qed (auto intro: follows_ret)

lemma after_jobForHook:
  assumes run: "inRun L req uj0 h uj"
  shows "after h (jobForUpgradeJobAndHook L r uj hook event key info meta)
    (\<lambda>res h'. \<forall>ts t. res = Inr ts \<longrightarrow> t \<in> set ts \<longrightarrow> ht_Status t = HookJobTrackerStatusActive \<longrightarrow> waking L req h')"
  unfolding jobForUpgradeJobAndHook_def Let_def
proof (intro follows_bind_call follows_case_sum follows_if, goal_cases)
  case (3 jobs items)
  let ?h = "h @ [ListJobs (Namespace uj) (jobLabels (Name uj) (Name hook) event key) jobs]"
  have key: "Namespace uj = nn_Namespace req" "Name uj = nn_Name req" using run by (simp_all add: inRun_def keyOf_iff)
  have "waking L req ?h" if "t \<in> set (findTrackedHookJob (Name hook) (eventString event) key uj)"
      "ht_Status t = HookJobTrackerStatusActive" for t
    using that set_findTracked inRun_quiet(1) [OF condition_laws_axioms run] waking_mono by blast
  moreover have "waking L req ?h" if "j \<in> set items" "\<not> isJobFinished j" for j
    by (rule waking_listed [where ls = "jobLabels (Name uj) (Name hook) event key", OF _ _ that])
      (use 3 key in \<open>auto simp: jobLabels_job\<close>)
  ultimately show ?case by (intro follows_ret) (auto simp: tracker_active)
next
  case (4 jobs items)
  show ?case
    by (rule follows_bind [OF after_createHookJob])
      (use run in \<open>auto simp: inRun_def intro!: follows_ret split: sum.splits\<close>)
qed (auto intro: follows_ret)

lemma after_runHooks:
  assumes "inRun L req uj0 h uj" and "activeJobs a \<noteq> [] \<longrightarrow> waking L req h"
  shows "after h (runHooks L r uj event key info meta hooks a)
    (\<lambda>a' h'. inRun L req uj0 h' uj \<and> (activeJobs a' \<noteq> [] \<longrightarrow> waking L req h'))"
  using assms
proof (induction hooks arbitrary: h a)
  case (Cons hook hooks)
  show ?case unfolding runHooks.simps
  proof (rule follows_bind [OF after_jobForHook [OF Cons.prems(1)]], goal_cases)
    case (1 res es)
    have "activeJobs (case res of Inl e \<Rightarrow> a\<lparr>hookErrors := hookErrors a @ [e]\<rparr> | Inr jobs \<Rightarrow> classifyJobs hook jobs a) \<noteq> []
        \<longrightarrow> waking L req (h @ es)"
      using 1 Cons.prems(2) waking_mono [of L req h es]
      by (auto simp: classifyJobs_simps filter_empty_conv split: sum.splits)
    from Cons.IH [OF inRun_mono [OF Cons.prems(1)] this] show ?case .
  qed
qed (auto intro: follows_ret)

lemma after_hookVerdict:
  assumes run: "inRun L req uj0 h uj" and act: "activeJobs a \<noteq> [] \<longrightarrow> waking L req h"
  shows "after h (hookVerdict L r uj event a) (goesOn L req uj0)"
  unfolding hookVerdict_def Let_def
  by (intro follows_case_option follows_if after_set_return follows_ret; (rule run)?)
    (use run act inRun_quiet(2,3) [OF condition_laws_axioms run] in \<open>auto intro: waking_stirred\<close>)

lemma after_executeHooks:
  assumes run: "inRun L req uj0 h uj"
  shows "after h (executeHooks L r uj event key info cutoffTime) (goesOn L req uj0)"
  unfolding executeHooks_def
proof (intro follows_bind_call follows_case_sum follows_bind [OF after_claimHooks], goal_cases)
  case (4 res items claimed es hooks)
  have "inRun L req uj0 ((h @ [ListHooks (Namespace uj) res]) @ es) uj" using run by (intro inRun_mono)
  then show ?case
    by (rule follows_bind [OF after_runHooks])
      (auto simp: emptyOutcome_def simp del: append_assoc intro: after_hookVerdict)
qed (auto intro: follows_ret)

end

section \<open>Health checks and pools\<close>

lemma heldRead_busy:
  "heldRead req h cv \<Longrightarrow> IsOperatorDegraded cv \<Longrightarrow> stirred L req h"
  "heldRead req h cv \<Longrightarrow> \<not> IsVersionUpgradeCompleted cv \<Longrightarrow> stirred L req h"
  by (auto simp: versionBusy_def intro!: versionBusy_stirred)

context reconcile_api
begin

lemma after_runHealthCheck:
  assumes run: "inRun L req uj0 h uj" and cv: "heldRead req h cv"
  shows "after h (runHealthCheck L r uj cv hc ty rsn) (goesOn L req uj0)"
proof -
  note quiet = inRun_quiet(2) [OF condition_laws_axioms run]
  show ?thesis unfolding runHealthCheck_def Let_def
  proof (intro follows_case_option follows_if follows_bind_call, goal_cases)
    case 1
    then show ?case by (intro after_set_return [OF run]) (auto simp: condView_fresh intro: waking_stirred)
  next
    case (4 c now)
    have "waking L req (h @ [Now now]) \<or> condView L uj UpgradeJobConditionFailed \<noteq> Some (ConditionTrue, rsn', m)" for rsn' m
      using quiet waking_mono by blast
    then show ?case by (intro after_set_return [OF inRun_mono [OF run]]) (auto intro: waking_stirred)
  next
    case (5 c now)
    then show ?case using heldRead_busy(1) [OF heldRead_mono [OF cv]] inRun_mono [OF run]
      by (auto intro!: follows_ret)
  next
    case (6 c)
    then show ?case by (intro after_set_return [OF run]) (auto dest: condView_fresh(2) intro: waking_stirred)
  qed (auto intro: follows_ret simp: run)
qed

end

text \<open>The loops over the pools end early only with an error or because of a hook.\<close>

definition poolLoop ::
  "'z lib_scheme \<Rightarrow> NamespacedName \<Rightarrow> UpgradeJob \<Rightarrow> UpgradeJob \<times> ((error + bool) + bool \<times> bool) \<Rightarrow> ujCall list \<Rightarrow> bool"
where
  "poolLoop L req uj0 x h \<longleftrightarrow> (case snd x of
     Inl early \<Rightarrow> goesOn L req uj0 (fst x, early) h
   | Inr _ \<Rightarrow> inRun L req uj0 h (fst x))"

lemma poolLoop_simps [simp]:
  "poolLoop L req uj0 (uj, Inl early) h = goesOn L req uj0 (uj, early) h"
  "poolLoop L req uj0 (uj, Inr a) h = inRun L req uj0 h uj"
  by (simp_all add: poolLoop_def)

text \<open>The flag of \<^verbatim>\<open>SetStatusCondition\<close> tells whether the status moves.\<close>

lemma set_changed_view:
  assumes "condition_laws L" and "SetStatusCondition L (uj_Conditions uj) (c\<lparr>LastTransitionTime := now\<rparr>) = (cs, changed)"
  shows "changed \<Longrightarrow> condView L uj (Type c) \<noteq> Some (Status c, Reason c, Message c)"
    and "\<not> changed \<Longrightarrow> sameStatus L uj (uj\<lparr>uj_Conditions := cs\<rparr>)"
proof -
  let ?c = "c\<lparr>LastTransitionTime := now\<rparr>"
  have chg: "changed = conditionChanged (FindStatusCondition L (uj_Conditions uj) (Type c)) ?c"
    using condition_laws.set_changed [OF assms(1), of "uj_Conditions uj" ?c] assms(2) by simp
  then show "changed \<Longrightarrow> condView L uj (Type c) \<noteq> Some (Status c, Reason c, Message c)"
    by (auto simp: condView_def conditionChanged_def split: option.splits)
  assume "\<not> changed"
  with chg have here: "condView L uj (Type c) = Some (Status c, Reason c, Message c)"
    by (auto simp: condView_def conditionChanged_def split: option.splits)
  have "condView L (uj\<lparr>uj_Conditions := cs\<rparr>) t = condView L uj t" for t
    using condition_laws.set_status [OF assms(1), of "uj_Conditions uj" ?c] here
      condition_laws.set_other [OF assms(1), of t ?c "uj_Conditions uj"] assms(2)
    by (cases "t = Type c") (auto simp: condView_def)
  then show "sameStatus L uj (uj\<lparr>uj_Conditions := cs\<rparr>)" by (auto simp: sameStatus_def)
qed

lemma inRun_same: "inRun L req uj0 h uj \<Longrightarrow> sameStatus L uj uj' \<Longrightarrow> keyOf uj' = keyOf uj \<Longrightarrow> inRun L req uj0 h uj'"
  by (auto simp: inRun_def sameStatus_def)

context reconcile_api
begin

text \<open>The code's third form: a condition is set and the status is updated if that changed it.\<close>

lemma after_set_changed:
  assumes run: "inRun L req uj0 h uj"
    and upd: "\<And>now sent stored. waking L req (h @ [Now now, StatusUpdateUpgradeJob sent (Inr stored)])
      \<Longrightarrow> inRun L req uj0 (h @ [Now now, StatusUpdateUpgradeJob sent (Inr stored)]) stored
      \<Longrightarrow> R (g sent (Inr stored)) (h @ [Now now, StatusUpdateUpgradeJob sent (Inr stored)])"
    and err: "\<And>sent e h'. R (g sent (Inl e)) h'"
    and rest: "\<And>now uj'. inRun L req uj0 (h @ [Now now]) uj' \<Longrightarrow> after (h @ [Now now]) (k uj') R"
  shows "after h (do {
      (cs, changed) \<leftarrow> setStatusCondition L r (uj_Conditions uj) c;
      let uj' = uj\<lparr>uj_Conditions := cs\<rparr>;
      if changed then do { res \<leftarrow> statusUpdateUpgradeJob r uj'; ret (g uj' res) } else k uj' }) R"
proof (rule follows_setStatusCondition, goal_cases)
  case (2 now cs changed)
  note view = set_changed_view [OF condition_laws_axioms 2(1)]
  let ?uj = "uj\<lparr>uj_Conditions := cs\<rparr>"
  have key: "keyOf ?uj = keyOf uj" by (simp add: keyOf_def)
  show ?case unfolding prod.case Let_def
  proof (intro follows_if follows_bind_call follows_ret, goal_cases)
    case (2 res)
    show ?case
    proof (cases res)
      case (Inr stored)
      with 2 have "sameJob ?uj stored" using update_job by blast
      then have "keyOf stored = req" using key run by (simp add: sameJob_def sameObject_def keyOf_def inRun_def)
      moreover from stored_moves [OF condition_laws_axioms run \<open>statusWith L uj c ?uj\<close> _ this] view(1) 2
      have "waking L req (h @ [Now now, StatusUpdateUpgradeJob ?uj (Inr stored)])" by blast
      ultimately show ?thesis using upd inRun_waking [OF inRun_mono [OF run]] Inr by simp
    qed (simp add: err)
  next
    case 3
    show ?case using inRun_mono [OF inRun_same [OF run view(2) key]] 3 by (intro rest) simp
  qed simp
qed simp

lemma after_pausePools:
  assumes "inRun L req uj0 h uj"
  shows "after h (pausePools L r pool d b mcps uj acc) (poolLoop L req uj0)"
  using assms
proof (induction mcps arbitrary: h uj acc)
  case Nil
  then show ?case by (cases acc) (auto intro: follows_ret)
next
  case (Cons mcp mcps)
  note run = Cons.prems
  obtain m p where acc: "acc = (m, p)" by fastforce
  have hooks: "after h (if Paused mcp then executeHooks L r uj EventMachineConfigPoolUnpause (Name mcp) info zeroTime
      else ret (uj, Inr True)) (goesOn L req uj0)" for info
    by (intro follows_if after_executeHooks follows_ret run) (simp add: run)
  show ?case unfolding acc pausePools.simps Let_def
  proof (intro follows_if, goal_cases)
    case 1
    show ?case using inRun_quiet(2) [OF condition_laws_axioms run]
      by (intro after_set_return [OF run]) (auto simp: combine_none split: option.split)
  next
    case 2
    show ?case
    proof (rule follows_bind [OF hooks], intro follows_case_prod follows_case_sum follows_if follows_bind_call, goal_cases)
      case (5 x es uj' fin cont res u)
      then have "inRun L req uj0 (h @ es) uj'" by auto
      from Cons.IH [OF inRun_mono [OF this]] show ?case .
    qed (auto intro: follows_ret)
  next
    case 3
    show ?case by (rule Cons.IH [OF run])
  qed
qed

lemma after_pausePoolSpecs:
  assumes "inRun L req uj0 h uj"
  shows "after h (pausePoolSpecs L r pools uj acc) (poolLoop L req uj0)"
  using assms
proof (induction pools arbitrary: h uj acc)
  case (Cons pool pools)
  show ?case unfolding pausePoolSpecs.simps timeSinceStartAfter_def State_Monad.bind_assoc
    State_Monad.bind_left_identity Let_def
  proof (intro follows_if follows_bind_call follows_case_sum, goal_cases)
    case (6 now sel mcpl mcps)
    let ?h = "(h @ [Now now]) @ [ListPools (Some sel) mcpl]"
    have run: "inRun L req uj0 ?h uj" using Cons.prems by (intro inRun_mono)
    show ?case
    proof (rule follows_bind [OF after_pausePools [OF run]], intro follows_case_prod follows_case_sum, goal_cases)
      case (1 x es uj' out early)
      then show ?case by (intro follows_ret) simp
    next
      case (2 x es uj' out acc')
      then show ?case by (intro Cons.IH) simp
    qed
  qed (auto intro: follows_ret Cons.IH Cons.prems)
qed (auto intro: follows_ret)

lemma after_pauseUnpause:
  assumes "inRun L req uj0 h uj"
  shows "after h (pauseUnpauseMachineConfigPools L r uj) (goesOn L req uj0)"
  unfolding pauseUnpauseMachineConfigPools_def
proof (rule follows_bind [OF after_pausePoolSpecs [OF assms]], intro follows_case_prod follows_case_sum, goal_cases)
  case (2 x es uj' out acc m p)
  then have "inRun L req uj0 (h @ es) uj'" by simp
  then show ?case by (intro after_set_changed) (auto intro: follows_ret)
qed (auto intro: follows_ret)

end

section \<open>The upgrade\<close>

lemma poolsBusy_found:
  assumes "heldRead req h cv" and "ListPools None (Inr mcps) \<in> set h"
    and "filterPaused (MachineConfigPoolsUpdating mcps) = (paused, updating)" and "updating \<noteq> []"
  shows "stirred L req h"
proof -
  from assms(3,4) obtain p where "p \<in> set mcps" "\<not> Paused p" "MachineCount p \<noteq> UpdatedMachineCount p"
    by (auto simp: filterPaused_eq MachineConfigPoolsUpdating_eq filter_empty_conv)
  with assms(1,2) show ?thesis unfolding poolsBusy_def by (intro poolsBusy_stirred) (auto simp: poolsBusy_def)
qed

context reconcile_api
begin

lemma after_settlePools:
  assumes run: "inRun L req uj0 h uj" and cv: "heldRead req h cv"
  shows "after h (settlePools L r uj) (leaves L req)"
  unfolding settlePools_def Let_def
proof (intro follows_bind_call follows_case_sum follows_case_prod, goal_cases)
  case (3 mcpl mcps paused updating)
  let ?h = "h @ [ListPools None mcpl]"
  have run': "inRun L req uj0 ?h uj" and cv': "heldRead req ?h cv"
    using run cv by (auto intro: history_mono)
  show ?case
  proof (rule after_set_changed [OF run', unfolded Let_def], goal_cases)
    case (3 now uj')
    let ?h = "?h @ [Now now]"
    show ?case
    proof (intro follows_if, goal_cases)
      case 1
      show ?case by (rule follows_bind [OF nextTimedReconcile_follows]) (auto intro!: follows_ret simp: leaves_def)
    next
      case 2
      then have "stirred L req ?h"
        using \<open>filterPaused (MachineConfigPoolsUpdating mcps) = (paused, updating)\<close> \<open>mcpl = Inr mcps\<close>
        by (intro poolsBusy_found [OF heldRead_mono [OF cv'], of mcps]) auto
      then show ?case by (intro follows_ret) simp
    next
      case 3
      show ?case using inRun_quiet(3) [OF condition_laws_axioms \<open>inRun L req uj0 ?h uj'\<close>]
        by (intro after_set_return [OF \<open>inRun L req uj0 ?h uj'\<close>]) (auto intro: waking_stirred)
    qed
  qed (auto intro: waking_stirred)
qed (auto intro: follows_ret)

lemma after_finishStartedJob:
  assumes run: "inRun L req uj0 h uj" and cv: "heldRead req h cv"
  shows "after h (finishStartedJob L r uj cv) (leaves L req)"
  unfolding finishStartedJob_def
proof (rule follows_bind [OF after_runHealthCheck [OF run cv]], intro follows_case_prod follows_case_sum follows_if, goal_cases)
  case (3 x es uj1 ok b)
  then have "inRun L req uj0 (h @ es) uj1" by auto
  then show ?case
  proof (rule follows_bind [OF after_executeHooks], intro follows_case_prod follows_case_sum follows_if, goal_cases)
    case (3 y es' uj2 cont c)
    then show ?case by (intro after_settlePools [OF _ heldRead_mono [OF heldRead_mono [OF cv]]]) auto
  qed (auto intro: follows_ret)
qed (auto intro: follows_ret)

lemma after_driveUpgrade:
  assumes run: "inRun L req uj0 h uj" and cv: "heldRead req h cv"
  shows "after h (driveUpgrade L r uj cv dv) (leaves L req)"
  unfolding driveUpgrade_def
proof (intro follows_if follows_case_option, goal_cases)
  case 1
  show ?case using inRun_quiet(2) [OF condition_laws_axioms run]
    by (intro after_set_return [OF run]) (auto intro: waking_stirred)
next
  case 2
  show ?case
  proof (intro follows_bind_call follows_ret, goal_cases)
    case (2 res)
    let ?h = "h @ [UpdateClusterVersion (cv\<lparr>cv_Spec := (cv_Spec cv)\<lparr>DesiredUpdate := Some dv\<rparr>\<rparr>) res]"
    have "versionBusy req ?h" if "res = Inr stored" for stored
      unfolding versionBusy_def using that heldRead_mono [OF cv] cv \<open>DesiredUpdate (cv_Spec cv) = None \<or> _\<close>
      by (intro disjI2 exI [of _ cv] exI [of _ dv] exI [of _ stored]
          exI [of _ "cv\<lparr>cv_Spec := (cv_Spec cv)\<lparr>DesiredUpdate := Some dv\<rparr>\<rparr>"])
        (auto simp: setsDesired_def heldRead_def)
    then show ?case by (cases res) (auto intro: versionBusy_stirred)
  qed simp
next
  case 3
  then show ?case by (intro after_set_return [OF run]) (auto simp: condView_fresh intro: waking_stirred)
next
  case (4 c)
  then show ?case using heldRead_busy(2) [OF cv] by (intro follows_ret) simp
next
  case (5 c)
  show ?case
  proof (intro follows_bind_call follows_case_sum follows_case_prod follows_if, goal_cases)
    case (3 mcpl mcps paused updating)
    then show ?case by (intro follows_ret) (auto intro: poolsBusy_found [OF heldRead_mono [OF cv]])
  next
    case (4 mcpl mcps paused updating)
    show ?case using 5 inRun_mono [OF run]
      by (intro after_set_return [OF inRun_mono [OF run]]) (auto dest: condView_fresh(2) intro: waking_stirred)
  qed (auto intro: follows_ret)
next
  case (6 c)
  show ?case by (rule after_finishStartedJob [OF run cv])
qed

lemma after_upgradeLocked:
  assumes run: "inRun L req uj0 h uj" and cv: "heldRead req h cv"
  shows "after h (upgradeLocked L r uj cv) (leaves L req)"
  unfolding upgradeLocked_def
proof (rule follows_bind [OF after_pauseUnpause [OF run]], intro follows_case_prod follows_case_sum follows_if, goal_cases)
  case (3 x es uj1 cont b)
  then have "inRun L req uj0 (h @ es) uj1" by auto
  then show ?case
  proof (rule follows_bind [OF after_runHealthCheck [OF _ heldRead_mono [OF cv]]],
      intro follows_case_prod follows_case_sum follows_if follows_case_option, goal_cases)
    case (3 y es' uj2 ok c)
    then show ?case by (intro after_finishStartedJob [OF _ heldRead_mono [OF heldRead_mono [OF cv]]]) auto
  next
    case (4 y es' uj2 ok c dv)
    then show ?case by (intro after_driveUpgrade [OF _ heldRead_mono [OF heldRead_mono [OF cv]]]) auto
  qed (auto intro: follows_ret)
qed (auto intro: follows_ret)

lemma after_tryLock:
  assumes "cvRead h cv" and "keyOf uj = req"
  shows "after h (tryLockClusterVersion r cv (lockVal uj)) (\<lambda>res h'. \<forall>cv'. res = Inr cv' \<longrightarrow> heldRead req h' cv')"
proof -
  have lv: "lockVal uj = lockOf req" using assms(2) by (auto simp: lockVal_def lockOf_def keyOf_def)
  show ?thesis unfolding tryLockClusterVersion_def lv
  proof (intro follows_case_option follows_if follows_bind_call follows_ret, goal_cases)
    case (2 res)
    then show ?case by (auto simp: heldRead_def cvRead_def lockHeld_def split: sum.splits dest: update_version)
  qed (use assms in \<open>auto simp: heldRead_def lockHeld_def\<close>)
qed

lemma after_reconcileStartedJob:
  assumes run: "inRun L req uj0 h uj"
  shows "after h (reconcileStartedJob L r uj) (leaves L req)"
  unfolding reconcileStartedJob_def timeSinceStartAfter_def State_Monad.bind_assoc State_Monad.bind_left_identity
proof (intro follows_bind_call follows_if, goal_cases)
  case (2 now)
  show ?case using inRun_quiet(2) [OF condition_laws_axioms inRun_mono [OF run]]
    by (intro after_set_return [OF inRun_mono [OF run]]) (auto intro: waking_stirred)
next
  case (3 now)
  show ?case
  proof (rule follows_bind [OF after_executeHooks [OF inRun_mono [OF run]]],
      intro follows_case_prod follows_case_sum follows_if follows_bind_call, goal_cases)
    case (5 x es uj1 cont b got cv)
    then have run1: "inRun L req uj0 ((h @ [Now now]) @ es) uj1" by auto
    let ?h = "((h @ [Now now]) @ es) @ [GetClusterVersion (ManagedUpstreamClusterVersionName r) got]"
    have cv: "cvRead ?h cv" using 5 by (auto simp: cvRead_def)
    have key: "keyOf uj1 = req" using run1 by (simp add: inRun_def)
    show ?case
    proof (rule follows_bind [OF after_tryLock [OF cv key]], intro follows_case_sum, goal_cases)
      case (2 res es' cv')
      then show ?case by (intro after_upgradeLocked [OF inRun_mono [OF inRun_mono [OF run1]]]) auto
    qed (auto intro: follows_ret)
  qed (auto intro: follows_ret)
qed simp

lemma after_checkAndMarkSkipped:
  assumes run: "inRun L req uj0 h uj"
  shows "after h (checkAndMarkSkipped L r uj now) (\<lambda>res h'. res = Inr True \<longrightarrow> stirred L req h')"
  unfolding checkAndMarkSkipped_def matchingUpgradeSuspensionWindow_def State_Monad.bind_assoc
    State_Monad.bind_left_identity
proof (intro follows_bind_call follows_case_sum follows_case_option, goal_cases)
  case (4 listed found w)
  show ?case using inRun_quiet(3) [OF condition_laws_axioms inRun_mono [OF run]]
    by (intro after_set_return [OF inRun_mono [OF run]]) (auto intro: waking_stirred)
qed (auto intro: follows_ret)

lemma after_reconcilePending:
  assumes run: "inRun L req uj0 h uj"
    and "\<not> IsStatusConditionTrue L (uj_Conditions uj) UpgradeJobConditionStarted"
  shows "after h (reconcilePending L r uj) (leaves L req)"
proof -
  have started: "condView L uj UpgradeJobConditionStarted \<noteq> Some (ConditionTrue, rsn, m)" for rsn m
    using assms(2) by (auto simp: is_true condView_def)
  have run': "inRun L req uj0 ((h @ es) @ es') uj" for es es' by (intro inRun_mono run)
  show ?thesis unfolding reconcilePending_def
  proof (intro follows_bind_call follows_if, goal_cases)
    case (2 now)
    show ?case
    proof (rule follows_bind [OF after_checkAndMarkSkipped [OF inRun_mono [OF run]]],
        intro follows_case_sum follows_if, goal_cases)
      case (3 x es b)
      show ?case using inRun_quiet(2) [OF condition_laws_axioms run' [of "[Now now]" es]]
        by (intro after_set_return [OF run']) (auto intro: waking_stirred)
    qed (auto intro: follows_ret)
  next
    case (3 now)
    show ?case
    proof (rule follows_bind [OF after_checkAndMarkSkipped [OF inRun_mono [OF run]]],
        intro follows_case_sum follows_if, goal_cases)
      case (3 x es b)
      show ?case by (intro after_set_return [OF run']) (auto simp: started intro: waking_stirred)
    qed (auto intro: follows_ret)
  next
    case (4 now)
    show ?case by (intro follows_ret) (simp add: leaves_def noRequeue_def)
  qed simp
qed

end

section \<open>The whole run\<close>

lemma stirred_mono [history_mono]: "stirred L req h \<Longrightarrow> stirred L req (h @ es)"
proof -
  assume "stirred L req h"
  then obtain k where k: "awaits L req h k" by (auto simp: stirred_def)
  have "awaits L req (h @ es) k"
    using k heldRead_mono by (cases k) (fastforce intro: history_mono simp: versionBusy_def poolsBusy_def)+
  then show ?thesis by (auto simp: stirred_def)
qed

text \<open>\<open>trackHookJobs\<close> leaves no active tracker in a status it read, unless something moves.\<close>

definition tracked :: "'z lib_scheme \<Rightarrow> NamespacedName \<Rightarrow> error option \<Rightarrow> ujCall list \<Rightarrow> bool" where
  "tracked L req res h \<longleftrightarrow> (res = None \<longrightarrow> (\<exists>got. GetUpgradeJob req got \<in> set h \<and> (\<forall>uj. got = Inr uj \<longrightarrow>
     waking L req h \<or> (\<forall>t \<in> set (uj_HookJobTracker uj). ht_Status t \<noteq> HookJobTrackerStatusActive))))"

lemma tracked_mono: "tracked L req res h \<Longrightarrow> tracked L req res (h @ es)"
  unfolding tracked_def by (auto intro: waking_mono)

lemma tracked_Some [simp]: "tracked L req (Some e) h"
  by (simp add: tracked_def)

lemma jobOver_mono [history_mono]: "jobOver L req h \<Longrightarrow> jobOver L req (h @ es)"
  unfolding jobOver_def by (auto intro: history_mono)

lemma after_over: "follows E h m R \<Longrightarrow> jobOver L req h \<Longrightarrow> after h m (\<lambda>_ h'. jobOver L req h')"
  by (erule follows_mono) (auto intro: jobOver_mono)

context reconcile_api
begin

lemma after_combine:
  assumes "tracked L req None h"
  shows "after h (do { errs \<leftarrow> removeFinalizers L r P items []; ret (Combine L errs) }) (tracked L req)"
proof (rule follows_bind [OF follows_mono [OF after_removeFinalizers, where R' = "\<lambda>_ h'. tracked L req None h'"]], goal_cases)
  case (3 errs es)
  then show ?case by (cases "Combine L errs") (auto intro: follows_ret)
qed (auto intro: tracked_mono [OF assms])

lemma after_trackHookJobs: "after h (trackHookJobs L r req) (tracked L req)"
  unfolding trackHookJobs_def cleanupHookJobTrackingFinalizers_def
proof (intro follows_bind_call follows_case_sum follows_if, goal_cases)
  case (4 got e jl items)
  then show ?case by (intro after_combine) (auto simp: tracked_def)
next
  case (8 got uj jl items)
  let ?h = "(h @ [GetUpgradeJob req got]) @ [ListJobs (Namespace uj) [hookJobTrackingLabelUpgradeJob \<mapsto> Name uj] jl]"
  have get: "GetUpgradeJob req (Inr uj) \<in> set ?h" using 8 by simp
  have key: "Namespace uj = nn_Namespace req" "Name uj = nn_Name req"
    using get_job 8 by auto
  have listed: "waking L req (?h @ es)" if "j \<in> set items" "\<not> isJobFinished j" for j es
    by (rule waking_mono [OF waking_listed [where ls = "[hookJobTrackingLabelUpgradeJob \<mapsto> Name uj]", OF _ _ that]])
      (use 8 key in auto)
  let ?cur = "addCompleted (uj_HookJobTracker uj) (setNew (map trackJob items))"
  show ?case unfolding Let_def
  proof (intro follows_if follows_bind_call follows_case_sum, goal_cases)
    case (3 res stored)
    let ?sent = "uj\<lparr>uj_HookJobTracker := SortTrackers L compareTrackers (UnsortedTrackers L ?cur)\<rparr>"
    have "set (uj_HookJobTracker ?sent) \<noteq> set (uj_HookJobTracker uj)"
      using 3 set_sorted_trackers by (auto simp: setEqual_def)
    then have "\<not> sameStatus L uj ?sent" by (auto simp: sameStatus_def)
    moreover have "keyOf stored = req" using 3 update_job key by (auto simp: sameJob_def sameObject_def keyOf_iff)
    ultimately have "waking L req (?h @ [StatusUpdateUpgradeJob ?sent res])"
      using 3 get unfolding waking_def statusMoved_def by auto
    then show ?case using get by (intro after_combine) (auto simp: tracked_def)
  next
    case 4
    then have "set (uj_HookJobTracker uj) = set ?cur" by (simp add: setEqual_def)
    then have "\<exists>j \<in> set items. \<not> isJobFinished j"
      if "t \<in> set (uj_HookJobTracker uj)" "ht_Status t = HookJobTrackerStatusActive" for t
    proof -
      from that 4 have "t \<in> trackJob ` set items" by (auto simp: set_addCompleted setEqual_def)
      with that(2) show ?thesis by (auto simp: tracker_active)
    qed
    then have "tracked L req None ?h" using get listed [of _ "[]"] unfolding tracked_def by force
    then show ?case by (rule after_combine)
  qed (auto intro: follows_ret)
qed (auto intro: follows_ret)

lemma after_reconcileJob:
  assumes read: "GetUpgradeJob req (Inr uj) \<in> set h" and key: "keyOf uj = req"
    and quiet: "waking L req h \<or> (\<forall>t \<in> set (uj_HookJobTracker uj). ht_Status t \<noteq> HookJobTrackerStatusActive)"
  shows "after h (reconcileJob L r uj) (\<lambda>res h'. leaves L req res h' \<or> jobOver L req h')"
  unfolding reconcileJob_def succeededCondition_def [symmetric] failedCondition_def [symmetric]
proof (intro follows_case_option, goal_cases)
  case 1
  then have run: "inRun L req uj h uj" using read key quiet by (auto simp: inRun_def sameStatus_def)
  have "after h (do {
      (uj, cont) \<leftarrow> executeHooks L r uj EventCreate noTrackingKey (eventInfoWithReason '''') zeroTime;
      case cont of Inl e \<Rightarrow> ret (Inl e)
      | Inr cont \<Rightarrow> if \<not> cont then ret (Inr noRequeue)
          else if IsStatusConditionTrue L (uj_Conditions uj) UpgradeJobConditionStarted
          then reconcileStartedJob L r uj else reconcilePending L r uj }) (leaves L req)"
    by (rule follows_bind [OF after_executeHooks [OF run]], intro follows_case_prod follows_case_sum follows_if)
      (auto intro: follows_ret after_reconcileStartedJob after_reconcilePending)
  then show ?case by (rule follows_mono) auto
next
  case (2 fc)
  then have "jobOver L req h" using read by (auto simp: jobOver_def)
  moreover have "jobFinished L uj" using 2(2) by (rule conditionTrue_finished(2))
  ultimately show ?case
    by (intro follows_mono [OF after_over [OF reconcileFailed_follows [OF combine_laws_axioms]]]) auto
next
  case (3 sc)
  then have "jobOver L req h" using read by (auto simp: jobOver_def)
  moreover have "jobFinished L uj" using 3 by (rule conditionTrue_finished(1))
  ultimately show ?case
    by (intro follows_mono [OF after_over [OF reconcileSucceeded_follows [OF combine_laws_axioms]]]) auto
qed

lemma after_Reconcile: "after h (Reconcile L r req) (\<lambda>res h'. leaves L req res h' \<or> jobOver L req h')"
  unfolding Reconcile_def
proof (rule follows_bind [OF after_trackHookJobs], intro follows_case_option follows_bind_call follows_case_sum follows_if, goal_cases)
  case (2 tr es got e)
  then show ?case
    by (intro follows_ret) (auto simp: leaves_def jobOver_def jobGone_def IgnoreNotFound_def split: if_splits)
next
  case (3 tr es got uj)
  then show ?case by (intro follows_ret) (auto simp: jobOver_def)
next
  case (4 tr es got uj)
  let ?h = "(h @ es) @ [GetUpgradeJob req got]"
  have read: "GetUpgradeJob req (Inr uj) \<in> set ?h" using 4 by simp
  have "tracked L req None ?h" using 4 tracked_mono by blast
  then obtain got' where "GetUpgradeJob req got' \<in> set ?h" and got': "\<forall>uj. got' = Inr uj \<longrightarrow> waking L req ?h
      \<or> (\<forall>t \<in> set (uj_HookJobTracker uj). ht_Status t \<noteq> HookJobTrackerStatusActive)"
    by (auto simp: tracked_def)
  moreover from this(1) read have "waking L req ?h" if "got' \<noteq> Inr uj"
    using that unfolding waking_def statusMoved_def by blast
  ultimately have "waking L req ?h \<or> (\<forall>t \<in> set (uj_HookJobTracker uj). ht_Status t \<noteq> HookJobTrackerStatusActive)"
    by blast
  moreover have "keyOf uj = req" using get_job 4 by (auto simp: keyOf_iff)
  ultimately show ?case by (intro after_reconcileJob read)
qed (auto intro: follows_ret)

end

text \<open>C7: No wake-up of an upgrade job is lost. When a run of \<open>Reconcile\<close> returns without an error and without
  asking for another run, the job is gone, being deleted or finished, or the calls of the run show what
  happens next: its own status moved, one of its hook jobs is under way, the cluster version it holds the lock of
  is busy, or a pool is. The controller watches the objects of that kind, and every event of them that concerns
  the job leads to a request for this job and no other.\<close>

theorem no_lost_wakeup:
  assumes "reconcile_api r L" and "event_delivery L deliver"
    and "CHR ''/'' \<notin> set (nn_Namespace req)" and "CHR ''/'' \<notin> set (nn_Name req)"
    and "resultOf (Reconcile L r req) s = Inr noRequeue"
  shows "jobOver L req (callsOf (Reconcile L r req) s)
    \<or> (\<exists>k. awaits L req (callsOf (Reconcile L r req) s) k
         \<and> (\<forall>ev s'. kindOf ev = k \<and> concerns L r req s' ev \<longrightarrow> requestsOf deliver (setupUpgradeJob r) ev s' = {req}))"
proof -
  have "leaves L req (resultOf (Reconcile L r req) s) (callsOf (Reconcile L r req) s)
      \<or> jobOver L req (callsOf (Reconcile L r req) s)"
    using follows_run [OF reconcile_api.after_Reconcile [OF assms(1)]] by blast
  then have "(\<exists>k. awaits L req (callsOf (Reconcile L r req) s) k) \<or> jobOver L req (callsOf (Reconcile L r req) s)"
    by (simp add: assms(5) stirred_def)
  then show ?thesis using event_wakes [OF assms(2-4)] by blast
qed

theorem no_lost_wakeup_witness:
  "versionWrites (callsOf (Reconcile refLib refServer sampleRequest) startedCluster) = 2
   \<and> (jobOver refLib sampleRequest (callsOf (Reconcile refLib refServer sampleRequest) startedCluster)
      \<or> (\<exists>k. awaits refLib sampleRequest (callsOf (Reconcile refLib refServer sampleRequest) startedCluster) k
           \<and> (\<forall>ev s'. kindOf ev = k \<and> concerns refLib refServer sampleRequest s' ev
                \<longrightarrow> requestsOf refDeliver (setupUpgradeJob refServer) ev s' = {sampleRequest})))"
proof (intro conjI no_lost_wakeup [OF ref_laws(1) refDelivery.event_delivery_axioms])
  show "versionWrites (callsOf (Reconcile refLib refServer sampleRequest) startedCluster) = 2" by code_simp
  show "resultOf (Reconcile refLib refServer sampleRequest) startedCluster = Inr noRequeue" by code_simp
qed (simp_all add: sampleRequest_def)

end
