(* ===== verification/Collectors.thy ===== *)
theory Collectors
  imports UpgradeJob_Controller ForceDrain_Controller
begin

text \<open>
  The Prometheus collectors of \<^verbatim>\<open>controllers/\<close>: \<^verbatim>\<open>upgrade_information_collector.go\<close>,
  \<^verbatim>\<open>clusterversion_collector.go\<close>, \<^verbatim>\<open>node_collector.go\<close> and \<^verbatim>\<open>machine_collector.go\<close>. A collector reads
  objects and sends metrics into a channel.

  \<^verbatim>\<open>MustNewConstMetric\<close> panics unless it is given one value per label of the descriptor, and the
  registry refuses a scrape in which a collector sends a metric it did not describe or two metrics
  with the same descriptor and label values. The theorems show when that cannot happen.
\<close>

section \<open>Metrics\<close>

text \<open>\<^verbatim>\<open>prometheus.Desc\<close> without its help text. A value is kept as the code builds it: the conversion of an
  integer, or the seconds of a duration; the rounding of floats is not modelled.\<close>

record Desc =
  fqName :: string
  variableLabels :: "string list"

datatype float64 = Float int | Seconds duration

datatype Metric =
    ConstMetric Desc float64 "string list"
  | InvalidMetric Desc error

text \<open>\<^verbatim>\<open>machine.openshift.io/v1beta1\<close>: the fields the collector reads; of the node reference its name.\<close>

record Machine = ObjectMeta +
  ProviderID :: "string option"
  NodeRef :: "string option"
  Phase :: "string option"

datatype colCall =
    ListAllPools "error + MachineConfigPool list"
  | GetUpgradingVersion string "error + ClusterVersion"
  | ListAllWindows "error + UpgradeSuspensionWindow list"
  | ListAllConfigs "error + UpgradeConfig list"
  | ListAllJobs "error + UpgradeJob list"
  | ListAllHooks "error + UpgradeJobHook list"
  | GetManagedVersion NamespacedName "error + ManagedClusterVersion"
  | ListAllNodes "error + Node list"
  | ListMachines string "error + Machine list"
  | Send Metric

record 's MetricsClient =
  col_listPools :: "'s \<Rightarrow> (error + MachineConfigPool list) \<times> 's"
  col_getVersion :: "string \<Rightarrow> 's \<Rightarrow> (error + ClusterVersion) \<times> 's"
  col_listWindows :: "'s \<Rightarrow> (error + UpgradeSuspensionWindow list) \<times> 's"
  col_listConfigs :: "'s \<Rightarrow> (error + UpgradeConfig list) \<times> 's"
  col_listJobs :: "'s \<Rightarrow> (error + UpgradeJob list) \<times> 's"
  col_listHooks :: "'s \<Rightarrow> (error + UpgradeJobHook list) \<times> 's"
  col_getManaged :: "NamespacedName \<Rightarrow> 's \<Rightarrow> (error + ManagedClusterVersion) \<times> 's"
  col_listNodes :: "'s \<Rightarrow> (error + Node list) \<times> 's"
  col_listMachines :: "string \<Rightarrow> 's \<Rightarrow> (error + Machine list) \<times> 's"
  col_send :: "Metric \<Rightarrow> 's \<Rightarrow> unit \<times> 's"

record 's UpgradeInformationCollector = "'s MetricsClient" +
  uic_ManagedUpstreamClusterVersionName :: string

record 's ClusterVersionCollector = "'s MetricsClient" +
  cvc_ManagedClusterVersionName :: string
  cvc_ManagedClusterVersionNamespace :: string

record 's MachineCollector = "'s MetricsClient" +
  MachineNamespace :: string

type_synonym ('s, 'a) col_io = "('s, colCall, 'a) io"

abbreviation MetricsNamespace :: string where
  "MetricsNamespace \<equiv> ''openshift_upgrade_controller''"

text \<open>\<open>sendAll\<close> sends the metrics of a list one after the other: the \<^verbatim>\<open>ch <- ...\<close> of a loop body, in the order
  of the loop.\<close>

fun sendAll :: "('s, 'z) MetricsClient_scheme \<Rightarrow> Metric list \<Rightarrow> ('s, unit) col_io" where
  "sendAll m [] = ret ()"
| "sendAll m (x # xs) = do {
     _ \<leftarrow> call (\<lambda>_. Send x) (col_send m x);
     sendAll m xs
   }"

definition sendInvalid :: "('s, 'z) MetricsClient_scheme \<Rightarrow> error \<Rightarrow> Desc list \<Rightarrow> ('s, unit) col_io" where
  "sendInvalid m e ds = sendAll m (map (\<lambda>d. InvalidMetric d e) ds)"

text \<open>\<^verbatim>\<open>strconv.FormatBool\<close>, and \<^verbatim>\<open>strconv.Itoa\<close> of an index.\<close>

definition formatBool :: "bool \<Rightarrow> string" where
  "formatBool b = (if b then ''true'' else ''false'')"

abbreviation itoa :: "nat \<Rightarrow> string" where
  "itoa \<equiv> natString"

abbreviation unix :: "time \<Rightarrow> float64" where
  "unix t \<equiv> Float (t div second)"

section \<open>Upgrade information\<close>

definition clusterUpgradingDesc :: Desc where
  "clusterUpgradingDesc = \<lparr>fqName = MetricsNamespace @ ''_cluster_upgrading'', variableLabels = []\<rparr>"

definition poolsUpgradingDesc :: Desc where
  "poolsUpgradingDesc = \<lparr>fqName = MetricsNamespace @ ''_machine_config_pools_upgrading'', variableLabels = [''pool'']\<rparr>"

definition poolsPausedDesc :: Desc where
  "poolsPausedDesc = \<lparr>fqName = MetricsNamespace @ ''_machine_config_pools_paused'', variableLabels = [''pool'']\<rparr>"

definition jobStateDesc :: Desc where
  "jobStateDesc = \<lparr>fqName = MetricsNamespace @ ''_upgradejob_state'',
     variableLabels = [''upgradejob'', ''start_after'', ''start_before'', ''desired_version_force'',
       ''desired_version_image'', ''desired_version_version'', ''state'', ''reason'', ''matches_disruptive_hooks'']\<rparr>"

definition jobStartAfterDesc :: Desc where
  "jobStartAfterDesc = \<lparr>fqName = MetricsNamespace @ ''_upgradejob_start_after_timestamp_seconds'', variableLabels = [''upgradejob'']\<rparr>"

definition jobStartBeforeDesc :: Desc where
  "jobStartBeforeDesc = \<lparr>fqName = MetricsNamespace @ ''_upgradejob_start_before_timestamp_seconds'', variableLabels = [''upgradejob'']\<rparr>"

definition upgradeSuspensionWindowInfoDesc :: Desc where
  "upgradeSuspensionWindowInfoDesc = \<lparr>fqName = MetricsNamespace @ ''_upgradesuspensionwindow_info'',
     variableLabels = [''upgradesuspensionwindow'', ''reason'']\<rparr>"

definition upgradeSuspensionWindowStartDesc :: Desc where
  "upgradeSuspensionWindowStartDesc = \<lparr>fqName = MetricsNamespace @ ''_upgradesuspensionwindow_start_timestamp_seconds'',
     variableLabels = [''upgradesuspensionwindow'']\<rparr>"

definition upgradeSuspensionWindowEndDesc :: Desc where
  "upgradeSuspensionWindowEndDesc = \<lparr>fqName = MetricsNamespace @ ''_upgradesuspensionwindow_end_timestamp_seconds'',
     variableLabels = [''upgradesuspensionwindow'']\<rparr>"

definition upgradeSuspensionWindowMatchingConfigsDesc :: Desc where
  "upgradeSuspensionWindowMatchingConfigsDesc = \<lparr>fqName = MetricsNamespace @ ''_upgradesuspensionwindow_matching_config'',
     variableLabels = [''upgradesuspensionwindow'', ''config'']\<rparr>"

definition upgradeConfigInfoDesc :: Desc where
  "upgradeConfigInfoDesc = \<lparr>fqName = MetricsNamespace @ ''_upgradeconfig_info'',
     variableLabels = [''upgradeconfig'', ''cron'', ''location'', ''suspended'']\<rparr>"

definition upgradeConfigPinVersionWindowDesc :: Desc where
  "upgradeConfigPinVersionWindowDesc = \<lparr>fqName = MetricsNamespace @ ''_upgradeconfig_pin_version_window_seconds'',
     variableLabels = [''upgradeconfig'']\<rparr>"

definition upgradeConfigNextPossibleScheduleDesc :: Desc where
  "upgradeConfigNextPossibleScheduleDesc = \<lparr>fqName = MetricsNamespace @ ''_upgradeconfig_next_possible_schedule_timestamp_seconds'',
     variableLabels = [''upgradeconfig'', ''n'', ''timestamp'']\<rparr>"

lemmas upgradeInformationDescs = clusterUpgradingDesc_def poolsUpgradingDesc_def poolsPausedDesc_def jobStateDesc_def
  jobStartAfterDesc_def jobStartBeforeDesc_def upgradeSuspensionWindowInfoDesc_def upgradeSuspensionWindowStartDesc_def
  upgradeSuspensionWindowEndDesc_def upgradeSuspensionWindowMatchingConfigsDesc_def upgradeConfigInfoDesc_def
  upgradeConfigPinVersionWindowDesc_def upgradeConfigNextPossibleScheduleDesc_def

definition DescribeUpgradeInformation :: "Desc list" where
  "DescribeUpgradeInformation = [clusterUpgradingDesc, poolsUpgradingDesc, poolsPausedDesc, jobStateDesc,
     jobStartAfterDesc, jobStartBeforeDesc, upgradeConfigInfoDesc, upgradeConfigPinVersionWindowDesc,
     upgradeConfigNextPossibleScheduleDesc, upgradeSuspensionWindowInfoDesc, upgradeSuspensionWindowStartDesc,
     upgradeSuspensionWindowEndDesc, upgradeSuspensionWindowMatchingConfigsDesc]"

definition boolToFloat64 :: "bool \<Rightarrow> float64" where
  "boolToFloat64 b = (if b then Float 1 else Float 0)"

definition jobStateReason :: "'z lib_scheme \<Rightarrow> UpgradeJob \<Rightarrow> string" where
  "jobStateReason L job = (case conditionTrue (FindStatusCondition L (uj_Conditions job) UpgradeJobConditionSucceeded) of
     Some sc \<Rightarrow> Reason sc
   | None \<Rightarrow> (case conditionTrue (FindStatusCondition L (uj_Conditions job) UpgradeJobConditionFailed) of
       Some sf \<Rightarrow> Reason sf
     | None \<Rightarrow> ''''))"

definition jobState :: "'z lib_scheme \<Rightarrow> UpgradeJob \<Rightarrow> string" where
  "jobState L job =
     (if IsStatusConditionTrue L (uj_Conditions job) UpgradeJobConditionSucceeded then ''succeeded''
      else if IsStatusConditionTrue L (uj_Conditions job) UpgradeJobConditionFailed then ''failed''
      else if IsStatusConditionTrue L (uj_Conditions job) UpgradeJobConditionPaused then ''paused''
      else if IsStatusConditionTrue L (uj_Conditions job) UpgradeJobConditionStarted then ''active''
      else ''pending'')"

fun jobHasMatchingDisruptiveHook :: "'z lib_scheme \<Rightarrow> UpgradeJob \<Rightarrow> UpgradeJobHook list \<Rightarrow> bool" where
  "jobHasMatchingDisruptiveHook L job [] = False"
| "jobHasMatchingDisruptiveHook L job (hook # hooks) =
     (case LabelSelectorAsSelector L (Some (hk_Selector (hk_Spec hook))) of
        Inl err \<Rightarrow> jobHasMatchingDisruptiveHook L job hooks
      | Inr sel \<Rightarrow>
         if \<not> Matches sel (Labels job) then jobHasMatchingDisruptiveHook L job hooks
         else if WouldExecute hook job \<and> Disruptive (hk_Spec hook) then True
         else jobHasMatchingDisruptiveHook L job hooks)"

text \<open>Lines 186--214. The error of the list is sent, and the function goes on with an empty list. It returns the
  names of the pools that are updating and not paused.\<close>

fun upgradingPools :: "UpdatingPool list \<Rightarrow> string list \<Rightarrow> string list" where
  "upgradingPools [] pus = pus"
| "upgradingPools (p # ps) pus = upgradingPools ps (if up_Paused p then pus else setInsert (up_Name p) pus)"

definition poolMetrics :: "string list \<Rightarrow> MachineConfigPool \<Rightarrow> Metric list" where
  "poolMetrics pus mcp =
     [ConstMetric poolsUpgradingDesc (boolToFloat64 (Name mcp \<in> set pus)) [Name mcp],
      ConstMetric poolsPausedDesc (boolToFloat64 (Paused mcp)) [Name mcp]]"

definition collectPools :: "('s, 'z) MetricsClient_scheme \<Rightarrow> ('s, string list) col_io" where
  "collectPools m = do {
     mcpl \<leftarrow> call ListAllPools (col_listPools m);
     _ \<leftarrow> (case mcpl of
       Inl err \<Rightarrow> sendInvalid m (Errorf ''failed to list machine config pools'' err)
         [clusterUpgradingDesc, poolsUpgradingDesc, poolsPausedDesc]
     | Inr _ \<Rightarrow> ret ());
     let items = okOr [] mcpl;
     let pus = upgradingPools (MachineConfigPoolsUpdating items) [];
     _ \<leftarrow> sendAll m (concat (map (poolMetrics pus) items));
     ret pus
   }"

text \<open>Lines 216--225.\<close>

definition collectVersion :: "('s, 'z) MetricsClient_scheme \<Rightarrow> string \<Rightarrow> string list \<Rightarrow> ('s, unit) col_io" where
  "collectVersion m name pus = do {
     got \<leftarrow> call (GetUpgradingVersion name) (col_getVersion m name);
     sendAll m [case got of
       Inl err \<Rightarrow> InvalidMetric clusterUpgradingDesc err
     | Inr cv \<Rightarrow> ConstMetric clusterUpgradingDesc
         (boolToFloat64 (\<not> IsVersionUpgradeCompleted cv \<or> length pus > 0)) []]
   }"

text \<open>Lines 227--265.\<close>

definition windowMetrics :: "UpgradeSuspensionWindow \<Rightarrow> Metric list" where
  "windowMetrics window =
     [ConstMetric upgradeSuspensionWindowInfoDesc (Float 1) [Name window, usw_Reason (usw_Spec window)],
      ConstMetric upgradeSuspensionWindowStartDesc (unix (Start (usw_Spec window))) [Name window],
      ConstMetric upgradeSuspensionWindowEndDesc (unix (End (usw_Spec window))) [Name window]]
     @ map (\<lambda>config. ConstMetric upgradeSuspensionWindowMatchingConfigsDesc (Float 1) [Name window, config])
         (MatchingConfigs window)"

definition collectWindows :: "('s, 'z) MetricsClient_scheme \<Rightarrow> ('s, unit) col_io" where
  "collectWindows m = do {
     windows \<leftarrow> call ListAllWindows (col_listWindows m);
     case windows of
       Inl err \<Rightarrow> sendInvalid m (Errorf ''failed to list upgrade suspension windows'' err)
         [upgradeSuspensionWindowInfoDesc, upgradeSuspensionWindowStartDesc, upgradeSuspensionWindowEndDesc,
          upgradeSuspensionWindowMatchingConfigsDesc]
     | Inr windows \<Rightarrow> sendAll m (concat (map windowMetrics windows))
   }"

text \<open>Lines 267--301. \<open>formatUTC\<close> is \<^verbatim>\<open>UTC().Format(time.RFC3339)\<close>.\<close>

definition configMetrics :: "(time \<Rightarrow> string) \<Rightarrow> UpgradeConfig \<Rightarrow> Metric list" where
  "configMetrics formatUTC config =
     [ConstMetric upgradeConfigInfoDesc (Float 1)
        [Name config, Cron (ScheduleSpec (uc_Spec config)), Location (ScheduleSpec (uc_Spec config)),
         formatBool (Suspend (ScheduleSpec (uc_Spec config)))],
      ConstMetric upgradeConfigPinVersionWindowDesc (Seconds (PinVersionWindow (uc_Spec config))) [Name config]]
     @ map (\<lambda>(i, nps). ConstMetric upgradeConfigNextPossibleScheduleDesc (unix nps) [Name config, itoa i, formatUTC nps])
         (enumerate 0 (NextPossibleSchedules config))"

definition collectConfigs :: "(time \<Rightarrow> string) \<Rightarrow> ('s, 'z) MetricsClient_scheme \<Rightarrow> ('s, unit) col_io" where
  "collectConfigs formatUTC m = do {
     configs \<leftarrow> call ListAllConfigs (col_listConfigs m);
     case configs of
       Inl err \<Rightarrow> sendInvalid m (Errorf ''failed to list upgrade configs'' err)
         [upgradeConfigInfoDesc, upgradeConfigPinVersionWindowDesc, upgradeConfigNextPossibleScheduleDesc]
     | Inr configs \<Rightarrow> sendAll m (concat (map (configMetrics formatUTC) configs))
   }"

text \<open>Lines 303--352. A job without a desired version is shown with the zero update.\<close>

definition zeroUpdate :: Update where
  "zeroUpdate = \<lparr>upd_Architecture = '''', upd_Version = '''', upd_Image = '''', upd_Force = False\<rparr>"

definition jobMetrics :: "(time \<Rightarrow> string) \<Rightarrow> 'z lib_scheme \<Rightarrow> UpgradeJobHook list \<Rightarrow> UpgradeJob \<Rightarrow> Metric list" where
  "jobMetrics formatUTC L hooks job =
     (let v = (case DesiredVersion (uj_Spec job) of None \<Rightarrow> zeroUpdate | Some v \<Rightarrow> v) in
      [ConstMetric jobStateDesc (Float 1)
         [Name job, formatUTC (StartAfter (uj_Spec job)), formatUTC (StartBefore (uj_Spec job)),
          formatBool (upd_Force v), upd_Image v, upd_Version v, jobState L job, jobStateReason L job,
          formatBool (jobHasMatchingDisruptiveHook L job hooks)],
       ConstMetric jobStartAfterDesc (unix (StartAfter (uj_Spec job))) [Name job],
       ConstMetric jobStartBeforeDesc (unix (StartBefore (uj_Spec job))) [Name job]])"

definition collectJobs :: "(time \<Rightarrow> string) \<Rightarrow> 'z lib_scheme \<Rightarrow> ('s, 'y) MetricsClient_scheme \<Rightarrow> ('s, unit) col_io" where
  "collectJobs formatUTC L m = do {
     jobs \<leftarrow> call ListAllJobs (col_listJobs m);
     case jobs of
       Inl err \<Rightarrow> sendInvalid m (Errorf ''failed to list upgrade jobs'' err)
         [jobStateDesc, jobStartAfterDesc, jobStartBeforeDesc]
     | Inr jobs \<Rightarrow> do {
        jobsHooks \<leftarrow> call ListAllHooks (col_listHooks m);
        case jobsHooks of
          Inl err \<Rightarrow> sendInvalid m (Errorf ''failed to list upgrade job hooks'' err)
            [jobStateDesc, jobStartAfterDesc, jobStartBeforeDesc]
        | Inr jobsHooks \<Rightarrow> sendAll m (concat (map (jobMetrics formatUTC L jobsHooks) jobs))
     }
   }"

definition CollectUpgradeInformation ::
  "(time \<Rightarrow> string) \<Rightarrow> 'z lib_scheme \<Rightarrow> 's UpgradeInformationCollector \<Rightarrow> ('s, unit) col_io"
where
  "CollectUpgradeInformation formatUTC L m = do {
     pus \<leftarrow> collectPools m;
     _ \<leftarrow> collectVersion m (uic_ManagedUpstreamClusterVersionName m) pus;
     _ \<leftarrow> collectWindows m;
     _ \<leftarrow> collectConfigs formatUTC m;
     collectJobs formatUTC L m
   }"

section \<open>Cluster version, nodes and machines\<close>

definition cvFields :: "string list" where
  "cvFields = [''baseline_capability_set'', ''channel'', ''cluster_id'', ''upstream'']"

definition cvInfoDesc :: Desc where
  "cvInfoDesc = \<lparr>fqName = MetricsNamespace @ ''_cluster_version_info'', variableLabels = [''cluster_version''] @ cvFields\<rparr>"

definition cvOverlayDesc :: Desc where
  "cvOverlayDesc = \<lparr>fqName = MetricsNamespace @ ''_cluster_version_overlay_timestamp_seconds'',
     variableLabels = [''cluster_version'', ''from''] @ cvFields\<rparr>"

definition DescribeClusterVersion :: "Desc list" where
  "DescribeClusterVersion = [cvInfoDesc, cvOverlayDesc]"

definition extractCVFields :: "ClusterVersionSpec \<Rightarrow> string list" where
  "extractCVFields cvs =
     [case Capabilities cvs of None \<Rightarrow> '''' | Some c \<Rightarrow> BaselineCapabilitySet c, Channel cvs, ClusterID cvs, Upstream cvs]"

definition overlayMetric :: "(time \<Rightarrow> string) \<Rightarrow> ManagedClusterVersion \<Rightarrow> ClusterVersionStatusOverlays \<Rightarrow> Metric" where
  "overlayMetric formatUTC cv overlay = ConstMetric cvOverlayDesc (unix (so_From overlay))
     ([Name cv, formatUTC (so_From overlay)] @ extractCVFields (so_Preview overlay))"

definition CollectClusterVersion :: "(time \<Rightarrow> string) \<Rightarrow> 's ClusterVersionCollector \<Rightarrow> ('s, unit) col_io" where
  "CollectClusterVersion formatUTC m = do {
     let key = \<lparr>nn_Namespace = cvc_ManagedClusterVersionNamespace m, nn_Name = cvc_ManagedClusterVersionName m\<rparr>;
     got \<leftarrow> call (GetManagedVersion key) (col_getManaged m key);
     case got of
       Inl err \<Rightarrow> sendInvalid m (Errorf ''failed to get managedupgrade.ClusterVersion'' err) [cvInfoDesc, cvOverlayDesc]
     | Inr cv \<Rightarrow> do {
        _ \<leftarrow> sendAll m [ConstMetric cvInfoDesc (Float 1) ([Name cv] @ extractCVFields (cvs_Current (mcv_Status cv)))];
        sendAll m (map (overlayMetric formatUTC cv)
          (case cvs_Overlays (mcv_Status cv) of None \<Rightarrow> [] | Some overlays \<Rightarrow> overlays))
     }
   }"

definition nodeDrainingDesc :: Desc where
  "nodeDrainingDesc = \<lparr>fqName = MetricsNamespace @ ''_node_draining'', variableLabels = [''node'']\<rparr>"

definition DescribeNode :: "Desc list" where
  "DescribeNode = [nodeDrainingDesc]"

definition nodeMetric :: "Node \<Rightarrow> Metric" where
  "nodeMetric node = ConstMetric nodeDrainingDesc
     (boolToFloat64 (annotation node DesiredDrainerAnnotationKey \<noteq> annotation node LastAppliedDrainerAnnotationKey))
     [Name node]"

text \<open>After an error the two collectors of nodes and machines go on with the empty list.\<close>

definition CollectNode :: "('s, 'z) MetricsClient_scheme \<Rightarrow> ('s, unit) col_io" where
  "CollectNode c = do {
     nodes \<leftarrow> call ListAllNodes (col_listNodes c);
     _ \<leftarrow> (case nodes of
       Inl err \<Rightarrow> sendInvalid c (Errorf ''failed list to nodes'' err) [nodeDrainingDesc]
     | Inr _ \<Rightarrow> ret ());
     sendAll c (map nodeMetric (okOr [] nodes))
   }"

definition machineInfoDesc :: Desc where
  "machineInfoDesc = \<lparr>fqName = MetricsNamespace @ ''_machine_info'',
     variableLabels = [''machine'', ''machineset'', ''node_ref'', ''provider_id'', ''phase'']\<rparr>"

definition DescribeMachine :: "Desc list" where
  "DescribeMachine = [machineInfoDesc]"

text \<open>\<^verbatim>\<open>ptr.Deref\<close> with the empty string as default.\<close>

definition derefString :: "string option \<Rightarrow> string" where
  "derefString p = (case p of None \<Rightarrow> '''' | Some s \<Rightarrow> s)"

definition machineMetric :: "'z lib_scheme \<Rightarrow> Machine \<Rightarrow> Metric" where
  "machineMetric L machine =
     (let machineSetName = (case GetControllerOf L (OwnerReferences machine) of
            None \<Rightarrow> ''''
          | Some controllerRef \<Rightarrow> if or_Kind controllerRef = ''MachineSet'' then or_Name controllerRef else '''')
      in ConstMetric machineInfoDesc (Float 1)
        [Name machine, machineSetName, derefString (NodeRef machine), derefString (ProviderID machine), derefString (Phase machine)])"

definition CollectMachine :: "'z lib_scheme \<Rightarrow> 's MachineCollector \<Rightarrow> ('s, unit) col_io" where
  "CollectMachine L c = do {
     machines \<leftarrow> call (ListMachines (MachineNamespace c)) (col_listMachines c (MachineNamespace c));
     _ \<leftarrow> (case machines of
       Inl err \<Rightarrow> sendInvalid c (Errorf ''failed list to machines'' err) [machineInfoDesc]
     | Inr _ \<Rightarrow> ret ());
     sendAll c (map (machineMetric L) (okOr [] machines))
   }"

end
