(* ===== verification/Collector_Properties.thy ===== *)
theory Collector_Properties
  imports Collectors Samples
begin

text \<open>
  The collectors keep the contract of the Prometheus registry (\<open>prometheus_collector\<close>), and what their metrics mean.
\<close>

section \<open>The contract of a collector\<close>

definition validMetric :: "Desc list \<Rightarrow> Metric \<Rightarrow> bool" where
  "validMetric ds x = (case x of
     ConstMetric d v ls \<Rightarrow> d \<in> set ds \<and> length ls = length (variableLabels d)
   | InvalidMetric d e \<Rightarrow> d \<in> set ds)"

definition validSend :: "Desc list \<Rightarrow> colCall \<Rightarrow> bool" where
  "validSend ds e = (case e of Send x \<Rightarrow> validMetric ds x | _ \<Rightarrow> True)"

lemma validSend_simps [simp]:
  "validSend ds (Send x) = validMetric ds x" "validSend ds (ListAllPools pl)" "validSend ds (GetUpgradingVersion n cv)"
  "validSend ds (ListAllWindows ws)" "validSend ds (ListAllConfigs cs)" "validSend ds (ListAllJobs js)"
  "validSend ds (ListAllHooks hs)" "validSend ds (GetManagedVersion k mv)" "validSend ds (ListAllNodes ns)"
  "validSend ds (ListMachines n ms)"
  by (simp_all add: validSend_def)

text \<open>What a collector promises the registry it is registered with.\<close>

locale prometheus_collector =
  fixes Describe :: "Desc list" and Collect :: "('s, unit) col_io"
  assumes described: "spec Collect (\<lambda>_ es. list_all (validSend Describe) es)"
begin

lemma scrape_valid: "list_all (validSend Describe) (callsOf Collect s)"
  using spec_run [OF described] .

end

section \<open>The traces of the collectors\<close>

lemma spec_sendAll: "spec (sendAll m xs) (\<lambda>_ es. es = map Send xs)"
  by (induction xs) (auto intro!: spec_ret spec_bind_call)

declare sendAll.simps(2) [simp del]

lemma spec_bind_sendAll:
  "spec (f ()) (\<lambda>y es. \<Psi> y (map Send xs @ es)) \<Longrightarrow> spec (State_Monad.bind (sendAll m xs) f) \<Psi>"
  by (rule spec_bind [OF spec_sendAll]) simp

definition upgradingNames :: "MachineConfigPool list \<Rightarrow> string list" where
  "upgradingNames ps = upgradingPools (MachineConfigPoolsUpdating ps) []"

definition poolsTrace :: "error + MachineConfigPool list \<Rightarrow> colCall list" where
  "poolsTrace pl = ListAllPools pl # map Send (case pl of
     Inl e \<Rightarrow> map (\<lambda>d. InvalidMetric d (Errorf ''failed to list machine config pools'' e))
       [clusterUpgradingDesc, poolsUpgradingDesc, poolsPausedDesc]
   | Inr ps \<Rightarrow> concat (map (poolMetrics (upgradingNames ps)) ps))"

definition versionMetric :: "string list \<Rightarrow> error + ClusterVersion \<Rightarrow> Metric" where
  "versionMetric pus got = (case got of
     Inl err \<Rightarrow> InvalidMetric clusterUpgradingDesc err
   | Inr cv \<Rightarrow> ConstMetric clusterUpgradingDesc (boolToFloat64 (\<not> IsVersionUpgradeCompleted cv \<or> length pus > 0)) [])"

definition windowsTrace :: "error + UpgradeSuspensionWindow list \<Rightarrow> colCall list" where
  "windowsTrace wl = ListAllWindows wl # map Send (case wl of
     Inl e \<Rightarrow> map (\<lambda>d. InvalidMetric d (Errorf ''failed to list upgrade suspension windows'' e))
       [upgradeSuspensionWindowInfoDesc, upgradeSuspensionWindowStartDesc, upgradeSuspensionWindowEndDesc,
        upgradeSuspensionWindowMatchingConfigsDesc]
   | Inr ws \<Rightarrow> concat (map windowMetrics ws))"

definition configsTrace :: "(time \<Rightarrow> string) \<Rightarrow> error + UpgradeConfig list \<Rightarrow> colCall list" where
  "configsTrace F cl = ListAllConfigs cl # map Send (case cl of
     Inl e \<Rightarrow> map (\<lambda>d. InvalidMetric d (Errorf ''failed to list upgrade configs'' e))
       [upgradeConfigInfoDesc, upgradeConfigPinVersionWindowDesc, upgradeConfigNextPossibleScheduleDesc]
   | Inr cs \<Rightarrow> concat (map (configMetrics F) cs))"

definition jobsTrace ::
  "(time \<Rightarrow> string) \<Rightarrow> 'z lib_scheme \<Rightarrow> error + UpgradeJob list \<Rightarrow> error + UpgradeJobHook list \<Rightarrow> colCall list"
where
  "jobsTrace F L jl hl = (case jl of
     Inl e \<Rightarrow> ListAllJobs jl # map (\<lambda>d. Send (InvalidMetric d (Errorf ''failed to list upgrade jobs'' e)))
       [jobStateDesc, jobStartAfterDesc, jobStartBeforeDesc]
   | Inr js \<Rightarrow> ListAllJobs jl # ListAllHooks hl # map Send (case hl of
       Inl e \<Rightarrow> map (\<lambda>d. InvalidMetric d (Errorf ''failed to list upgrade job hooks'' e))
         [jobStateDesc, jobStartAfterDesc, jobStartBeforeDesc]
     | Inr hs \<Rightarrow> concat (map (jobMetrics F L hs) js)))"

lemma spec_collectPools:
  "spec (collectPools m) (\<lambda>pus es. \<exists>pl. es = poolsTrace pl \<and> pus = upgradingNames (okOr [] pl))"
  unfolding collectPools_def sendInvalid_def
  apply (rule spec_bind_call)
  subgoal for pl
    by (cases pl) (auto simp: poolsTrace_def upgradingNames_def Let_def simp del: list.map
        intro!: spec_bind_sendAll spec_ret)
  done

lemma spec_collectVersion:
  "spec (collectVersion m n pus) (\<lambda>_ es. \<exists>got. es = [GetUpgradingVersion n got, Send (versionMetric pus got)])"
  unfolding collectVersion_def
  by (rule spec_bind_call, rule spec_mono [OF spec_sendAll]) (auto simp: versionMetric_def)

lemma spec_collectWindows: "spec (collectWindows m) (\<lambda>_ es. \<exists>wl. es = windowsTrace wl)"
  unfolding collectWindows_def sendInvalid_def
  by (rule spec_bind_call) (auto simp: windowsTrace_def split: sum.splits intro!: spec_mono [OF spec_sendAll] exI)

lemma spec_collectConfigs: "spec (collectConfigs F m) (\<lambda>_ es. \<exists>cl. es = configsTrace F cl)"
  unfolding collectConfigs_def sendInvalid_def
  by (rule spec_bind_call) (auto simp: configsTrace_def split: sum.splits intro!: spec_mono [OF spec_sendAll] exI)

lemma spec_collectJobs: "spec (collectJobs F L m) (\<lambda>_ es. \<exists>jl hl. es = jobsTrace F L jl hl)"
  unfolding collectJobs_def sendInvalid_def
  apply (rule spec_bind_call)
  subgoal for jl
    apply (cases jl)
     apply (auto simp: jobsTrace_def intro!: spec_mono [OF spec_sendAll] exI [of _ jl])
    apply (rule spec_bind_call)
    subgoal for js hl
      by (cases hl) (auto intro!: spec_mono [OF spec_sendAll] exI [of _ jl] exI [of _ hl])
    done
  done

definition informationTrace ::
  "(time \<Rightarrow> string) \<Rightarrow> 'z lib_scheme \<Rightarrow> string \<Rightarrow> error + MachineConfigPool list \<Rightarrow> error + ClusterVersion
     \<Rightarrow> error + UpgradeSuspensionWindow list \<Rightarrow> error + UpgradeConfig list \<Rightarrow> error + UpgradeJob list
     \<Rightarrow> error + UpgradeJobHook list \<Rightarrow> colCall list"
where
  "informationTrace F L n pl got wl cl jl hl = poolsTrace pl
     @ [GetUpgradingVersion n got, Send (versionMetric (upgradingNames (okOr [] pl)) got)]
     @ windowsTrace wl @ configsTrace F cl @ jobsTrace F L jl hl"

lemma spec_CollectUpgradeInformation:
  "spec (CollectUpgradeInformation F L m)
     (\<lambda>_ es. \<exists>pl got wl cl jl hl. es = informationTrace F L (uic_ManagedUpstreamClusterVersionName m) pl got wl cl jl hl)"
  unfolding CollectUpgradeInformation_def informationTrace_def
  apply (rule spec_bind [OF spec_collectPools])
  apply (rule spec_bind [OF spec_collectVersion])
  apply (rule spec_bind [OF spec_collectWindows])
  apply (rule spec_bind [OF spec_collectConfigs])
  apply (rule spec_mono [OF spec_collectJobs])
  apply fastforce
  done


section \<open>Every metric is described and complete\<close>

lemmas metricDefs = poolMetrics_def windowMetrics_def configMetrics_def jobMetrics_def versionMetric_def

lemma list_all_Send: "list_all (validSend ds) (map Send xs) \<longleftrightarrow> list_all (validMetric ds) xs"
  by (simp add: list.pred_map comp_def)

lemma validMetric_simps [simp]:
  "validMetric ds (ConstMetric d v ls) \<longleftrightarrow> d \<in> set ds \<and> length ls = length (variableLabels d)"
  "validMetric ds (InvalidMetric d e) \<longleftrightarrow> d \<in> set ds"
  by (simp_all add: validMetric_def)

lemma described_information:
  "set [clusterUpgradingDesc, poolsUpgradingDesc, poolsPausedDesc, jobStateDesc,
     jobStartAfterDesc, jobStartBeforeDesc, upgradeConfigInfoDesc, upgradeConfigPinVersionWindowDesc,
     upgradeConfigNextPossibleScheduleDesc, upgradeSuspensionWindowInfoDesc, upgradeSuspensionWindowStartDesc,
     upgradeSuspensionWindowEndDesc, upgradeSuspensionWindowMatchingConfigsDesc] \<subseteq> set DescribeUpgradeInformation"
  by (simp add: DescribeUpgradeInformation_def)

lemma label_counts [simp]:
  "length (variableLabels clusterUpgradingDesc) = 0" "length (variableLabels poolsUpgradingDesc) = 1"
  "length (variableLabels poolsPausedDesc) = 1" "length (variableLabels jobStateDesc) = 9"
  "length (variableLabels jobStartAfterDesc) = 1" "length (variableLabels jobStartBeforeDesc) = 1"
  "length (variableLabels upgradeSuspensionWindowInfoDesc) = 2" "length (variableLabels upgradeSuspensionWindowStartDesc) = 1"
  "length (variableLabels upgradeSuspensionWindowEndDesc) = 1" "length (variableLabels upgradeSuspensionWindowMatchingConfigsDesc) = 2"
  "length (variableLabels upgradeConfigInfoDesc) = 4" "length (variableLabels upgradeConfigPinVersionWindowDesc) = 1"
  "length (variableLabels upgradeConfigNextPossibleScheduleDesc) = 3" "length (variableLabels cvInfoDesc) = 5"
  "length (variableLabels cvOverlayDesc) = 6" "length (variableLabels nodeDrainingDesc) = 1"
  "length (variableLabels machineInfoDesc) = 5"
  by (simp_all add: upgradeInformationDescs cvInfoDesc_def cvOverlayDesc_def cvFields_def nodeDrainingDesc_def machineInfoDesc_def)

lemma valid_metrics:
  "list_all (validMetric DescribeUpgradeInformation) (poolMetrics pus p)"
  "list_all (validMetric DescribeUpgradeInformation) (windowMetrics w)"
  "list_all (validMetric DescribeUpgradeInformation) (configMetrics F c)"
  "list_all (validMetric DescribeUpgradeInformation) (jobMetrics F L hs j)"
  "validMetric DescribeUpgradeInformation (versionMetric pus got)"
  using described_information
  by (auto simp: metricDefs Let_def list_all_iff split: sum.splits)

lemma list_all_concat_map: "(\<And>x. list_all P (f x)) \<Longrightarrow> list_all P (concat (map f xs))"
  by (induction xs) auto

lemma valid_informationTrace:
  "list_all (validSend DescribeUpgradeInformation) (informationTrace F L n pl got wl cl jl hl)"
proof -
  have "list_all (validSend DescribeUpgradeInformation) (poolsTrace pl)"
    using described_information
    by (cases pl) (auto simp: poolsTrace_def list_all_Send intro: list_all_concat_map valid_metrics)
  moreover have "list_all (validSend DescribeUpgradeInformation) (windowsTrace wl)"
    using described_information
    by (cases wl) (auto simp: windowsTrace_def list_all_Send intro: list_all_concat_map valid_metrics)
  moreover have "list_all (validSend DescribeUpgradeInformation) (configsTrace F cl)"
    using described_information
    by (cases cl) (auto simp: configsTrace_def list_all_Send intro: list_all_concat_map valid_metrics)
  moreover have "list_all (validSend DescribeUpgradeInformation) (jobsTrace F L jl hl)"
    using described_information
    by (cases jl; cases hl) (auto simp: jobsTrace_def list_all_Send intro: list_all_concat_map valid_metrics)
  ultimately show ?thesis by (simp add: informationTrace_def valid_metrics)
qed

interpretation upgradeInformation: prometheus_collector DescribeUpgradeInformation "CollectUpgradeInformation F L m" for F L m
  by unfold_locales (rule spec_mono [OF spec_CollectUpgradeInformation], auto simp: valid_informationTrace)

interpretation clusterVersion: prometheus_collector DescribeClusterVersion "CollectClusterVersion F m" for F m
  by unfold_locales
    (auto simp: CollectClusterVersion_def sendInvalid_def DescribeClusterVersion_def overlayMetric_def extractCVFields_def
      list_all_Send list_all_iff Let_def split: sum.splits
      intro!: spec_bind_call spec_bind_sendAll spec_mono [OF spec_sendAll])

interpretation node: prometheus_collector DescribeNode "CollectNode m" for m :: "('s, 'z) MetricsClient_scheme"
  by unfold_locales
    (auto simp: CollectNode_def sendInvalid_def DescribeNode_def nodeMetric_def list_all_Send list_all_iff
      split: sum.splits intro!: spec_bind_call spec_bind_sendAll spec_mono [OF spec_sendAll])

interpretation machine: prometheus_collector DescribeMachine "CollectMachine L m" for L m
  by unfold_locales
    (auto simp: CollectMachine_def sendInvalid_def DescribeMachine_def machineMetric_def list_all_Send list_all_iff Let_def
      split: sum.splits intro!: spec_bind_call spec_bind_sendAll spec_mono [OF spec_sendAll])

text \<open>C35: the collectors never panic. Every metric the four collectors send, whatever the API answers, has a descriptor
  the collector announced and as many label values as the descriptor has labels.\<close>

theorem collectors_valid:
  "list_all (validSend DescribeUpgradeInformation) (callsOf (CollectUpgradeInformation F L mu) su)
   \<and> list_all (validSend DescribeClusterVersion) (callsOf (CollectClusterVersion F mv) sv)
   \<and> list_all (validSend DescribeNode) (callsOf (CollectNode mn) sn)
   \<and> list_all (validSend DescribeMachine) (callsOf (CollectMachine L mm) sm)"
  by (intro conjI upgradeInformation.scrape_valid clusterVersion.scrape_valid node.scrape_valid machine.scrape_valid)

section \<open>No metric is sent twice\<close>

text \<open>The descriptor and label values by which the registry tells metrics apart.\<close>

fun metricKey :: "Metric \<Rightarrow> (Desc \<times> string list) list" where
  "metricKey (ConstMetric d v ls) = [(d, ls)]"
| "metricKey (InvalidMetric d e) = []"

fun sentKeys :: "colCall list \<Rightarrow> (Desc \<times> string list) list" where
  "sentKeys [] = []"
| "sentKeys (Send x # es) = metricKey x @ sentKeys es"
| "sentKeys (e # es) = sentKeys es"

lemma sentKeys_append [simp]: "sentKeys (es @ fs) = sentKeys es @ sentKeys fs"
  by (induction es rule: sentKeys.induct) auto

lemma sentKeys_map_Send [simp]: "sentKeys (map Send xs) = concat (map metricKey xs)"
  by (induction xs) auto

lemma keys_invalid [simp]: "concat (map metricKey (map (\<lambda>d. InvalidMetric d e) ds)) = []"
  by (induction ds) auto

definition uniqueNames :: "colCall \<Rightarrow> bool" where
  "uniqueNames e = (case e of
     ListAllPools (Inr ps) \<Rightarrow> distinct (map Name ps)
   | ListAllWindows (Inr ws) \<Rightarrow> distinct (map Name ws) \<and> list_all (\<lambda>w. distinct (MatchingConfigs w)) ws
   | ListAllConfigs (Inr cs) \<Rightarrow> distinct (map Name cs)
   | ListAllJobs (Inr js) \<Rightarrow> distinct (map Name js)
   | _ \<Rightarrow> True)"

text \<open>Metrics of objects with different names differ in their first label.\<close>

lemma distinct_by_name:
  assumes "distinct (map n xs)" and "\<And>x. x \<in> set xs \<Longrightarrow> distinct (f x)"
    and "\<And>x k. x \<in> set xs \<Longrightarrow> k \<in> set (f x) \<Longrightarrow> hd (snd k) = n x"
  shows "distinct (concat (map f xs))"
  using assms
proof (induction xs)
  case (Cons x xs)
  have "set (f x) \<inter> set (concat (map f xs)) = {}"
  proof (rule equals0I)
    fix k assume "k \<in> set (f x) \<inter> set (concat (map f xs))"
    then have k: "k \<in> set (f x)" "k \<in> set (concat (map f xs))" by simp_all
    then obtain y where y: "y \<in> set xs" "k \<in> set (f y)" by auto
    with k(1) Cons.prems(3) [of x k] Cons.prems(3) [of y k] have "n x = n y" by simp
    with y(1) Cons.prems(1) show False by simp
  qed
  with Cons show ?case by simp
qed simp

lemma natString_last: "last (natString n) = char_of (48 + n mod 10)"
  by (subst natString.simps) (auto simp: mod_less)

lemma natString_butlast: "butlast (natString n) = (if n < 10 then [] else natString (n div 10))"
  by (subst natString.simps) auto

lemma natString_not_Nil [simp]: "natString n \<noteq> []"
  by (subst natString.simps) auto

lemma digit_inj: "a < 10 \<Longrightarrow> b < 10 \<Longrightarrow> char_of (48 + a) = (char_of (48 + b) :: char) \<Longrightarrow> a = (b :: nat)"
proof -
  assume ab: "a < 10" "b < 10" and "char_of (48 + a) = (char_of (48 + b) :: char)"
  then have "of_char (char_of (48 + a) :: char) = (of_char (char_of (48 + b) :: char) :: nat)" by simp
  with ab show "a = b" by (simp only: of_char_of) simp
qed

lemma natString_inj: "natString n = natString k \<Longrightarrow> n = k"
proof (induction n arbitrary: k rule: less_induct)
  case (less n)
  from less.prems have "last (natString n) = last (natString k)" "butlast (natString n) = butlast (natString k)" by simp_all
  then have "n mod 10 = k mod 10" and b: "(if n < 10 then [] else natString (n div 10)) = (if k < 10 then [] else natString (k div 10))"
    using digit_inj [of "n mod 10" "k mod 10"] by (auto simp: natString_last natString_butlast)
  moreover from b less.IH [of "n div 10" "k div 10"] have "n div 10 = k div 10"
    using natString_not_Nil [of "k div 10"] natString_not_Nil [of "n div 10"] by (auto split: if_splits simp del: natString_not_Nil)
  ultimately show ?case by (metis div_mult_mod_eq)
qed

lemma descs_distinct [simp]: "distinct DescribeUpgradeInformation"
  by (simp add: DescribeUpgradeInformation_def upgradeInformationDescs)

lemmas desc_neqs = descs_distinct [unfolded DescribeUpgradeInformation_def, simplified]

definition keysOf :: "('a \<Rightarrow> Metric list) \<Rightarrow> 'a list \<Rightarrow> (Desc \<times> string list) list" where
  "keysOf f xs = concat (map (\<lambda>x. concat (map metricKey (f x))) xs)"

lemma keysOf_eq: "concat (map metricKey (concat (map f xs))) = keysOf f xs"
  by (induction xs) (auto simp: keysOf_def)

lemma distinct_poolKeys: "distinct (map Name ps) \<Longrightarrow> distinct (keysOf (poolMetrics pus) ps)"
  unfolding keysOf_def by (rule distinct_by_name [where n = Name]) (auto simp: poolMetrics_def desc_neqs)

lemma distinct_jobKeys: "distinct (map Name js) \<Longrightarrow> distinct (keysOf (jobMetrics F L hs) js)"
  unfolding keysOf_def by (rule distinct_by_name [where n = Name]) (auto simp: jobMetrics_def Let_def desc_neqs)

lemma concat_singletons: "concat (map metricKey (map (\<lambda>x. ConstMetric d (v x) (ls x)) xs)) = map (\<lambda>x. (d, ls x)) xs"
  by (induction xs) auto

lemma windowKeys: "concat (map metricKey (windowMetrics w)) =
   [(upgradeSuspensionWindowInfoDesc, [Name w, usw_Reason (usw_Spec w)]), (upgradeSuspensionWindowStartDesc, [Name w]),
    (upgradeSuspensionWindowEndDesc, [Name w])]
   @ map (\<lambda>c. (upgradeSuspensionWindowMatchingConfigsDesc, [Name w, c])) (MatchingConfigs w)"
  using concat_singletons [of upgradeSuspensionWindowMatchingConfigsDesc "\<lambda>_. Float 1" "\<lambda>c. [Name w, c]" "MatchingConfigs w"]
  by (simp add: windowMetrics_def)

lemma configKeys: "concat (map metricKey (configMetrics F c)) =
   [(upgradeConfigInfoDesc, [Name c, Cron (ScheduleSpec (uc_Spec c)), Location (ScheduleSpec (uc_Spec c)),
      formatBool (Suspend (ScheduleSpec (uc_Spec c)))]), (upgradeConfigPinVersionWindowDesc, [Name c])]
   @ map (\<lambda>x. (upgradeConfigNextPossibleScheduleDesc, [Name c, itoa (fst x), F (snd x)])) (enumerate 0 (NextPossibleSchedules c))"
  using concat_singletons [of upgradeConfigNextPossibleScheduleDesc "\<lambda>x. unix (snd x)"
      "\<lambda>x. [Name c, itoa (fst x), F (snd x)]" "enumerate 0 (NextPossibleSchedules c)"]
  by (simp add: configMetrics_def case_prod_unfold)

lemma distinct_windowKeys:
  assumes "distinct (map Name ws)" and "list_all (\<lambda>w. distinct (MatchingConfigs w)) ws"
  shows "distinct (keysOf windowMetrics ws)"
  unfolding keysOf_def using assms
  by (intro distinct_by_name [where n = Name]) (auto simp: windowKeys desc_neqs distinct_map inj_on_def list_all_iff)

lemma distinct_scheduleKeys: "distinct (map (\<lambda>x. (d, [n, itoa (fst x), F (snd x)])) (enumerate i ts))"
proof -
  have "inj_on (\<lambda>x. (d, [n, itoa (fst x), F (snd x)])) (set (enumerate i ts))"
  proof (rule inj_onI)
    fix x y assume xy: "x \<in> set (enumerate i ts)" "y \<in> set (enumerate i ts)"
      and "(d, [n, itoa (fst x), F (snd x)]) = (d, [n, itoa (fst y), F (snd y)])"
    then have "fst x = fst y" by (simp add: natString_inj)
    with xy show "x = y" by (auto simp: in_set_enumerate_eq prod_eq_iff)
  qed
  then show ?thesis by (simp add: distinct_map)
qed

lemma distinct_configKeys: "distinct (map Name cs) \<Longrightarrow> distinct (keysOf (configMetrics F) cs)"
  unfolding keysOf_def
  by (rule distinct_by_name [where n = Name]) (auto simp: configKeys desc_neqs distinct_scheduleKeys)

text \<open>The descriptors each part uses.\<close>

lemma key_descs:
  "fst ` set (keysOf (poolMetrics pus) ps) \<subseteq> {poolsUpgradingDesc, poolsPausedDesc}"
  "fst ` set (keysOf windowMetrics ws) \<subseteq> {upgradeSuspensionWindowInfoDesc, upgradeSuspensionWindowStartDesc,
     upgradeSuspensionWindowEndDesc, upgradeSuspensionWindowMatchingConfigsDesc}"
  "fst ` set (keysOf (configMetrics F) cs) \<subseteq> {upgradeConfigInfoDesc, upgradeConfigPinVersionWindowDesc,
     upgradeConfigNextPossibleScheduleDesc}"
  "fst ` set (keysOf (jobMetrics F L hs) js) \<subseteq> {jobStateDesc, jobStartAfterDesc, jobStartBeforeDesc}"
  by (auto simp: keysOf_def poolMetrics_def windowKeys configKeys jobMetrics_def Let_def)

lemma poolsTrace_keys:
  "sentKeys (poolsTrace pl) = (case pl of Inl e \<Rightarrow> [] | Inr ps \<Rightarrow> keysOf (poolMetrics (upgradingNames ps)) ps)"
  by (cases pl) (simp_all add: poolsTrace_def keysOf_eq)

lemma windowsTrace_keys: "sentKeys (windowsTrace wl) = (case wl of Inl e \<Rightarrow> [] | Inr ws \<Rightarrow> keysOf windowMetrics ws)"
  by (cases wl) (simp_all add: windowsTrace_def keysOf_eq)

lemma configsTrace_keys: "sentKeys (configsTrace F cl) = (case cl of Inl e \<Rightarrow> [] | Inr cs \<Rightarrow> keysOf (configMetrics F) cs)"
  by (cases cl) (simp_all add: configsTrace_def keysOf_eq)

lemma jobsTrace_keys: "sentKeys (jobsTrace F L jl hl) = (case (jl, hl) of
    (Inr js, Inr hs) \<Rightarrow> keysOf (jobMetrics F L hs) js | _ \<Rightarrow> [])"
  by (cases jl; cases hl) (simp_all add: jobsTrace_def keysOf_eq)

lemma trace_descs:
  "fst ` set (sentKeys (poolsTrace pl)) \<subseteq> {poolsUpgradingDesc, poolsPausedDesc}"
  "fst ` set (metricKey (versionMetric pus got)) \<subseteq> {clusterUpgradingDesc}"
  "fst ` set (sentKeys (windowsTrace wl)) \<subseteq> {upgradeSuspensionWindowInfoDesc, upgradeSuspensionWindowStartDesc,
     upgradeSuspensionWindowEndDesc, upgradeSuspensionWindowMatchingConfigsDesc}"
  "fst ` set (sentKeys (configsTrace F cl)) \<subseteq> {upgradeConfigInfoDesc, upgradeConfigPinVersionWindowDesc,
     upgradeConfigNextPossibleScheduleDesc}"
  "fst ` set (sentKeys (jobsTrace F L jl hl)) \<subseteq> {jobStateDesc, jobStartAfterDesc, jobStartBeforeDesc}"
  subgoal by (cases pl) (simp_all add: poolsTrace_keys key_descs)
  subgoal by (cases got) (simp_all add: versionMetric_def)
  subgoal by (cases wl) (simp_all add: windowsTrace_keys key_descs)
  subgoal by (cases cl) (simp_all add: configsTrace_keys key_descs)
  subgoal by (cases jl; cases hl) (simp_all add: jobsTrace_keys key_descs)
  done

lemma trace_distinct:
  "list_all uniqueNames (poolsTrace pl) \<Longrightarrow> distinct (sentKeys (poolsTrace pl))"
  "list_all uniqueNames (windowsTrace wl) \<Longrightarrow> distinct (sentKeys (windowsTrace wl))"
  "list_all uniqueNames (configsTrace F cl) \<Longrightarrow> distinct (sentKeys (configsTrace F cl))"
  "list_all uniqueNames (jobsTrace F L jl hl) \<Longrightarrow> distinct (sentKeys (jobsTrace F L jl hl))"
  "distinct (metricKey (versionMetric pus got))"
  by (auto simp: poolsTrace_keys windowsTrace_keys configsTrace_keys jobsTrace_keys
      poolsTrace_def windowsTrace_def configsTrace_def jobsTrace_def uniqueNames_def versionMetric_def keysOf_eq
      distinct_poolKeys distinct_windowKeys distinct_configKeys distinct_jobKeys split: sum.splits)

lemma disjoint_by_fst: "fst ` A \<subseteq> B \<Longrightarrow> fst ` C \<subseteq> D \<Longrightarrow> B \<inter> D = {} \<Longrightarrow> A \<inter> C = {}"
  by blast

lemma informationTrace_distinct:
  assumes "list_all uniqueNames (informationTrace F L n pl got wl cl jl hl)"
  shows "distinct (sentKeys (informationTrace F L n pl got wl cl jl hl))"
proof -
  note D = trace_descs
  from assms have "list_all uniqueNames (poolsTrace pl)" "list_all uniqueNames (windowsTrace wl)"
    "list_all uniqueNames (configsTrace F cl)" "list_all uniqueNames (jobsTrace F L jl hl)"
    by (simp_all add: informationTrace_def)
  then show ?thesis
    using disjoint_by_fst [OF D(1) D(2), of pl "upgradingNames (okOr [] pl)" got] disjoint_by_fst [OF D(1) D(3), of pl wl]
      disjoint_by_fst [OF D(1) D(4), of pl F cl] disjoint_by_fst [OF D(1) D(5), of pl F L jl hl]
      disjoint_by_fst [OF D(2) D(3), of "upgradingNames (okOr [] pl)" got wl]
      disjoint_by_fst [OF D(2) D(4), of "upgradingNames (okOr [] pl)" got F cl]
      disjoint_by_fst [OF D(2) D(5), of "upgradingNames (okOr [] pl)" got F L jl hl]
      disjoint_by_fst [OF D(3) D(4), of wl F cl] disjoint_by_fst [OF D(3) D(5), of wl F L jl hl]
      disjoint_by_fst [OF D(4) D(5), of F cl F L jl hl]
    by (simp add: informationTrace_def trace_distinct desc_neqs Int_Un_distrib)
qed

text \<open>When the pools, windows, configs and jobs the API lists have distinct names, the collector of upgrade information
  never sends two metrics with the same descriptor and label values.\<close>

lemma metrics_distinct:
  assumes "list_all uniqueNames (callsOf (CollectUpgradeInformation F L m) s)"
  shows "distinct (sentKeys (callsOf (CollectUpgradeInformation F L m) s))"
  using spec_run [OF spec_CollectUpgradeInformation, of F L m s] assms informationTrace_distinct by metis

text \<open>A client with fixed answers.\<close>

definition fixedMetrics ::
  "MachineConfigPool list \<Rightarrow> UpgradeSuspensionWindow list \<Rightarrow> UpgradeConfig list \<Rightarrow> UpgradeJob list
     \<Rightarrow> unit UpgradeInformationCollector"
where
  "fixedMetrics ps ws cs js = \<lparr>col_listPools = (\<lambda>s. (Inr ps, s)), col_getVersion = (\<lambda>_ s. (Inr sampleVersion, s)),
     col_listWindows = (\<lambda>s. (Inr ws, s)), col_listConfigs = (\<lambda>s. (Inr cs, s)), col_listJobs = (\<lambda>s. (Inr js, s)),
     col_listHooks = (\<lambda>s. (Inr [sampleHook], s)), col_getManaged = (\<lambda>_ s. (Inl (ErrorString ''''), s)),
     col_listNodes = (\<lambda>s. (Inr [], s)), col_listMachines = (\<lambda>_ s. (Inr [], s)), col_send = (\<lambda>_ s. ((), s)),
     uic_ManagedUpstreamClusterVersionName = ''version''\<rparr>"

definition twoSchedules :: UpgradeConfig where
  "twoSchedules = ObjectMeta.extend (sampleMeta ''ns'' ''config'')
     \<lparr>uc_Spec = \<lparr>ScheduleSpec = \<lparr>Cron = ''@daily'', IsoWeek = '''', Location = '''', Suspend = False\<rparr>,
        PinVersionWindow = 60 * minute, MaxSchedulingDelay = minute, MaxUpgradeStartDelay = minute,
        SuccessfulJobsHistoryLimit = None,
        JobTemplate = \<lparr>jtm_Labels = Map.empty, jtm_Annotations = Map.empty, jtm_Config = sampleConfig\<rparr>\<rparr>,
      LastScheduledUpgrade = None, NextPossibleSchedules = [minute, 2 * minute]\<rparr>"

definition sampleMetrics :: "unit UpgradeInformationCollector" where
  "sampleMetrics = fixedMetrics [samplePool ''master'' False Map.empty 3, samplePool ''worker'' False Map.empty 1]
     [sampleWindow\<lparr>MatchingConfigs := [''config'']\<rparr>] [twoSchedules] [sampleJob [], (sampleJob [])\<lparr>Name := ''next''\<rparr>]"

lemma run_sendAll:
  "col_send m = (\<lambda>_ s. ((), s)) \<Longrightarrow> run_state (sendAll m xs) w = ((), w\<lparr>calls := calls w @ map Send xs\<rparr>)"
  by (induction xs arbitrary: w) (simp_all add: sendAll.simps)

lemmas collect_defs = CollectUpgradeInformation_def collectPools_def collectVersion_def collectWindows_def
  collectConfigs_def collectJobs_def sampleMetrics_def fixedMetrics_def callsOf_def run_sendAll Let_def

text \<open>The metrics of jobs carry no namespace: two jobs of the same name in different namespaces, which the flag
  \<^verbatim>\<open>--namespace=""\<close> lets the controller see, give the same series twice.\<close>

lemma same_name_jobs_collide:
  "Name j = Name k \<Longrightarrow> \<not> distinct (keysOf (jobMetrics F L hs) [j, k])"
  by (simp add: keysOf_def jobMetrics_def Let_def)

section \<open>What the metrics mean\<close>

lemma set_upgradingPools: "set (upgradingPools ps pus) = set pus \<union> up_Name ` {p \<in> set ps. \<not> up_Paused p}"
  by (induction ps pus rule: upgradingPools.induct) (auto simp: set_setInsert)

definition poolUpgrading :: "MachineConfigPool \<Rightarrow> bool" where
  "poolUpgrading p \<longleftrightarrow> \<not> Paused p \<and> MachineCount p \<noteq> UpdatedMachineCount p"

lemma set_upgradingNames: "set (upgradingNames ps) = Name ` {p \<in> set ps. poolUpgrading p}"
  by (force simp: upgradingNames_def set_upgradingPools MachineConfigPoolsUpdating_eq poolUpgrading_def image_iff)

lemma upgrading_by_name:
  "distinct (map Name ps) \<Longrightarrow> p \<in> set ps \<Longrightarrow> Name p \<in> set (upgradingNames ps) \<longleftrightarrow> poolUpgrading p"
  by (auto simp: set_upgradingNames distinct_map inj_on_def)

lemma length_upgradingNames: "0 < length (upgradingNames ps) \<longleftrightarrow> (\<exists>p \<in> set ps. poolUpgrading p)"
  using set_upgradingNames [of ps] by (auto simp: length_greater_0_conv simp flip: set_empty)

lemma informationTrace_reads:
  "ListAllPools pl' \<in> set (informationTrace F L n pl got wl cl jl hl) \<Longrightarrow> pl' = pl"
  "GetUpgradingVersion n' got' \<in> set (informationTrace F L n pl got wl cl jl hl) \<Longrightarrow> got' = got"
  by (auto simp: informationTrace_def poolsTrace_def windowsTrace_def configsTrace_def jobsTrace_def split: sum.splits)

text \<open>C37: what is shown as upgrading. For the pools and the cluster version that were read, the metric of a pool is one
  exactly when the pool is not paused and has machines to update, and the metric of the cluster is one
  exactly when its version is not completed or such a pool exists.\<close>

theorem upgrading_metrics:
  assumes "ListAllPools (Inr ps) \<in> set (callsOf (CollectUpgradeInformation F L m) s)"
    and "GetUpgradingVersion n (Inr cv) \<in> set (callsOf (CollectUpgradeInformation F L m) s)"
    and "distinct (map Name ps)"
  shows "Send (ConstMetric clusterUpgradingDesc (boolToFloat64
        (\<not> IsVersionUpgradeCompleted cv \<or> (\<exists>p \<in> set ps. poolUpgrading p))) []) \<in> set (callsOf (CollectUpgradeInformation F L m) s)
    \<and> (\<forall>p \<in> set ps. Send (ConstMetric poolsUpgradingDesc (boolToFloat64 (poolUpgrading p)) [Name p])
        \<in> set (callsOf (CollectUpgradeInformation F L m) s))"
proof -
  let ?n = "uic_ManagedUpstreamClusterVersionName m"
  from spec_run [OF spec_CollectUpgradeInformation, of F L m s] obtain pl got wl cl jl hl
    where es: "callsOf (CollectUpgradeInformation F L m) s = informationTrace F L ?n pl got wl cl jl hl" by blast
  with assms(1,2) have [simp]: "pl = Inr ps" "got = Inr cv" using informationTrace_reads by fastforce+
  have "Send (ConstMetric poolsUpgradingDesc (boolToFloat64 (poolUpgrading p)) [Name p]) \<in> set (poolsTrace (Inr ps))"
    if "p \<in> set ps" for p
    using that unfolding poolsTrace_def poolMetrics_def upgrading_by_name [OF assms(3) that, symmetric] by simp blast
  moreover have "versionMetric (upgradingNames ps) (Inr cv) = ConstMetric clusterUpgradingDesc
      (boolToFloat64 (\<not> IsVersionUpgradeCompleted cv \<or> (\<exists>p \<in> set ps. poolUpgrading p))) []"
    unfolding versionMetric_def length_upgradingNames by simp
  ultimately show ?thesis by (simp add: es informationTrace_def)
qed

theorem upgrading_metrics_witness:
  "Send (ConstMetric poolsUpgradingDesc (Float 0) [''master'']) \<in> set (callsOf (CollectUpgradeInformation (\<lambda>_. ''time'') refLib sampleMetrics) ())
   \<and> Send (ConstMetric poolsUpgradingDesc (Float 1) [''worker'']) \<in> set (callsOf (CollectUpgradeInformation (\<lambda>_. ''time'') refLib sampleMetrics) ())"
proof -
  let ?ps = "[samplePool ''master'' False Map.empty 3, samplePool ''worker'' False Map.empty 1]"
  let ?es = "callsOf (CollectUpgradeInformation (\<lambda>_. ''time'') refLib sampleMetrics) ()"
  have "ListAllPools (Inr ?ps) \<in> set ?es" and "GetUpgradingVersion ''version'' (Inr sampleVersion) \<in> set ?es"
    by (simp_all add: collect_defs)
  from upgrading_metrics [OF this] show ?thesis
    by (simp add: samplePool_def ObjectMeta.extend_def sampleMeta_def poolUpgrading_def boolToFloat64_def)
qed

text \<open>The state of a job: of the reported states only the final ones have a reason, provided every condition has
  one, as the API server demands; and the state is final exactly when the controller treats the job as
  finished.\<close>

theorem jobState_final:
  assumes "condition_laws L" and "\<forall>c \<in> set (uj_Conditions job). Reason c \<noteq> ''''"
  shows "(jobStateReason L job \<noteq> '''' \<longleftrightarrow> jobState L job \<in> {''succeeded'', ''failed''})
    \<and> (jobState L job \<in> {''succeeded'', ''failed''} \<longleftrightarrow> succeededCondition L job \<noteq> None \<or> failedCondition L job \<noteq> None)"
proof -
  note find = condition_laws.find_type [OF assms(1)] and true = condition_laws.is_true [OF assms(1)]
  show ?thesis
    using assms(2)
    by (auto simp: jobStateReason_def jobState_def true conditionTrue_def succeededCondition_def failedCondition_def
        split: option.splits if_splits dest!: find)
qed

theorem jobState_final_witness:
  "jobState refLib (sampleJob [trueCondition UpgradeJobConditionSucceeded]) = ''succeeded''
   \<and> jobStateReason refLib (sampleJob [trueCondition UpgradeJobConditionSucceeded]) \<noteq> ''''"
  using jobState_final [OF refLib.condition_laws_axioms, of "sampleJob [trueCondition UpgradeJobConditionSucceeded]"]
  by (simp add: jobState_def refLib.is_true refLib.find_first sampleJob_def ObjectMeta.extend_def trueCondition_def)

text \<open>A node is shown as draining exactly when the forced drain treats it as draining.\<close>

lemma nodeMetric_draining:
  "nodeMetric node = ConstMetric nodeDrainingDesc (boolToFloat64 (node \<in> set (filterDraining [node]))) [Name node]"
  by (simp add: nodeMetric_def Let_def)

end
