(* ===== verification/Hook_Webhook.thy ===== *)
theory Hook_Webhook
  imports Hook_Jobs
begin

text \<open>
  \<^verbatim>\<open>internal/webhook/v1beta1/upgradejobhook_webhook.go\<close>: the admission webhook of hooks asks the API server, by a
  server-side dry run, whether it would admit a job built from the template of the hook.
\<close>

section \<open>The validator\<close>

text \<open>The fields the webhook sets of the job; every other field keeps its zero value. The create call always asks for
  a dry run, and its context ends after four seconds, which the client reports as an error.\<close>

record DryRunJob =
  dj_GenerateName :: string
  dj_Namespace :: string
  dj_Labels :: "string \<rightharpoonup> string"
  dj_Annotations :: "string \<rightharpoonup> string"
  dj_Spec :: JobSpec

datatype whCall = DryRunCreate DryRunJob "error option"

record 's UpgradeJobHookCustomValidator =
  wh_create :: "DryRunJob \<Rightarrow> 's \<Rightarrow> error option \<times> 's"

type_synonym ('s, 'a) wh_io = "('s, whCall, 'a) io"

record StatusCause =
  CauseType :: string
  CauseMessage :: string
  Field :: string

text \<open>The library functions of the webhook: \<^verbatim>\<open>apierrors.IsInvalid\<close>, the status error an error wraps with the causes of its
  details (\<open>Some None\<close> for nil details), the text of an error, and \<^verbatim>\<open>apiequality.Semantic.DeepEqual\<close> on templates.\<close>

record status_lib =
  IsInvalid :: "error \<Rightarrow> bool"
  AsStatusError :: "error \<Rightarrow> StatusCause list option option"
  ErrorText :: "error \<Rightarrow> string"
  SemanticEqual :: "JobTemplateSpec \<Rightarrow> JobTemplateSpec \<Rightarrow> bool"

text \<open>The errors of the webhook: the status error it builds, or the wrapped error of the client.\<close>

datatype webhook_error =
    StatusError int string string "StatusCause list"
  | WrappedError error

definition StatusUnprocessableEntity :: int where "StatusUnprocessableEntity = 422"

abbreviation StatusReasonInvalid :: string where "StatusReasonInvalid \<equiv> ''Invalid''"

definition dryRunJob :: "UpgradeJobHook \<Rightarrow> DryRunJob" where
  "dryRunJob r = \<lparr>dj_GenerateName = Name r, dj_Namespace = Namespace r,
     dj_Labels = Labels (Template (hk_Spec r)), dj_Annotations = Annotations (Template (hk_Spec r)),
     dj_Spec = jt_Spec (Template (hk_Spec r))\<rparr>"

fun remapCauses :: "StatusCause list \<Rightarrow> StatusCause list" where
  "remapCauses [] = []"
| "remapCauses (c # cs) =
     \<lparr>CauseType = CauseType c, CauseMessage = CauseMessage c, Field = ''spec.template.'' @ Field c\<rparr> # remapCauses cs"

definition validate ::
  "'z status_lib_scheme \<Rightarrow> 's UpgradeJobHookCustomValidator \<Rightarrow> UpgradeJobHook \<Rightarrow> ('s, webhook_error option) wh_io"
where
  "validate S v r = do {
     let job = dryRunJob r;
     err \<leftarrow> call (DryRunCreate job) (wh_create v job);
     ret (case err of
       None \<Rightarrow> None
     | Some err \<Rightarrow>
        if IsInvalid S err then
          let upstreamCauses = (case AsStatusError S err of Some (Some causes) \<Rightarrow> causes | _ \<Rightarrow> []);
              causes = remapCauses upstreamCauses
          in Some (StatusError StatusUnprocessableEntity StatusReasonInvalid
               (''Job creation from template would fail. (Upstream error: '' @ ErrorText S err @ '')'') causes)
        else Some (WrappedError (Errorf ''Job creation from template would fail'' err)))
   }"

text \<open>The warnings of the three operations are always nil and are left out.\<close>

definition ValidateCreate ::
  "'z status_lib_scheme \<Rightarrow> 's UpgradeJobHookCustomValidator \<Rightarrow> UpgradeJobHook \<Rightarrow> ('s, webhook_error option) wh_io"
where
  "ValidateCreate S v hook = validate S v hook"

definition ValidateUpdate ::
  "'z status_lib_scheme \<Rightarrow> 's UpgradeJobHookCustomValidator \<Rightarrow> UpgradeJobHook \<Rightarrow> UpgradeJobHook
     \<Rightarrow> ('s, webhook_error option) wh_io"
where
  "ValidateUpdate S v oldHook newHook =
     (if SemanticEqual S (Template (hk_Spec oldHook)) (Template (hk_Spec newHook)) then ret None
      else validate S v newHook)"

definition ValidateDelete ::
  "'s UpgradeJobHookCustomValidator \<Rightarrow> UpgradeJobHook \<Rightarrow> ('s, webhook_error option) wh_io"
where
  "ValidateDelete v hook = ret None"

section \<open>What it decides\<close>

lemma remapCauses_eq: "remapCauses cs = map (\<lambda>c. c\<lparr>Field := ''spec.template.'' @ Field c\<rparr>) cs"
  by (induction cs) simp_all

text \<open>What a denial tells: an invalid job is answered with status 422 and, in order, one cause for each cause of the
  server, its field placed under the template of the hook; every other error is passed on wrapped.\<close>

definition denial :: "'z status_lib_scheme \<Rightarrow> error \<Rightarrow> webhook_error \<Rightarrow> bool" where
  "denial S err e \<longleftrightarrow>
     (if IsInvalid S err
      then \<exists>msg causes. e = StatusError 422 ''Invalid'' msg causes
        \<and> map Field causes = (case AsStatusError S err of
             Some (Some cs) \<Rightarrow> map (\<lambda>c. ''spec.template.'' @ Field c) cs | _ \<Rightarrow> [])
        \<and> map CauseMessage causes = (case AsStatusError S err of Some (Some cs) \<Rightarrow> map CauseMessage cs | _ \<Rightarrow> [])
      else e = WrappedError (Errorf ''Job creation from template would fail'' err))"

lemma run_ret: "resultOf (ret x) s = x" "callsOf (ret x) s = []"
  by (simp_all add: resultOf_def callsOf_def)

lemma spec_validate:
  "spec (validate S v hook) (\<lambda>res es. \<exists>answer. es = [DryRunCreate (dryRunJob hook) answer]
     \<and> (case answer of None \<Rightarrow> res = None | Some err \<Rightarrow> \<exists>e. res = Some e \<and> denial S err e))"
  unfolding validate_def Let_def
  by (rule spec_bind_call)
    (auto simp: denial_def remapCauses_eq StatusUnprocessableEntity_def split: option.splits intro!: spec_ret)

text \<open>C34: the webhook. A new or changed template is submitted exactly once, as the job of the hook, for a dry run only, and
  the hook is admitted exactly when the server would admit the job; a denial names the causes of the server.
  A hook with an unchanged template and a deletion are admitted without a call.\<close>

theorem webhook_verdict:
  "(case (resultOf (ValidateCreate S v hook) s, callsOf (ValidateCreate S v hook) s) of (res, es) \<Rightarrow>
      \<exists>answer. es = [DryRunCreate (dryRunJob hook) answer]
        \<and> (case answer of None \<Rightarrow> res = None | Some err \<Rightarrow> \<exists>e. res = Some e \<and> denial S err e))
   \<and> (case (resultOf (ValidateUpdate S v old hook) s, callsOf (ValidateUpdate S v old hook) s) of (res, es) \<Rightarrow>
      if SemanticEqual S (Template (hk_Spec old)) (Template (hk_Spec hook)) then res = None \<and> es = []
      else \<exists>answer. es = [DryRunCreate (dryRunJob hook) answer]
        \<and> (case answer of None \<Rightarrow> res = None | Some err \<Rightarrow> \<exists>e. res = Some e \<and> denial S err e))
   \<and> resultOf (ValidateDelete v hook) s = None \<and> callsOf (ValidateDelete v hook) s = []"
  using spec_run [OF spec_validate, of S v hook s]
  by (auto simp: ValidateCreate_def ValidateUpdate_def ValidateDelete_def run_ret)

end
