(* ===== verification/Manager.thy ===== *)
theory Manager
  imports Collector_Properties SuspensionWindow_Controller
begin

text \<open>
  \<^verbatim>\<open>main.go\<close>: the flags and their defaults, the options of the cache, and the start of the manager. The
  packages it starts (controller-runtime, its metrics server, cache and certificate watchers) are the
  client of \<open>MainClient\<close>. The result of a process is its exit status: 1 for \<^verbatim>\<open>os.Exit(1)\<close> and 2 for a panic. The
  flags are taken as parsed, since the options of the logger add flags of their own; the texts of flags and
  log messages are left out.
\<close>

section \<open>Flags\<close>

text \<open>\<^verbatim>\<open>path/filepath\<close>: \<^verbatim>\<open>Clean\<close> and \<^verbatim>\<open>Join\<close> of two elements.\<close>

fun cleanParts :: "bool \<Rightarrow> string list \<Rightarrow> string list \<Rightarrow> string list" where
  "cleanParts rooted out [] = rev out"
| "cleanParts rooted out (p # ps) =
     (if p = '''' \<or> p = ''.'' then cleanParts rooted out ps
      else if p = ''..'' then (case out of
          [] \<Rightarrow> cleanParts rooted (if rooted then [] else [p]) ps
        | q # qs \<Rightarrow> cleanParts rooted (if q = ''..'' then p # out else qs) ps)
      else cleanParts rooted (p # out) ps)"

definition cleanPath :: "string \<Rightarrow> string" where
  "cleanPath path = (let rooted = hasPrefix path ''/'';
       out = (if rooted then ''/'' else '''') @ joinWith ''/'' (cleanParts rooted [] (splitOn (CHR ''/'') path))
     in if out = '''' then ''.'' else out)"

definition joinPath :: "string \<Rightarrow> string \<Rightarrow> string" where
  "joinPath a b = (if a = '''' \<and> b = '''' then '''' else cleanPath (if a = '''' then b else a @ ''/'' @ b))"

record Flags =
  metricsAddr :: string
  probeAddr :: string
  enableLeaderElection :: bool
  secureMetrics :: bool
  metricsCertPath :: string
  metricsCertName :: string
  metricsCertKey :: string
  webhookCertPath :: string
  webhookCertName :: string
  webhookCertKey :: string
  managedUpstreamClusterVersionName :: string
  managedClusterVersionName :: string
  managedClusterVersionNamespace :: string
  watchNamespace :: string
  nodeDrainReconcileInterval :: duration
  machineNamespace :: string

text \<open>\<open>env\<close> is \<^verbatim>\<open>os.Getenv("POD_NAMESPACE")\<close>, the empty string when it is not set.\<close>

definition defaultNamespace :: "string \<Rightarrow> string" where
  "defaultNamespace env = (if env \<noteq> '''' then env else ''default'')"

definition flagDefaults :: "string \<Rightarrow> Flags" where
  "flagDefaults env = \<lparr>metricsAddr = '':8080'', probeAddr = '':8081'', enableLeaderElection = False,
     secureMetrics = True, metricsCertPath = '''', metricsCertName = ''tls.crt'', metricsCertKey = ''tls.key'',
     webhookCertPath = '''', webhookCertName = ''tls.crt'', webhookCertKey = ''tls.key'',
     managedUpstreamClusterVersionName = ''version'', managedClusterVersionName = ''version'',
     managedClusterVersionNamespace = defaultNamespace env, watchNamespace = defaultNamespace env,
     nodeDrainReconcileInterval = 3 * minute, machineNamespace = ''openshift-machine-api''\<rparr>"

section \<open>The cache\<close>

datatype objectKind = MachineKind | ManagedClusterVersionKind | OtherKind string

record CacheOptions =
  ByObject :: "(objectKind \<times> string list) list"
  DefaultNamespaces :: "string list"

definition cacheOpts :: "Flags \<Rightarrow> CacheOptions" where
  "cacheOpts F =
     (let opts = \<lparr>ByObject = [(MachineKind, [machineNamespace F]),
            (ManagedClusterVersionKind, [managedClusterVersionNamespace F])], DefaultNamespaces = []\<rparr>
      in if watchNamespace F \<noteq> '''' then opts\<lparr>DefaultNamespaces := [watchNamespace F]\<rparr> else opts)"

section \<open>The start\<close>

text \<open>A certificate watcher is named by its two files.\<close>

type_synonym watcher = "string \<times> string"

record MetricsOptions =
  BindAddress :: string
  SecureServing :: bool
  FilterProvider :: bool
  MetricsCertificate :: "watcher option"

record ManagerOptions =
  Metrics :: MetricsOptions
  WebhookCertificate :: "watcher option"
  HealthProbeBindAddress :: string
  LeaderElection :: bool
  LeaderElectionID :: string
  Cache :: CacheOptions

text \<open>What is registered and set up, with the names it is given.\<close>

datatype collectorKind =
    UpgradeInformationCollectorOf string
  | ClusterVersionCollectorOf string string
  | NodeCollectorOf
  | MachineCollectorOf string

datatype controllerKind =
    ClusterVersionReconcilerOf string string string
  | UpgradeJobReconcilerOf string
  | UpgradeConfigReconcilerOf string
  | UpgradeSuspensionWindowReconcilerOf
  | NodeForceDrainReconcilerOf duration

datatype mainCall =
    AddToScheme string "error option"
  | NewCertWatcher watcher "error option"
  | GetConfig "error option"
  | NewManager ManagerOptions "error option"
  | MustRegister collectorKind "error option"
  | SetupWithManager controllerKind "error option"
  | SetupWebhook "error option"
  | AddWatcher watcher "error option"
  | AddHealthzCheck "error option"
  | AddReadyzCheck "error option"
  | StartManager "error option"

record 's MainClient =
  m_addToScheme :: "string \<Rightarrow> 's \<Rightarrow> error option \<times> 's"
  m_newCertWatcher :: "watcher \<Rightarrow> 's \<Rightarrow> error option \<times> 's"
  m_getConfig :: "'s \<Rightarrow> error option \<times> 's"
  m_newManager :: "ManagerOptions \<Rightarrow> 's \<Rightarrow> error option \<times> 's"
  m_register :: "collectorKind \<Rightarrow> 's \<Rightarrow> error option \<times> 's"
  m_setup :: "controllerKind \<Rightarrow> 's \<Rightarrow> error option \<times> 's"
  m_setupWebhook :: "'s \<Rightarrow> error option \<times> 's"
  m_add :: "watcher \<Rightarrow> 's \<Rightarrow> error option \<times> 's"
  m_addHealthz :: "'s \<Rightarrow> error option \<times> 's"
  m_addReadyz :: "'s \<Rightarrow> error option \<times> 's"
  m_start :: "'s \<Rightarrow> error option \<times> 's"

type_synonym ('s, 'a) main_io = "('s, mainCall, 'a) io"

text \<open>The recurring form: a call that fails ends the process, here with a status, 1 or that of a panic.\<close>

definition orEnd :: "int \<Rightarrow> ('s, error option) main_io \<Rightarrow> ('s, int) main_io \<Rightarrow> ('s, int) main_io" where
  "orEnd status m k = do {
     err \<leftarrow> m;
     case err of Some e \<Rightarrow> ret status | None \<Rightarrow> k
   }"

abbreviation orExit :: "('s, error option) main_io \<Rightarrow> ('s, int) main_io \<Rightarrow> ('s, int) main_io" where
  "orExit \<equiv> orEnd 1"

abbreviation orPanic :: "('s, error option) main_io \<Rightarrow> ('s, int) main_io \<Rightarrow> ('s, int) main_io" where
  "orPanic \<equiv> orEnd 2"

text \<open>\<^verbatim>\<open>init\<close>, which runs before \<^verbatim>\<open>main\<close>: the types of these packages are added to the scheme, or the process panics.\<close>

definition schemesOf :: "string list" where
  "schemesOf = [''clientgoscheme'', ''configv1'', ''batchv1'', ''machineconfigurationv1'', ''machinev1beta1'',
     ''managedupgradev1beta1'']"

fun initScheme :: "'s MainClient \<Rightarrow> string list \<Rightarrow> ('s, int) main_io \<Rightarrow> ('s, int) main_io" where
  "initScheme r [] k = k"
| "initScheme r (x # xs) k = orPanic (call (AddToScheme x) (m_addToScheme r x)) (initScheme r xs k)"

fun newWatcher :: "'s MainClient \<Rightarrow> watcher option \<Rightarrow> ('s, int) main_io \<Rightarrow> ('s, int) main_io" where
  "newWatcher r None k = k"
| "newWatcher r (Some w) k = orExit (call (NewCertWatcher w) (m_newCertWatcher r w)) k"

fun addWatcher :: "'s MainClient \<Rightarrow> watcher option \<Rightarrow> ('s, int) main_io \<Rightarrow> ('s, int) main_io" where
  "addWatcher r None k = k"
| "addWatcher r (Some w) k = orExit (call (AddWatcher w) (m_add r w)) k"

fun registerAll :: "'s MainClient \<Rightarrow> collectorKind list \<Rightarrow> ('s, int) main_io \<Rightarrow> ('s, int) main_io" where
  "registerAll r [] k = k"
| "registerAll r (c # cs) k = orPanic (call (MustRegister c) (m_register r c)) (registerAll r cs k)"

fun setupAll :: "'s MainClient \<Rightarrow> controllerKind list \<Rightarrow> ('s, int) main_io \<Rightarrow> ('s, int) main_io" where
  "setupAll r [] k = k"
| "setupAll r (c # cs) k = orExit (call (SetupWithManager c) (m_setup r c)) (setupAll r cs k)"

definition metricsWatcher :: "Flags \<Rightarrow> watcher option" where
  "metricsWatcher F = (if metricsCertPath F \<noteq> ''''
     then Some (joinPath (metricsCertPath F) (metricsCertName F), joinPath (metricsCertPath F) (metricsCertKey F)) else None)"

definition webhookWatcher :: "Flags \<Rightarrow> watcher option" where
  "webhookWatcher F = (if webhookCertPath F \<noteq> ''''
     then Some (joinPath (webhookCertPath F) (webhookCertName F), joinPath (webhookCertPath F) (webhookCertKey F)) else None)"

definition metricsServerOptions :: "Flags \<Rightarrow> MetricsOptions" where
  "metricsServerOptions F = \<lparr>BindAddress = metricsAddr F, SecureServing = secureMetrics F,
     FilterProvider = secureMetrics F, MetricsCertificate = metricsWatcher F\<rparr>"

definition managerOptions :: "Flags \<Rightarrow> ManagerOptions" where
  "managerOptions F = \<lparr>Metrics = metricsServerOptions F, WebhookCertificate = webhookWatcher F,
     HealthProbeBindAddress = probeAddr F, LeaderElection = enableLeaderElection F,
     LeaderElectionID = ''9fced507.appuio.io'', Cache = cacheOpts F\<rparr>"

definition collectorsOf :: "Flags \<Rightarrow> collectorKind list" where
  "collectorsOf F = [UpgradeInformationCollectorOf (managedUpstreamClusterVersionName F),
     ClusterVersionCollectorOf (managedClusterVersionName F) (managedClusterVersionNamespace F),
     NodeCollectorOf, MachineCollectorOf (machineNamespace F)]"

definition controllersOf :: "Flags \<Rightarrow> controllerKind list" where
  "controllersOf F = [ClusterVersionReconcilerOf (managedUpstreamClusterVersionName F) (managedClusterVersionName F)
       (managedClusterVersionNamespace F),
     UpgradeJobReconcilerOf (managedUpstreamClusterVersionName F), UpgradeConfigReconcilerOf (managedUpstreamClusterVersionName F),
     UpgradeSuspensionWindowReconcilerOf, NodeForceDrainReconcilerOf (nodeDrainReconcileInterval F)]"

definition main :: "'s MainClient \<Rightarrow> Flags \<Rightarrow> ('s, int) main_io" where
  "main r F =
     newWatcher r (metricsWatcher F) (
     newWatcher r (webhookWatcher F) (
     orExit (call GetConfig (m_getConfig r)) (
     orExit (call (NewManager (managerOptions F)) (m_newManager r (managerOptions F))) (
     registerAll r (collectorsOf F) (
     setupAll r (controllersOf F) (
     orExit (call SetupWebhook (m_setupWebhook r)) (
     addWatcher r (metricsWatcher F) (
     addWatcher r (webhookWatcher F) (
     orExit (call AddHealthzCheck (m_addHealthz r)) (
     orExit (call AddReadyzCheck (m_addReadyz r)) (
     orExit (call StartManager (m_start r)) (
     ret 0))))))))))))"

definition process :: "'s MainClient \<Rightarrow> Flags \<Rightarrow> ('s, int) main_io" where
  "process r F = initScheme r schemesOf (main r F)"

section \<open>Nothing is started before all is set up\<close>

fun failedCall :: "mainCall \<Rightarrow> bool" where
  "failedCall (AddToScheme x err) = (err \<noteq> None)"
| "failedCall (NewCertWatcher w err) = (err \<noteq> None)"
| "failedCall (GetConfig err) = (err \<noteq> None)"
| "failedCall (NewManager opts err) = (err \<noteq> None)"
| "failedCall (MustRegister c err) = (err \<noteq> None)"
| "failedCall (SetupWithManager c err) = (err \<noteq> None)"
| "failedCall (SetupWebhook err) = (err \<noteq> None)"
| "failedCall (AddWatcher w err) = (err \<noteq> None)"
| "failedCall (AddHealthzCheck err) = (err \<noteq> None)"
| "failedCall (AddReadyzCheck err) = (err \<noteq> None)"
| "failedCall (StartManager err) = (err \<noteq> None)"

text \<open>What must have been called before a call: nothing that failed; the manager for all that needs it; and for the
  start every collector, controller, the webhook, the checks, and the watchers that were created.\<close>

definition managerMade :: "Flags \<Rightarrow> mainCall list \<Rightarrow> bool" where
  "managerMade F h \<longleftrightarrow> NewManager (managerOptions F) None \<in> set h"

definition allSetUp :: "Flags \<Rightarrow> mainCall list \<Rightarrow> bool" where
  "allSetUp F h \<longleftrightarrow> list_all (\<lambda>x. AddToScheme x None \<in> set h) schemesOf
     \<and> list_all (\<lambda>c. MustRegister c None \<in> set h) (collectorsOf F)
     \<and> list_all (\<lambda>c. SetupWithManager c None \<in> set h) (controllersOf F)
     \<and> list_all (\<lambda>e. e \<in> set h) [SetupWebhook None, AddHealthzCheck None, AddReadyzCheck None]
     \<and> (\<forall>w. NewCertWatcher w None \<in> set h \<longleftrightarrow> AddWatcher w None \<in> set h)"

definition processProtocol :: "Flags \<Rightarrow> mainCall list \<Rightarrow> mainCall \<Rightarrow> bool" where
  "processProtocol F h e \<longleftrightarrow> list_all (\<lambda>c. \<not> failedCall c) h \<and> (case e of
      AddToScheme x err \<Rightarrow> True
    | NewCertWatcher w err \<Rightarrow> metricsWatcher F = Some w \<or> webhookWatcher F = Some w
    | GetConfig err \<Rightarrow> True
    | NewManager opts err \<Rightarrow> opts = managerOptions F \<and> GetConfig None \<in> set h
    | AddWatcher w err \<Rightarrow> managerMade F h \<and> NewCertWatcher w None \<in> set h
    | StartManager err \<Rightarrow> managerMade F h \<and> allSetUp F h
    | _ \<Rightarrow> managerMade F h)"

text \<open>The exit status: 0 when the manager was started and ended without error, otherwise a call failed.\<close>

definition exitStatus :: "int \<Rightarrow> mainCall list \<Rightarrow> bool" where
  "exitStatus status es \<longleftrightarrow> (status = 0 \<longleftrightarrow> StartManager None \<in> set es) \<and> (status \<noteq> 0 \<longleftrightarrow> \<not> list_all (\<lambda>c. \<not> failedCall c) es)"

lemma follows_orEnd:
  "(\<And>x. E h (ev x)) \<Longrightarrow> (\<And>e. R status (h @ [ev (Some e)])) \<Longrightarrow> follows E (h @ [ev None]) k R
    \<Longrightarrow> follows E h (orEnd status (call ev g) k) R"
  unfolding orEnd_def by (rule follows_bind_call) (auto split: option.splits intro: follows_ret)

lemmas main_unfold = process_def main_def schemesOf_def collectorsOf_def controllersOf_def initScheme.simps registerAll.simps
  setupAll.simps

lemma process_follows: "follows (processProtocol F) [] (process r F) exitStatus"
  unfolding main_unfold
  by (cases "metricsWatcher F"; cases "webhookWatcher F"; simp)
    (intro follows_orEnd follows_ret; auto simp: processProtocol_def exitStatus_def managerMade_def allSetUp_def
       schemesOf_def collectorsOf_def controllersOf_def)+

text \<open>C38: the process is only started as a whole. A call that fails is the last one; the manager is started only when
  every type is registered, every collector, controller, the webhook and both health checks are set up on the manager
  made with the options of the flags, and each certificate watcher that was created is added to it; the exit
  status is zero exactly when the manager was started and ended without error.\<close>

theorem main_protocol:
  "allowed (processProtocol F) [] (callsOf (process r F) s) \<and> exitStatus (resultOf (process r F) s) (callsOf (process r F) s)"
  by (rule follows_run [OF process_follows])

section \<open>The scope of the controller\<close>

text \<open>
  What the cached client of the manager shows, as controller-runtime documents its options: a kind of \<open>ByObject\<close> only
  in its own namespaces, the others in the default namespaces, where no entry or the empty name stands for all. Objects
  of a cluster are told apart by namespace and name, the pools, which have no namespace, by name.
\<close>

definition cacheShows :: "CacheOptions \<Rightarrow> objectKind \<Rightarrow> string \<Rightarrow> bool" where
  "cacheShows opts kind ns =
     (let nss = (case map_of (ByObject opts) kind of Some nss \<Rightarrow> nss | None \<Rightarrow> DefaultNamespaces opts)
      in nss = [] \<or> '''' \<in> set nss \<or> ns \<in> set nss)"

definition cachedObjects :: "CacheOptions \<Rightarrow> objectKind \<Rightarrow> ('a ObjectMeta_scheme) list \<Rightarrow> bool" where
  "cachedObjects opts kind xs \<longleftrightarrow> distinct (map (\<lambda>x. (Namespace x, Name x)) xs)
     \<and> list_all (\<lambda>x. cacheShows opts kind (Namespace x)) xs"

definition cachedAnswer :: "CacheOptions \<Rightarrow> colCall \<Rightarrow> bool" where
  "cachedAnswer opts e = (case e of
     ListAllPools (Inr ps) \<Rightarrow> distinct (map Name ps)
   | ListAllWindows (Inr ws) \<Rightarrow> cachedObjects opts (OtherKind ''UpgradeSuspensionWindow'') ws
   | ListAllConfigs (Inr cs) \<Rightarrow> cachedObjects opts (OtherKind ''UpgradeConfig'') cs
   | ListAllJobs (Inr js) \<Rightarrow> cachedObjects opts (OtherKind ''UpgradeJob'') js
   | ListAllNodes (Inr ns) \<Rightarrow> distinct (map Name ns)
   | ListMachines n (Inr ms) \<Rightarrow> cachedObjects opts MachineKind ms \<and> list_all (\<lambda>x. Namespace x = n) ms
   | _ \<Rightarrow> True)"

text \<open>The controller of the windows reads through the same cache. A window shows no matching configs yet, or those of a
  status that a run of the controller sent.\<close>

definition cachedConfigs :: "CacheOptions \<Rightarrow> uswCall \<Rightarrow> bool" where
  "cachedConfigs opts e = (case e of
     ListMatchingConfigs sel (Inr cs) \<Rightarrow> cachedObjects opts (OtherKind ''UpgradeConfig'') cs
   | _ \<Rightarrow> True)"

definition windowStatusWritten ::
  "'z lib_scheme \<Rightarrow> 's UpgradeSuspensionWindowReconciler \<Rightarrow> CacheOptions \<Rightarrow> UpgradeSuspensionWindow \<Rightarrow> bool"
where
  "windowStatusWritten L r opts w \<longleftrightarrow> MatchingConfigs w = []
     \<or> (\<exists>req s sent res. StatusUpdateWindow sent res \<in> set (callsOf (ReconcileWindow L r req) s)
         \<and> list_all (cachedConfigs opts) (callsOf (ReconcileWindow L r req) s)
         \<and> MatchingConfigs w = MatchingConfigs sent)"

definition windowsWritten ::
  "'z lib_scheme \<Rightarrow> 's UpgradeSuspensionWindowReconciler \<Rightarrow> CacheOptions \<Rightarrow> colCall \<Rightarrow> bool"
where
  "windowsWritten L r opts e \<longleftrightarrow> (case e of
     ListAllWindows (Inr ws) \<Rightarrow> list_all (windowStatusWritten L r opts) ws
   | _ \<Rightarrow> True)"

lemma cacheShows_scoped:
  "watchNamespace F \<noteq> '''' \<Longrightarrow> cacheShows (cacheOpts F) (OtherKind k) ns \<longleftrightarrow> ns = watchNamespace F"
  by (auto simp: cacheShows_def cacheOpts_def Let_def)

lemma cachedObjects_names:
  "cachedObjects opts kind xs \<Longrightarrow> list_all (\<lambda>x. Namespace x = n) xs \<Longrightarrow> distinct (map Name xs)"
  by (auto simp: cachedObjects_def distinct_map inj_on_def list_all_iff)

lemma cachedObjects_scoped:
  assumes "watchNamespace F \<noteq> ''''" and "cachedObjects (cacheOpts F) (OtherKind k) xs"
  shows "distinct (map Name xs)"
  using assms by (intro cachedObjects_names [OF assms(2)]) (auto simp: cachedObjects_def cacheShows_scoped)

lemma windowStatusWritten_distinct:
  assumes "watchNamespace F \<noteq> ''''" and "sort_func (SortNames L)" and "windowStatusWritten L r (cacheOpts F) w"
  shows "distinct (MatchingConfigs w)"
proof (cases "MatchingConfigs w = []")
  case False
  with assms(3) obtain req s sent res where *: "StatusUpdateWindow sent res \<in> set (callsOf (ReconcileWindow L r req) s)"
    "list_all (cachedConfigs (cacheOpts F)) (callsOf (ReconcileWindow L r req) s)" "MatchingConfigs w = MatchingConfigs sent"
    unfolding windowStatusWritten_def by blast
  from split_list [OF *(1)] obtain h t where calls: "callsOf (ReconcileWindow L r req) s = h @ StatusUpdateWindow sent res # t"
    by blast
  have "windowProtocol L req h (StatusUpdateWindow sent res)"
    using conjunct1 [OF follows_run [OF ReconcileWindow_follows [OF assms(2)], of req r s]]
      allowed_split [where h = "[]"] unfolding calls by fastforce
  then obtain usw cSel configs jobs where "ListMatchingConfigs cSel (Inr configs) \<in> set h" "windowStatus usw configs jobs sent"
    by (auto simp: windowProtocol_def)
  moreover from this(1) *(2) have "cachedConfigs (cacheOpts F) (ListMatchingConfigs cSel (Inr configs))"
    unfolding calls list_all_iff by auto
  then have "distinct (map Name configs)"
    by (intro cachedObjects_scoped [OF assms(1), of "''UpgradeConfig''"]) (simp add: cachedConfigs_def)
  ultimately show ?thesis
    using *(3) by (auto simp: windowStatus_def simp flip: mset_map dest!: mset_eq_imp_distinct_iff)
qed simp

lemma cachedAnswer_unique:
  assumes "watchNamespace F \<noteq> ''''" and "sort_func (SortNames L)"
    and "cachedAnswer (cacheOpts F) e" and "windowsWritten L r (cacheOpts F) e"
  shows "uniqueNames e"
  using assms
  by (auto simp: cachedAnswer_def uniqueNames_def windowsWritten_def list_all_iff
      dest: cachedObjects_scoped intro: windowStatusWritten_distinct split: colCall.splits sum.splits)

text \<open>The collectors of nodes and machines send one metric per object, with its name as the first label.\<close>

lemma distinct_named:
  assumes "distinct (map Name xs)" and "\<And>x. \<exists>d ls. metricKey (f x) = [(d, Name x # ls)]"
    and "concat (map metricKey es) = []"
  shows "distinct (sentKeys (map Send (es @ map f xs)))"
proof -
  have key: "distinct (metricKey (f x)) \<and> (\<forall>k \<in> set (metricKey (f x)). hd (snd k) = Name x)" for x
    using assms(2) [of x] by auto
  have "distinct (concat (map (\<lambda>x. metricKey (f x)) xs))"
    by (rule distinct_by_name [where n = Name, OF assms(1)]) (use key in blast)+
  moreover have "sentKeys (map Send (es @ map f xs)) = concat (map metricKey es) @ concat (map (\<lambda>x. metricKey (f x)) xs)"
    unfolding sentKeys_map_Send by (simp add: comp_def)
  ultimately show ?thesis by (simp only: assms(3) append_Nil)
qed

definition errorMetrics :: "string \<Rightarrow> Desc list \<Rightarrow> error + 'a \<Rightarrow> Metric list" where
  "errorMetrics msg ds res = (case res of Inl e \<Rightarrow> map (\<lambda>d. InvalidMetric d (Errorf msg e)) ds | Inr _ \<Rightarrow> [])"

lemma keys_errorMetrics [simp]: "concat (map metricKey (errorMetrics msg ds res)) = []"
  by (cases res) (simp_all add: errorMetrics_def del: list.map)

lemma node_trace: "spec (CollectNode m) (\<lambda>_ es. \<exists>nl. es = ListAllNodes nl #
     map Send (errorMetrics ''failed list to nodes'' [nodeDrainingDesc] nl @ map nodeMetric (okOr [] nl)))"
  unfolding CollectNode_def sendInvalid_def
  by (rule spec_bind_call)
    (auto simp: errorMetrics_def split: sum.split intro!: spec_bind_sendAll spec_bind [OF spec_ret] spec_mono [OF spec_sendAll])

lemma machine_trace: "spec (CollectMachine L m) (\<lambda>_ es. \<exists>ml. es = ListMachines (MachineNamespace m) ml #
     map Send (errorMetrics ''failed list to machines'' [machineInfoDesc] ml @ map (machineMetric L) (okOr [] ml)))"
  unfolding CollectMachine_def sendInvalid_def
  by (rule spec_bind_call)
    (auto simp: errorMetrics_def split: sum.split intro!: spec_bind_sendAll spec_bind [OF spec_ret] spec_mono [OF spec_sendAll])

lemma node_keys_distinct:
  assumes "list_all (cachedAnswer opts) (callsOf (CollectNode m) s)"
  shows "distinct (sentKeys (callsOf (CollectNode m) s))"
proof -
  from spec_run [OF node_trace, of m s] obtain nl where calls: "callsOf (CollectNode m) s = ListAllNodes nl #
     map Send (errorMetrics ''failed list to nodes'' [nodeDrainingDesc] nl @ map nodeMetric (okOr [] nl))" by blast
  with assms have "distinct (map Name (okOr [] nl))" by (cases nl) (simp_all add: cachedAnswer_def)
  then show ?thesis
    unfolding calls sentKeys.simps by (rule distinct_named) (simp_all add: nodeMetric_def)
qed

lemma machine_keys_distinct:
  assumes "list_all (cachedAnswer opts) (callsOf (CollectMachine L m) s)"
  shows "distinct (sentKeys (callsOf (CollectMachine L m) s))"
proof -
  from spec_run [OF machine_trace, of L m s] obtain ml where calls: "callsOf (CollectMachine L m) s =
     ListMachines (MachineNamespace m) ml # map Send (errorMetrics ''failed list to machines'' [machineInfoDesc] ml
       @ map (machineMetric L) (okOr [] ml))" by blast
  with assms have "distinct (map Name (okOr [] ml))"
    by (cases ml) (auto simp: cachedAnswer_def dest: cachedObjects_names)
  then show ?thesis
    unfolding calls sentKeys.simps by (rule distinct_named) (simp_all add: machineMetric_def Let_def)
qed

text \<open>C36: a controller with a namespace sends no metric of an upgrade object, a node or a machine twice. When the flag of
  the namespace is not empty, the cache shows objects with distinct names per kind, and the configs a window lists
  are those its controller listed through this cache, so the collectors of upgrade information, of nodes and of machines
  each send no two metrics with the same descriptor and label values, and the registry accepts their part of the
  scrape.\<close>

theorem scoped_metrics_distinct:
  assumes "watchNamespace flags \<noteq> ''''" and "sort_func (SortNames L)"
    and "list_all (cachedAnswer (cacheOpts flags)) (callsOf (CollectUpgradeInformation F L m) s
      @ callsOf (CollectNode mn) sn @ callsOf (CollectMachine L mm) sm)"
    and "list_all (windowsWritten L r (cacheOpts flags)) (callsOf (CollectUpgradeInformation F L m) s)"
  shows "distinct (sentKeys (callsOf (CollectUpgradeInformation F L m) s))
    \<and> distinct (sentKeys (callsOf (CollectNode mn) sn))
    \<and> distinct (sentKeys (callsOf (CollectMachine L mm) sm))"
proof (intro conjI)
  have "list_all uniqueNames (callsOf (CollectUpgradeInformation F L m) s)"
    using assms(3,4) cachedAnswer_unique [OF assms(1,2)] by (auto simp: list_all_iff)
  then show "distinct (sentKeys (callsOf (CollectUpgradeInformation F L m) s))" by (rule metrics_distinct)
qed (use assms(3) in \<open>auto intro: node_keys_distinct machine_keys_distinct\<close>)

text \<open>It is the flag that counts: for all namespaces the cache shows two jobs of the same name.\<close>

lemma unscoped_jobs:
  "cachedAnswer (cacheOpts (flags\<lparr>watchNamespace := ''''\<rparr>))
     (ListAllJobs (Inr [sampleJob [], (sampleJob [])\<lparr>Namespace := ''other''\<rparr>]))"
  by (simp add: cachedAnswer_def cachedObjects_def cacheShows_def cacheOpts_def Let_def sampleJob_def ObjectMeta.extend_def sampleMeta_def)

text \<open>The fourth collector does send a metric twice, whatever the flags: an overlay of the cluster version is told apart by its
  start and by four fields of its preview, and nothing keeps two overlays from having the same.\<close>

lemma overlays_collide:
  "so_From a = so_From b \<Longrightarrow> extractCVFields (so_Preview a) = extractCVFields (so_Preview b)
     \<Longrightarrow> metricKey (overlayMetric F cv a) = metricKey (overlayMetric F cv b) \<and> metricKey (overlayMetric F cv a) \<noteq> []"
  by (simp add: overlayMetric_def)

lemma cached_sends [simp]: "list_all (cachedAnswer opts) (map Send xs)" "list_all (windowsWritten L r opts) (map Send xs)"
  by (induction xs) (simp_all add: cachedAnswer_def windowsWritten_def)

definition sampleWindows :: "unit UpgradeSuspensionWindowReconciler" where
  "sampleWindows = \<lparr>usw_get = (\<lambda>_ s. (Inr sampleWindow, s)), usw_listConfigs = (\<lambda>_ s. (Inr [twoSchedules], s)),
     usw_listJobs = (\<lambda>_ s. (Inr [], s)), usw_statusUpdate = (\<lambda>w s. (Inr w, s))\<rparr>"

lemma sampleWindow_written:
  "windowStatusWritten refLib sampleWindows (cacheOpts (flagDefaults ''ns'')) (sampleWindow\<lparr>MatchingConfigs := [''config'']\<rparr>)"
proof -
  let ?es = "callsOf (ReconcileWindow refLib sampleWindows \<lparr>nn_Namespace = ''ns'', nn_Name = ''window''\<rparr>) ()"
  have names: "sortBy strCompare [''config''] = [''config'']" "sortBy strCompare [] = []"
    by code_simp+
  have "StatusUpdateWindow (sampleWindow\<lparr>MatchingConfigs := [''config''], MatchingJobs := []\<rparr>)
      (Inr (sampleWindow\<lparr>MatchingConfigs := [''config''], MatchingJobs := []\<rparr>)) \<in> set ?es
    \<and> list_all (cachedConfigs (cacheOpts (flagDefaults ''ns''))) ?es"
    using names
    by (simp add: ReconcileWindow_def callsOf_def sampleWindows_def sampleWindow_def ObjectMeta.extend_def sampleMeta_def
        isZeroPtr_def refLib_def refSelector_def sampleSelector_def twoSchedules_def cachedConfigs_def cachedObjects_def
        cacheShows_def cacheOpts_def flagDefaults_def defaultNamespace_def Let_def)
  then show ?thesis unfolding windowStatusWritten_def by fastforce
qed

definition sampleNodes :: "unit UpgradeInformationCollector" where
  "sampleNodes = sampleMetrics\<lparr>col_listNodes := (\<lambda>s. (Inr [sampleMeta '''' ''a'', sampleMeta '''' ''b''], s))\<rparr>"

definition sampleMachines :: "unit MachineCollector" where
  "sampleMachines = MetricsClient.extend (MetricsClient.truncate (sampleMetrics\<lparr>col_listMachines := (\<lambda>n s.
     (Inr [ObjectMeta.extend (sampleMeta n ''a'') \<lparr>ProviderID = None, NodeRef = Some ''a'', Phase = Some ''Running''\<rparr>], s))\<rparr>))
     \<lparr>MachineNamespace = ''openshift-machine-api''\<rparr>"

theorem scoped_metrics_distinct_witness:
  "ListAllJobs (Inr [sampleJob [], (sampleJob [])\<lparr>Name := ''next''\<rparr>])
      \<in> set (callsOf (CollectUpgradeInformation (\<lambda>_. ''time'') refLib sampleMetrics) ())
   \<and> distinct (sentKeys (callsOf (CollectUpgradeInformation (\<lambda>_. ''time'') refLib sampleMetrics) ()))
   \<and> distinct (sentKeys (callsOf (CollectNode sampleNodes) ()))
   \<and> distinct (sentKeys (callsOf (CollectMachine refLib sampleMachines) ()))"
proof -
  let ?C = "cacheOpts (flagDefaults ''ns'')"
  let ?es = "callsOf (CollectUpgradeInformation (\<lambda>_. ''time'') refLib sampleMetrics) ()"
  have ns: "watchNamespace (flagDefaults ''ns'') \<noteq> ''''" by (simp add: flagDefaults_def defaultNamespace_def)
  have names: "sort_func (SortNames refLib)" using sortBy.sort_func_axioms by (simp add: refLib_def)
  have written: "list_all (windowsWritten refLib sampleWindows ?C) ?es"
    using sampleWindow_written by (simp add: collect_defs windowsWritten_def)
  note C = cachedAnswer_def cachedObjects_def cacheShows_def cacheOpts_def flagDefaults_def defaultNamespace_def
    sampleMeta_def ObjectMeta.extend_def
  have "list_all (cachedAnswer ?C) ?es"
    by (simp add: collect_defs C samplePool_def sampleJob_def sampleWindow_def twoSchedules_def)
  moreover have "list_all (cachedAnswer ?C) (callsOf (CollectNode sampleNodes) ())"
    by (simp add: CollectNode_def callsOf_def sampleNodes_def sampleMetrics_def fixedMetrics_def run_sendAll C)
  moreover have "list_all (cachedAnswer ?C) (callsOf (CollectMachine refLib sampleMachines) ())"
    by (simp add: CollectMachine_def callsOf_def sampleMachines_def sampleMetrics_def fixedMetrics_def run_sendAll C
        MetricsClient.extend_def MetricsClient.truncate_def)
  ultimately have "list_all (cachedAnswer ?C) (?es @ callsOf (CollectNode sampleNodes) () @ callsOf (CollectMachine refLib sampleMachines) ())"
    by simp
  from scoped_metrics_distinct [OF ns names this written]
  have distinct: "distinct (sentKeys ?es) \<and> distinct (sentKeys (callsOf (CollectNode sampleNodes) ()))
      \<and> distinct (sentKeys (callsOf (CollectMachine refLib sampleMachines) ()))" .
  moreover have "ListAllJobs (Inr [sampleJob [], (sampleJob [])\<lparr>Name := ''next''\<rparr>]) \<in> set ?es"
    by (simp add: collect_defs)
  ultimately show ?thesis by simp
qed

end
