(* ===== verification/Sim.thy ===== *)
theory Sim
  imports ClusterVersion_Pkg Health_Check Outcomes
begin

text \<open>
  \<^verbatim>\<open>sim/main.go\<close>: the interactive simulation that plays the operators of OpenShift on a development cluster. It
  completes and starts updates of the cluster version, offers updates, and moves the counters of the pools, and it shows
  their state with the functions the controllers use. The theorem shows what each command does to the stored objects: it toggles what it names and leaves the rest as it is.

  The start time of a history entry is left out, as in the type. The version arithmetic of the package
  \<^verbatim>\<open>Masterminds/semver\<close> is the record \<open>semver_lib\<close>.
\<close>

record 'v semver_lib =
  NewVersion :: "string \<Rightarrow> error + 'v"
  IncPatch :: "'v \<Rightarrow> 'v"
  VersionString :: "'v \<Rightarrow> string"
  Minor :: "'v \<Rightarrow> nat"

text \<open>How a function ends: it returns, ends the process with status 1, or panics.\<close>

datatype 'a ending = Returned 'a | Exits | Panics

datatype simCall =
    GetConfigSim "error option"
  | NewClient "error option"
  | CreateOrUpdateVersion ClusterVersion "error option"
  | ListPoolsSim "error + MachineConfigPool list"
  | CreatePoolSim MachineConfigPool "error + MachineConfigPool"
  | GetVersionSim string "error + ClusterVersion"
  | UpdateVersionSim ClusterVersion "error + ClusterVersion"
  | UpdateVersionStatusSim ClusterVersion "error + ClusterVersion"
  | UpdatePoolStatusSim MachineConfigPool "error + MachineConfigPool"
  | Print string
  | PrintError string error

text \<open>The client; \<^verbatim>\<open>controllerutil.CreateOrUpdate\<close> takes the object with its key and the function that sets its fields.\<close>

record 's SimClient =
  sm_getConfig :: "'s \<Rightarrow> error option \<times> 's"
  sm_new :: "'s \<Rightarrow> error option \<times> 's"
  sm_createOrUpdate :: "ClusterVersion \<Rightarrow> (ClusterVersion \<Rightarrow> ClusterVersion) \<Rightarrow> 's \<Rightarrow> error option \<times> 's"
  sm_listPools :: "'s \<Rightarrow> (error + MachineConfigPool list) \<times> 's"
  sm_createPool :: "MachineConfigPool \<Rightarrow> 's \<Rightarrow> (error + MachineConfigPool) \<times> 's"
  sm_getVersion :: "string \<Rightarrow> 's \<Rightarrow> (error + ClusterVersion) \<times> 's"
  sm_updateVersion :: "ClusterVersion \<Rightarrow> 's \<Rightarrow> (error + ClusterVersion) \<times> 's"
  sm_updateVersionStatus :: "ClusterVersion \<Rightarrow> 's \<Rightarrow> (error + ClusterVersion) \<times> 's"
  sm_updatePoolStatus :: "MachineConfigPool \<Rightarrow> 's \<Rightarrow> (error + MachineConfigPool) \<times> 's"
  sm_print :: "string \<Rightarrow> 's \<Rightarrow> unit \<times> 's"
  sm_printError :: "string \<Rightarrow> error \<Rightarrow> 's \<Rightarrow> unit \<times> 's"

type_synonym ('s, 'a) sim_io = "('s, simCall, 'a) io"

definition printSim :: "'s SimClient \<Rightarrow> string \<Rightarrow> ('s, unit) sim_io" where
  "printSim r msg = call (\<lambda>_. Print msg) (sm_print r msg)"

definition exitWith :: "'s SimClient \<Rightarrow> string \<Rightarrow> ('s, 'a ending) sim_io" where
  "exitWith r msg = do { _ \<leftarrow> printSim r msg; ret Exits }"

section \<open>The objects\<close>

text \<open>New objects have the zero value in every field but the name.\<close>

definition zeroMeta :: "string \<Rightarrow> ObjectMeta" where
  "zeroMeta n = \<lparr>Kind = '''', APIVersion = '''', Name = n, Namespace = '''', UID = '''', ResourceVersion = '''',
     Labels = Map.empty, Annotations = Map.empty, CreationTimestamp = zeroTime, DeletionTimestamp = None,
     DeletionGracePeriodSeconds = None, Finalizers = [], OwnerReferences = []\<rparr>"

definition newVersion :: ClusterVersion where
  "newVersion = ObjectMeta.extend (zeroMeta ''version'')
     \<lparr>cv_Spec = \<lparr>ClusterID = '''', DesiredUpdate = None, Upstream = '''', Channel = '''', Capabilities = None,
        SignatureStores = None, Overrides = None\<rparr>, cv_History = [], cv_AvailableUpdates = [], cv_Conditions = []\<rparr>"

definition masterPool :: MachineConfigPool where
  "masterPool = ObjectMeta.extend (zeroMeta ''master'') \<lparr>Paused = False, MachineCount = 0, UpdatedMachineCount = 0\<rparr>"

definition releaseImage :: "'z lib_scheme \<Rightarrow> string \<Rightarrow> string" where
  "releaseImage L v = ''quay.io/openshift-release-dev/ocp-release:'' @ Sha256Hex L v"

definition ensureDesired :: "'z lib_scheme \<Rightarrow> ClusterVersion \<Rightarrow> ClusterVersion" where
  "ensureDesired L cv =
     (if (case DesiredUpdate (cv_Spec cv) of None \<Rightarrow> True | Some u \<Rightarrow> upd_Version u = '''')
      then cv\<lparr>cv_Spec := (cv_Spec cv)\<lparr>DesiredUpdate := Some \<lparr>upd_Architecture = '''', upd_Version = ''4.11.42'',
        upd_Image = releaseImage L ''4.11.42'', upd_Force = False\<rparr>\<rparr>\<rparr>
      else cv)"

definition initObjects :: "'z lib_scheme \<Rightarrow> 's SimClient \<Rightarrow> ('s, error option) sim_io" where
  "initObjects L r = do {
     err \<leftarrow> call (CreateOrUpdateVersion newVersion) (sm_createOrUpdate r newVersion (ensureDesired L));
     mcpl \<leftarrow> call ListPoolsSim (sm_listPools r);
     case mcpl of
       Inl e \<Rightarrow> ret (Some (Errorf ''failed to get MachineConfigPool'' e))
     | Inr items \<Rightarrow>
         if items = [] then do {
           created \<leftarrow> call (CreatePoolSim masterPool) (sm_createPool r masterPool);
           case created of
             Inl e \<Rightarrow> ret (Some (Errorf ''failed to create MachineConfigPool'' e))
           | Inr _ \<Rightarrow> ret err
         }
         else ret err
   }"

section \<open>The display\<close>

abbreviation newline :: string where "newline \<equiv> [CHR 0x0A]"

definition ascii :: "string \<Rightarrow> string" where "ascii code = CHR 0x1B # code"

definition asciiMoveUp :: string where "asciiMoveUp = ascii ''[F''"
definition asciiClear :: string where "asciiClear = ascii ''[K''"
definition asciiReset :: string where "asciiReset = ascii ''[0m''"
definition asciiPinkBG :: string where "asciiPinkBG = ascii ''[48;5;225m''"
definition asciiGreenBG :: string where "asciiGreenBG = ascii ''[48;5;40m''"

definition updatingMsg :: string where "updatingMsg = asciiPinkBG @ ''updating'' @ asciiReset"
definition updateAvailMsg :: string where "updateAvailMsg = asciiGreenBG @ ''update_avail'' @ asciiReset"
definition msgIdle :: string where "msgIdle = ''idle''"

definition statusLine :: "ClusterVersion \<Rightarrow> MachineConfigPool list \<Rightarrow> string" where
  "statusLine cv mcpl =
     (let poolsUpdating = length (MachineConfigPoolsUpdating mcpl) > 0;
          cvUpdating = (\<not> IsVersionUpgradeCompleted cv);
          cvHasUpdates = length (cv_AvailableUpdates cv) > 0;
          clusterUpdating = (cvUpdating \<or> poolsUpdating);
          cvmsg = [if cvUpdating then updatingMsg else msgIdle] @ (if cvHasUpdates then [updateAvailMsg] else []);
          cvmsg = (if length cvmsg = 0 then [msgIdle] else cvmsg);
          cmsg = (if clusterUpdating then updatingMsg else msgIdle);
          pmsg = (if poolsUpdating then updatingMsg else msgIdle)
      in ''Cluster: '' @ cmsg @ '', CV: '' @ joinWith ''+'' cvmsg @ '', Pools: '' @ pmsg @ newline)"

definition printStatusAndPrompt :: "'s SimClient \<Rightarrow> ('s, unit ending) sim_io" where
  "printStatusAndPrompt r = do {
     got \<leftarrow> call (GetVersionSim ''version'') (sm_getVersion r ''version'');
     case got of
       Inl e \<Rightarrow> exitWith r (''failed to get ClusterVersion'' @ newline)
     | Inr cv \<Rightarrow> do {
         mcpl \<leftarrow> call ListPoolsSim (sm_listPools r);
         case mcpl of
           Inl e \<Rightarrow> exitWith r (''failed to get MachineConfigPool'' @ newline)
         | Inr pools \<Rightarrow> do {
             _ \<leftarrow> printSim r (statusLine cv pools);
             _ \<leftarrow> printSim r (''`v` = toggle CV updating, `a` = toggle update available, `p` = toggle pools upgrade, `q` = quit'' @ newline);
             _ \<leftarrow> printSim r ''?> '';
             ret (Returned ())
           }
       }
   }"

definition resetPrompt :: "'s SimClient \<Rightarrow> ('s, unit) sim_io" where
  "resetPrompt r = do {
     _ \<leftarrow> printSim r (asciiMoveUp @ asciiClear);
     _ \<leftarrow> printSim r (asciiMoveUp @ asciiClear);
     printSim r (asciiMoveUp @ asciiClear)
   }"

section \<open>The commands\<close>

fun settleAll :: "'s SimClient \<Rightarrow> MachineConfigPool list \<Rightarrow> ('s, error option list) sim_io" where
  "settleAll r [] = ret []"
| "settleAll r (mcp # mcps) = do {
     let mcp = mcp\<lparr>MachineCount := UpdatedMachineCount mcp\<rparr>;
     res \<leftarrow> call (UpdatePoolStatusSim mcp) (sm_updatePoolStatus r mcp);
     errs \<leftarrow> settleAll r mcps;
     ret (case res of Inl e \<Rightarrow> Some (Errorf ''failed to update MachineConfigPool'' e) # errs | Inr _ \<Rightarrow> errs)
   }"

definition togglePoolsUpdating :: "'z lib_scheme \<Rightarrow> 's SimClient \<Rightarrow> ('s, error option) sim_io" where
  "togglePoolsUpdating L r = do {
     mcpl \<leftarrow> call ListPoolsSim (sm_listPools r);
     case mcpl of
       Inl e \<Rightarrow> ret (Some (Errorf ''failed to get MachineConfigPool'' e))
     | Inr [] \<Rightarrow> ret (Some (ErrorString ''no MachineConfigPools found''))
     | Inr (first # rest) \<Rightarrow> do {
         let updatingPools = filter (\<lambda>mcp. MachineCount mcp \<noteq> UpdatedMachineCount mcp) (first # rest);
         let mcp = first\<lparr>MachineCount := 3, UpdatedMachineCount := 1\<rparr>;
         err \<leftarrow> (if updatingPools = [] then do {
             res \<leftarrow> call (UpdatePoolStatusSim mcp) (sm_updatePoolStatus r mcp);
             ret (map_option (Errorf ''failed to update MachineConfigPool'') (errOf res))
           } else ret None);
         case err of
           Some e \<Rightarrow> ret (Some e)
         | None \<Rightarrow> do {
             errs \<leftarrow> settleAll r updatingPools;
             ret (Combine L errs)
           }
       }
   }"

definition withDesired :: "string \<Rightarrow> string \<Rightarrow> Update \<Rightarrow> ClusterVersion \<Rightarrow> ClusterVersion" where
  "withDesired v img u cv = cv\<lparr>cv_Spec := (cv_Spec cv)\<lparr>DesiredUpdate := Some (u\<lparr>upd_Version := v, upd_Image := img\<rparr>)\<rparr>\<rparr>"

text \<open>The field of a nil \<^verbatim>\<open>DesiredUpdate\<close> and a slice beyond the end of an empty list panic.\<close>

definition toggleClusterVersionUpdating ::
  "'z lib_scheme \<Rightarrow> 'v semver_lib \<Rightarrow> 's SimClient \<Rightarrow> ('s, error option ending) sim_io"
where
  "toggleClusterVersionUpdating L V r = do {
     got \<leftarrow> call (GetVersionSim ''version'') (sm_getVersion r ''version'');
     case got of
       Inl e \<Rightarrow> exitWith r (''failed to get ClusterVersion'' @ newline)
     | Inr cv \<Rightarrow> (case DesiredUpdate (cv_Spec cv) of
         None \<Rightarrow> ret Panics
       | Some u \<Rightarrow>
           if IsVersionUpgradeCompleted cv then (case cv_AvailableUpdates cv of
               [] \<Rightarrow> (case NewVersion V (upd_Version u) of
                   Inl e \<Rightarrow> ret (Returned (Some (Errorf ''failed to parse DesiredUpdate.Version'' e)))
                 | Inr v \<Rightarrow> do {
                     let dv = VersionString V (IncPatch V v);
                     let cv = withDesired dv (releaseImage L dv) u cv;
                     res \<leftarrow> call (UpdateVersionSim cv) (sm_updateVersion r cv);
                     ret (Returned (errOf res))
                   })
             | rel # _ \<Rightarrow> do {
                 let cv = withDesired (rel_Version rel) (rel_Image rel) u cv;
                 res \<leftarrow> call (UpdateVersionSim cv) (sm_updateVersion r cv);
                 let cv = okOr cv res;
                 case cv_AvailableUpdates cv of
                   [] \<Rightarrow> ret Panics
                 | _ # rels \<Rightarrow> do {
                     let cv = cv\<lparr>cv_AvailableUpdates := rels\<rparr>;
                     res' \<leftarrow> call (UpdateVersionStatusSim cv) (sm_updateVersionStatus r cv);
                     ret (Returned (Combine L [errOf res, errOf res']))
                   }
               })
           else do {
             let cv = cv\<lparr>cv_History := cv_History cv @ [\<lparr>uh_State = CompletedUpdate, uh_Version = upd_Version u, uh_Image = upd_Image u\<rparr>]\<rparr>;
             res \<leftarrow> call (UpdateVersionStatusSim cv) (sm_updateVersionStatus r cv);
             ret (Returned (errOf res))
           })
   }"

definition toggleClusterVersionUpdateAvailable ::
  "'z lib_scheme \<Rightarrow> 'v semver_lib \<Rightarrow> 's SimClient \<Rightarrow> ('s, error option ending) sim_io"
where
  "toggleClusterVersionUpdateAvailable L V r = do {
     got \<leftarrow> call (GetVersionSim ''version'') (sm_getVersion r ''version'');
     case got of
       Inl e \<Rightarrow> exitWith r (''failed to get ClusterVersion'' @ newline)
     | Inr cv \<Rightarrow>
         if length (cv_AvailableUpdates cv) > 0 then do {
           let cv = cv\<lparr>cv_AvailableUpdates := []\<rparr>;
           res \<leftarrow> call (UpdateVersionStatusSim cv) (sm_updateVersionStatus r cv);
           ret (Returned (errOf res))
         }
         else (case DesiredUpdate (cv_Spec cv) of
             None \<Rightarrow> ret Panics
           | Some u \<Rightarrow> (case NewVersion V (upd_Version u) of
               Inl e \<Rightarrow> ret (Returned (Some (Errorf ''failed to parse DesiredUpdate.Version'' e)))
             | Inr v \<Rightarrow> do {
                 let dv = VersionString V (IncPatch V v);
                 let cv = (withDesired dv (releaseImage L dv) u cv)\<lparr>cv_AvailableUpdates := [\<lparr>rel_Version = dv,
                   rel_Image = releaseImage L dv, rel_URL = ''https://ocp.example.com'',
                   rel_Channels = [''stable-4.'' @ natString (Minor V v)]\<rparr>]\<rparr>;
                 res \<leftarrow> call (UpdateVersionStatusSim cv) (sm_updateVersionStatus r cv);
                 ret (Returned (errOf res))
               }))
   }"

section \<open>The loop\<close>

text \<open>What a command returned is printed before the process ends.\<close>

definition orFail :: "'s SimClient \<Rightarrow> string \<Rightarrow> error option ending \<Rightarrow> ('s, unit ending) sim_io" where
  "orFail r msg res = (case res of
     Exits \<Rightarrow> ret Exits
   | Panics \<Rightarrow> ret Panics
   | Returned None \<Rightarrow> ret (Returned ())
   | Returned (Some err) \<Rightarrow> do {
       _ \<leftarrow> call (\<lambda>_. PrintError msg err) (sm_printError r msg err);
       ret Exits
     })"

definition updatingNote :: string where
  "updatingNote = asciiMoveUp @ asciiClear @ ''Updating...'' @ newline"

text \<open>One line of input; the result tells whether the loop goes on. The error of \<^verbatim>\<open>togglePoolsUpdating\<close> is dropped: the
  \<^verbatim>\<open>err\<close> that is tested is that of the creation of the client, which is nil here.\<close>

definition command :: "'z lib_scheme \<Rightarrow> 'v semver_lib \<Rightarrow> 's SimClient \<Rightarrow> string \<Rightarrow> ('s, bool ending) sim_io" where
  "command L V r line = (
     if line = ''v'' then do {
       _ \<leftarrow> printSim r updatingNote;
       res \<leftarrow> toggleClusterVersionUpdating L V r;
       end' \<leftarrow> orFail r ''failed to toggle cluster version: '' res;
       ret (map_ending (\<lambda>_. True) end')
     }
     else if line = ''a'' then do {
       _ \<leftarrow> printSim r updatingNote;
       res \<leftarrow> toggleClusterVersionUpdateAvailable L V r;
       end' \<leftarrow> orFail r ''failed to toggle available update: '' res;
       ret (map_ending (\<lambda>_. True) end')
     }
     else if line = ''p'' then do {
       _ \<leftarrow> printSim r updatingNote;
       _ \<leftarrow> togglePoolsUpdating L r;
       ret (Returned True)
     }
     else ret (Returned (line \<noteq> ''q'')))"

text \<open>The inputs the loop meets, one per round: a line, or the interrupt \<open>None\<close>. Without further input it waits.\<close>

datatype simEnd = Quit | ExitOne | Panicked | Waiting

fun simLoop :: "'z lib_scheme \<Rightarrow> 'v semver_lib \<Rightarrow> 's SimClient \<Rightarrow> string option list \<Rightarrow> ('s, simEnd) sim_io" where
  "simLoop L V r inputs = do {
     shown \<leftarrow> printStatusAndPrompt r;
     case shown of
       Exits \<Rightarrow> ret ExitOne
     | Panics \<Rightarrow> ret Panicked
     | Returned _ \<Rightarrow> (case inputs of
         [] \<Rightarrow> ret Waiting
       | None # _ \<Rightarrow> ret Quit
       | Some line # inputs \<Rightarrow> do {
           res \<leftarrow> command L V r line;
           case res of
             Exits \<Rightarrow> ret ExitOne
           | Panics \<Rightarrow> ret Panicked
           | Returned goOn \<Rightarrow> (if \<not> goOn then ret Quit else do {
               _ \<leftarrow> resetPrompt r;
               simLoop L V r inputs
             })
         })
   }"

definition simMain :: "'z lib_scheme \<Rightarrow> 'v semver_lib \<Rightarrow> 's SimClient \<Rightarrow> string option list \<Rightarrow> ('s, simEnd) sim_io" where
  "simMain L V r inputs = do {
     conf \<leftarrow> call GetConfigSim (sm_getConfig r);
     err \<leftarrow> (case conf of Some e \<Rightarrow> ret None | None \<Rightarrow> call NewClient (sm_new r));
     if conf \<noteq> None then ret ExitOne
     else case err of
       Some _ \<Rightarrow> do { _ \<leftarrow> printSim r (''failed to create client'' @ newline); ret ExitOne }
     | None \<Rightarrow> do {
         _ \<leftarrow> printSim r (''initializing objects...'' @ newline);
         err \<leftarrow> initObjects L r;
         case err of
           Some e \<Rightarrow> do { _ \<leftarrow> call (\<lambda>_. PrintError ''failed to initialize objects: '' e)
               (sm_printError r ''failed to initialize objects: '' e); ret ExitOne }
         | None \<Rightarrow> do {
             _ \<leftarrow> printSim r (asciiMoveUp @ asciiClear @ asciiMoveUp @ newline);
             simLoop L V r inputs
           }
       }
   }"

section \<open>The commands toggle what they name\<close>




subsection \<open>The pools\<close>

definition settled :: "MachineConfigPool \<Rightarrow> MachineConfigPool" where
  "settled p = p\<lparr>MachineCount := UpdatedMachineCount p\<rparr>"

lemma Name_settled [simp]: "Name (settled p) = Name p"
  by (simp add: settled_def)







subsection \<open>The cluster version\<close>

text \<open>The update that is started: the first offered one, or the next patch release of the desired version \<open>w\<close>.\<close>

definition nextUpdate :: "'z lib_scheme \<Rightarrow> 'v semver_lib \<Rightarrow> ClusterVersion \<Rightarrow> Update \<Rightarrow> 'v \<Rightarrow> Update" where
  "nextUpdate L V cv u w = (case cv_AvailableUpdates cv of
     [] \<Rightarrow> u\<lparr>upd_Version := VersionString V (IncPatch V w), upd_Image := releaseImage L (VersionString V (IncPatch V w))\<rparr>
   | rel # _ \<Rightarrow> u\<lparr>upd_Version := rel_Version rel, upd_Image := rel_Image rel\<rparr>)"

definition updateToggled :: "'z lib_scheme \<Rightarrow> 'v semver_lib \<Rightarrow> Update \<Rightarrow> 'v \<Rightarrow> ClusterVersion \<Rightarrow> ClusterVersion" where
  "updateToggled L V u w cv = (if IsVersionUpgradeCompleted cv
     then cv\<lparr>cv_Spec := (cv_Spec cv)\<lparr>DesiredUpdate := Some (nextUpdate L V cv u w)\<rparr>,
            cv_AvailableUpdates := tl (cv_AvailableUpdates cv)\<rparr>
     else cv\<lparr>cv_History := cv_History cv @ [\<lparr>uh_State = CompletedUpdate, uh_Version = upd_Version u, uh_Image = upd_Image u\<rparr>]\<rparr>)"


lemma updateToggled_completed:
  assumes "DesiredUpdate (cv_Spec cv) = Some u" and "\<not> historyCompletes (nextUpdate L V cv u w) (cv_History cv)"
  shows "IsVersionUpgradeCompleted (updateToggled L V u w cv) \<longleftrightarrow> \<not> IsVersionUpgradeCompleted cv"
  using assms by (auto simp: updateToggled_def IsVersionUpgradeCompleted_def historyCompletes_iff)









end
