(* ===== verification/Spec2Isabelle.thy ===== *)
theory Spec2Isabelle
  imports Prelude Kube Api_Types Libraries ClusterVersion_Pkg Health_Check Schedule
    UpgradeJob_Client Api_Server Hook_Jobs Hook_Environment Machine_Pools UpgradeJob_Controller
    Samples UpgradeJob_Properties Suspension UpgradeConfig_Controller UpgradeConfig_Properties
    SuspensionWindow_Controller ClusterVersion_Controller ForceDrain_Controller
    Cluster_Properties Lock_Exclusion Hook_Exclusion Job_Lifecycle Outcomes Upgrade_Progress Config_Progress
    Watches Wake_Ups Collectors Collector_Properties Hook_Webhook Manager Sim
begin

text \<open>
  Verification of the OpenShift upgrade controller: a Kubernetes controller that starts cluster upgrades in maintenance
  windows, guards them, runs hooks around them, and drains nodes that would keep an upgrade from ending.

  \<^bold>\<open>The program.\<close> An \<^verbatim>\<open>UpgradeConfig\<close> creates an \<^verbatim>\<open>UpgradeJob\<close> for each run of its schedule, some time ahead and with the
  latest version available then, unless an \<^verbatim>\<open>UpgradeSuspensionWindow\<close> covers the run. The job waits for its start, takes
  the lock (an annotation of the upstream \<^verbatim>\<open>ClusterVersion\<close>), checks the health of the cluster, sets the desired update,
  waits for it and for the machine config pools, which it may pause and unpause, checks the health again and records its
  outcome; at each event it creates the batch jobs of the \<^verbatim>\<open>UpgradeJobHook\<close>s that match, and their outcome may stop it. A
  second controller keeps the rest of the upstream \<^verbatim>\<open>ClusterVersion\<close> as its template asks. A \<^verbatim>\<open>NodeForceDrain\<close> deletes pods
  that keep nodes from draining. Collectors show all this as metrics; a webhook admits hooks; \<^verbatim>\<open>main.go\<close> wires it up. The
  controllers share nothing but the objects of the API server.

  \<^bold>\<open>How it is modelled.\<close> A handler is a function in a state monad over an abstract store. Its calls to the API server and
  the clock are fields of a client record, functions on the store that may answer anything, errors and stale objects
  included; each call is recorded with its answer. So a theorem about every store, every client and the recorded calls is
  about every behaviour of the API. \<open>Prelude\<close> has the monad and its rules: \<open>allowed E [] es\<close> says that each call in \<open>es\<close> is
  one the protocol \<open>E\<close> permits after the calls before it, \<open>follows\<close> proves it for a program. Errors are values of
  \<open>error\<close>, a handler returns \<open>error + result\<close>; a loop of the code is a recursive function with a name of its own; a
  \<^verbatim>\<open>time.Time\<close> is an integer of nanoseconds and a \<^verbatim>\<open>time.Duration\<close> an integer with the wrap-around (\<open>wrap64\<close>) or saturation
  (\<open>timeSub\<close>) of the code written out. A struct is a record of its fields that the code reads or writes.

  \<^bold>\<open>Theories and sources.\<close>
  \<^item> \<open>Kube\<close>, \<open>Api_Types\<close>: the objects; \<open>Api_Types\<close> is \<^verbatim>\<open>api/v1beta1\<close> with its methods, among them the claim of a hook.
  \<^item> \<open>Libraries\<close>: the third-party functions, with the laws their documentation states, and \<open>refLib\<close>, which keeps them.
  \<^item> \<open>Schedule\<close>: \<^verbatim>\<open>pkg/schedule\<close>. \<open>ClusterVersion_Pkg\<close>, \<open>Health_Check\<close>: \<^verbatim>\<open>pkg/clusterversion\<close>, \<^verbatim>\<open>pkg/healthcheck\<close>.
  \<^item> \<open>UpgradeJob_Client\<close>, \<open>Hook_Jobs\<close>, \<open>Machine_Pools\<close>, \<open>Suspension\<close>, \<open>UpgradeJob_Controller\<close>: \<^verbatim>\<open>controllers/upgradejob_controller.go\<close>
    - its client, hooks and their jobs, pools, suspension windows, and \<^verbatim>\<open>Reconcile\<close> with lock and health checks.
  \<^item> \<open>UpgradeConfig_Controller\<close>, \<open>SuspensionWindow_Controller\<close>, \<open>ClusterVersion_Controller\<close>, \<open>ForceDrain_Controller\<close>: the other
    reconcilers of \<^verbatim>\<open>controllers/\<close>; \<open>Collectors\<close>: the four collectors there.
  \<^item> \<open>Watches\<close>: the five \<^verbatim>\<open>SetupWithManager\<close> methods, each as the list of the kinds it watches with their handlers.
  \<^item> \<open>Hook_Webhook\<close>: \<^verbatim>\<open>internal/webhook/v1beta1\<close>. \<open>Manager\<close>: \<^verbatim>\<open>main.go\<close>. \<open>Sim\<close>: \<^verbatim>\<open>sim/main.go\<close>.
  \<^item> \<open>Api_Server\<close>, \<open>Samples\<close>: a small API server and sample objects, at which hypotheses are shown to hold.

  \<^bold>\<open>What is shown.\<close>
  \<^item> \<open>Lock_Exclusion\<close>: in every interleaving of any number of upgrade jobs, the cluster version controller and other writers,
    with stale reads, the lock passes only from nobody to a job and back, by that job, and only its holder changes the
    desired update. The server is assumed to refuse an update with an old resource version, as Kubernetes does.
  \<^item> \<open>Hook_Exclusion\<close>: in every interleaving of upgrade jobs all batch jobs of a hook with the policy \<^verbatim>\<open>Next\<close> are created for the
    one upgrade job whose claim is stored.
  \<^item> \<open>Job_Lifecycle\<close>: in every such interleaving the stored job moves along the life cycle of phases (refinement), and a
    final phase is final. \<open>Upgrade_Progress\<close>: on a calm cluster a job succeeds within ten reconciliations (liveness).
    \<open>Config_Progress\<close>: on a calm config the next run of the schedule gets its job, at the moment its version is pinned
    (liveness). Both compute the outcome of a run with the rules of \<open>Outcomes\<close>.
    \<open>Wake_Ups\<close>: a run that ends without asking for another one has left something under way, and the watches turn each
    event of it into a request for this job, unless the job is over (liveness).
  \<^item> \<open>UpgradeJob_Properties\<close>: what a run of \<^verbatim>\<open>Reconcile\<close> may write and why - lock, desired update, start, success, each cause of
    failure, each write of a pool - and the protocols of hooks and hook jobs.
  \<^item> \<open>Hook_Environment\<close>: the variables every container of a hook job is given, names and values.
  \<^item> \<open>UpgradeConfig_Properties\<close>: which jobs are created, when, how often, under which name; which old ones are deleted;
    when a config is looked at again.
  \<^item> \<open>Cluster_Properties\<close>: the template of the cluster version, its overlays, suspension windows, and which pods a forced
    drain may delete and when; an active drain is looked at again. \<open>Hook_Webhook\<close>: the verdict of the dry run.
  \<^item> \<open>Collector_Properties\<close>: no collector panics, and what the metrics mean. \<open>Manager\<close>: nothing is started before all is set
    up, and with a namespace the collectors of upgrade information, nodes and machines send no metric twice (that of the
    cluster version does, for two overlays alike in their labels). \<open>Sim\<close>: each command toggles what it names in the stored
    objects and leaves the rest.

  \<^bold>\<open>Interfaces.\<close> \<open>job_api\<close>, \<open>upgrade_api\<close>, \<open>reconcile_api\<close> (what the upgrade job controller relies on), \<open>condition_laws\<close>,
  \<open>combine_laws\<close>, \<open>tracker_laws\<close>, \<open>semver_laws\<close>, \<open>sort_func\<close> (libraries), \<open>exclusive_claim\<close> (hooks), \<open>activations\<close>,
  \<open>cron_progress\<close> (schedules), \<open>lock_agents\<close>, \<open>hook_agents\<close>, \<open>job_runs\<close> (agents of an interleaving), \<open>reads_allowed\<close>, \<open>overlay_sort\<close>,
  \<open>calm_laws\<close>, \<open>config_laws\<close> (the calm cluster and the calm config), \<open>event_delivery\<close> (how controller-runtime handles an
  event), \<open>prometheus_collector\<close> and \<open>sim_api\<close> (the API server of the simulation) are locales, each interpreted on the model or on the reference library.

  \<^bold>\<open>Bounds.\<close> Two loops of the code carry their own bound, which the model keeps: \<open>Next\<close> looks at 1000 activations and
  \<open>findNextRun\<close> makes at most 101 attempts. \<open>formatDigits\<close> has a bound of 19 digits, enough for every 64 bit number in its
  range, and \<open>isoWeek\<close> computes with integer division. Other loops are structural recursions, so every handler is total. The
  loop of \<open>simLoop\<close> takes its lines of input as a list and waits when the list is used up.

  \<^bold>\<open>Parameters.\<close> What is not in the repository is an argument: \<open>lib\<close> (apimachinery, controller-runtime, multierr, semver, the
  encoders), \<open>cron_lib\<close> (the parsed cron expression), \<open>jq_lib\<close> (the JQ interpreter), \<open>status_lib\<close> (the text of API errors),
  \<open>semver_lib\<close> (version arithmetic of the simulation), the merge of two specs (mergo), the formats of times, and the clients.

  \<^bold>\<open>Not modelled.\<close> The generated deep copies (\<^verbatim>\<open>zz_generated.deepcopy.go\<close>), since a value of the model cannot be changed
  through a copy; \<^verbatim>\<open>groupversion_info.go\<close>, the \<^verbatim>\<open>init\<close> functions of the API types and the simulation; the queue of requests of
  controller-runtime; the parsing of flags, whose set includes those of the logger; log
  and event texts, help texts of metrics and the rounding of floats; object fields the code only passes through.
\<close>

end
